(* ===== verification/GoBase.thy ===== *)
theory GoBase
  imports Main "HOL-Library.Word" "HOL-Library.Signed_Division"
begin

text \<open>
  The part of Go that every component of VelaDNS uses: the fixed-width integers, the
  \<open>time\<close> package, \<open>math/rand\<close>, and small generic lemmas.

  \<^item> \<open>int\<close>, \<open>int64\<close> and \<open>time.Duration\<close> are the integers, with the two's complement
    wrap-around of the 64-bit targets written out by \<open>wrap64\<close> at every operation that
    can leave the range.
  \<^item> \<open>uint\<close> and \<open>uint64\<close> are 64-bit words.
  \<^item> \<open>time.Time\<close> counts nanoseconds from the zero \<open>Time\<close> (year 1), so \<open>IsZero\<close> is
    equality with 0. Every call of \<open>time.Now\<close> is an explicit argument of the model.
  \<^item> A draw of \<open>rand.Int63n\<close> is an explicit natural number, the raw draw, reduced as the
    library reduces it.
\<close>

named_theorems go_defs \<open>definitions of Go library operations, unfolded together\<close>

section \<open>Integers\<close>

type_synonym uint = "64 word"
type_synonym duration = int
type_synonym gotime = int

definition wrap64 :: "int \<Rightarrow> int" where
  "wrap64 x = signed_take_bit 63 x"

lemma wrap64_id [simp]: "- (2 ^ 63) \<le> x \<Longrightarrow> x < 2 ^ 63 \<Longrightarrow> wrap64 x = x"
  unfolding wrap64_def by (rule signed_take_bit_int_eq_self) simp_all

lemma wrap64_range: "- (2 ^ 63) \<le> wrap64 x \<and> wrap64 x < 2 ^ 63"
  unfolding wrap64_def using signed_take_bit_int_greater_eq_minus_exp [of 63 x]
    signed_take_bit_int_less_exp [of 63 x] by simp

text \<open>Integer division of Go truncates towards zero.\<close>

lemma sdiv_pos [simp]: "0 \<le> x \<Longrightarrow> 0 < k \<Longrightarrow> (x::int) sdiv k = x div k"
  by (simp add: signed_divide_int_def sgn_if split: if_splits)

lemma unat_Suc_less: "(i::'a::len word) < j \<Longrightarrow> unat (i + 1) = Suc (unat i)"
proof -
  assume less: "i < j"
  then have "Suc (unat i) \<le> unat j" by (simp add: word_less_nat_alt)
  then have "Suc (unat i) < 2 ^ LENGTH('a)"
    using unsigned_less [of j, where ?'a = nat] by (rule order_le_less_trans)
  then show ?thesis by (simp add: unat_word_ariths)
qed

lemma unat_plus_1: "(w::uint) \<noteq> - 1 \<Longrightarrow> unat (w + 1) = unat w + 1"
  by (metis Suc_eq_plus1 add.commute add_eq_0_iff unatSuc)

section \<open>Package \<open>time\<close>\<close>

abbreviation (input) microsecond :: duration where "microsecond \<equiv> 1000"
abbreviation (input) millisecond :: duration where "millisecond \<equiv> 1000000"
abbreviation (input) second :: duration where "second \<equiv> 1000000000"
abbreviation (input) minute :: duration where "minute \<equiv> 60000000000"

abbreviation (input) max_duration :: duration where "max_duration \<equiv> 9223372036854775807"
abbreviation (input) min_duration :: duration where "min_duration \<equiv> - 9223372036854775808"

abbreviation (input) zero_time :: gotime where "zero_time \<equiv> 0"

text \<open>\<open>t.Sub(u)\<close> saturates at the ends of the \<open>Duration\<close> range; \<open>time.Since(u)\<close> is
  \<open>time.Now().Sub(u)\<close>.\<close>

definition time_sub :: "gotime \<Rightarrow> gotime \<Rightarrow> duration" where
  "time_sub t u = max min_duration (min max_duration (t - u))"

text \<open>\<open>d.Round(m)\<close>: to the nearest multiple of \<open>m\<close>, halves away from zero, saturating.\<close>

definition duration_round :: "duration \<Rightarrow> duration \<Rightarrow> duration" where
  "duration_round d m =
     (if m \<le> 0 then d
      else let r = \<bar>d smod m\<bar> in
        if d < 0 then
          (if 2 * r < m then d + r
           else if wrap64 (d - m + r) < d then wrap64 (d - m + r) else min_duration)
        else
          (if 2 * r < m then d - r
           else if d < wrap64 (d + m - r) then wrap64 (d + m - r) else max_duration))"

text \<open>\<open>Unix\<close> and \<open>UnixMilli\<close> count from 1970; the zero \<open>Time\<close> lies 62135596800 seconds
  earlier.\<close>

definition time_unix :: "gotime \<Rightarrow> int" where
  "time_unix t = t div second - 62135596800"

definition time_unix_milli :: "gotime \<Rightarrow> int" where
  "time_unix_milli t = t div millisecond - 62135596800000"

definition of_unix_milli :: "int \<Rightarrow> gotime" where
  "of_unix_milli ms = (ms + 62135596800000) * millisecond"

lemma of_unix_milli_unix_milli:
  "of_unix_milli (time_unix_milli t) \<le> t \<and> t < of_unix_milli (time_unix_milli t) + millisecond"
  by (simp add: of_unix_milli_def time_unix_milli_def) presburger

lemma time_unix_mono: "t \<le> u \<Longrightarrow> time_unix t \<le> time_unix u"
  by (simp add: time_unix_def zdiv_mono1)

section \<open>Package \<open>math/rand\<close>\<close>

text \<open>\<open>rand.Int63n(n)\<close> reduces its last raw draw modulo \<open>n\<close>; it panics when \<open>n\<close> is not
  positive, which every caller excludes (each has a lemma for it).\<close>

definition int63n :: "nat \<Rightarrow> int \<Rightarrow> int" where
  "int63n raw n = int raw mod n"

lemma int63n_range: "0 < n \<Longrightarrow> 0 \<le> int63n raw n \<and> int63n raw n < n"
  by (simp add: int63n_def)

end
