(* ===== verification/Backoff.thy ===== *)
theory Backoff
  imports GoBase
begin

text \<open>
  The three retry delays of the program: \<open>exponentialDelay\<close> with \<open>jitterDelay\<close>
  (internal/circuitplugin/circuit.go), \<open>restartDelay\<close> (cmd/veladns/process.go) and
  \<open>jitterDoHBackoff\<close> (cmd/veladns/dohbridge.go). Each is written out as the code has it;
  the lemmas give the closed form of the doubling loop, show that the three are one
  algorithm with different constants, and bound every delay.
\<close>

section \<open>The code\<close>

function exponentialDelay_loop :: "duration \<Rightarrow> uint \<Rightarrow> uint \<Rightarrow> duration \<Rightarrow> duration" where
  "exponentialDelay_loop maximum step i delay =
     (if i < step \<and> delay < maximum then
        (let delay' = wrap64 (delay * 2) in
         if maximum \<le> delay' then maximum
         else exponentialDelay_loop maximum step (i + 1) delay')
      else delay)"
  by pat_completeness auto
termination
  by (relation "measure (\<lambda>(maximum, step, i, delay). unat step - unat i)")
    (auto simp: unat_Suc_less word_less_nat_alt)

declare exponentialDelay_loop.simps [simp del]

definition exponentialDelay :: "duration \<Rightarrow> duration \<Rightarrow> uint \<Rightarrow> duration" where
  "exponentialDelay initial maximum step = exponentialDelay_loop maximum step 1 initial"

definition jitterDelay :: "nat \<Rightarrow> duration \<Rightarrow> duration \<Rightarrow> duration" where
  "jitterDelay raw nominal maximum =
     (if nominal \<le> 0 then 0
      else let spread = nominal sdiv 5 in
        if spread = 0 then nominal
        else let delay = wrap64 (nominal - spread + int63n raw (2 * spread + 1)) in
          if maximum < delay then maximum else delay)"

abbreviation (input) restartInitial :: duration where "restartInitial \<equiv> second"
abbreviation (input) restartMaximum :: duration where "restartMaximum \<equiv> 30 * second"

function restartDelay_loop :: "uint \<Rightarrow> uint \<Rightarrow> duration \<Rightarrow> duration" where
  "restartDelay_loop step i nominal =
     (if i < step \<and> nominal < restartMaximum then
        (let nominal' = wrap64 (nominal * 2) in
         if restartMaximum \<le> nominal' then restartMaximum
         else restartDelay_loop step (i + 1) nominal')
      else nominal)"
  by pat_completeness auto
termination
  by (relation "measure (\<lambda>(step, i, nominal). unat step - unat i)")
    (auto simp: unat_Suc_less word_less_nat_alt)

declare restartDelay_loop.simps [simp del]

definition restartDelay :: "nat \<Rightarrow> uint \<Rightarrow> duration" where
  "restartDelay raw step =
     (let nominal = restartDelay_loop step 1 restartInitial;
          spread = nominal sdiv 5;
          delay = wrap64 (nominal - spread + int63n raw (2 * spread + 1))
      in if restartMaximum < delay then restartMaximum else delay)"

abbreviation (input) dohBackoffMaximum :: duration where "dohBackoffMaximum \<equiv> 5 * minute"

function jitterDoHBackoff_loop :: "uint \<Rightarrow> uint \<Rightarrow> duration \<Rightarrow> duration" where
  "jitterDoHBackoff_loop step current delay =
     (if current < step \<and> delay < dohBackoffMaximum then
        (let delay' = wrap64 (delay * 2) in
         if dohBackoffMaximum \<le> delay' then dohBackoffMaximum
         else jitterDoHBackoff_loop step (current + 1) delay')
      else delay)"
  by pat_completeness auto
termination
  by (relation "measure (\<lambda>(step, current, delay). unat step - unat current)")
    (auto simp: unat_Suc_less word_less_nat_alt)

declare jitterDoHBackoff_loop.simps [simp del]

definition jitterDoHBackoff :: "nat \<Rightarrow> uint \<Rightarrow> duration" where
  "jitterDoHBackoff raw step =
     (let delay = jitterDoHBackoff_loop step 1 second;
          spread = delay sdiv 5;
          jittered = wrap64 (delay - spread + int63n raw (2 * spread + 1))
      in if dohBackoffMaximum < jittered then dohBackoffMaximum else jittered)"

section \<open>The doubling loop\<close>

lemma exponentialDelay_loop_closed:
  "0 < delay \<Longrightarrow> delay \<le> maximum \<Longrightarrow> maximum \<le> 2 ^ 62 \<Longrightarrow>
   exponentialDelay_loop maximum step i delay = min maximum (delay * 2 ^ (unat step - unat i))"
proof (induction maximum step i delay rule: exponentialDelay_loop.induct)
  case (1 maximum step i delay)
  show ?case
  proof (cases "i < step \<and> delay < maximum")
    case True
    then have w: "wrap64 (delay * 2) = delay * 2" using "1.prems" by simp
    have e: "unat step - unat i = Suc (unat step - unat (i + 1))"
      using True unat_Suc_less [of i step]
      by (simp add: word_less_nat_alt Suc_diff_Suc)
    show ?thesis
    proof (cases "maximum \<le> delay * 2")
      case big: True
      have "(2::int) \<le> 2 ^ (unat step - unat i)" unfolding e by simp
      then have "delay * 2 \<le> delay * 2 ^ (unat step - unat i)"
        using "1.prems"(1) by (intro mult_left_mono) simp_all
      with big have "min maximum (delay * 2 ^ (unat step - unat i)) = maximum" by simp
      with big True show ?thesis
        by (simp add: exponentialDelay_loop.simps [of maximum step i] w)
    next
      case False
      then have "exponentialDelay_loop maximum step (i + 1) (delay * 2) =
          min maximum (delay * 2 * 2 ^ (unat step - unat (i + 1)))"
        using "1.IH" [OF True refl] "1.prems" by (simp add: w)
      with False True show ?thesis
        by (simp add: exponentialDelay_loop.simps [of maximum step i] w e mult.assoc)
    qed
  next
    case False
    have "delay \<le> delay * 2 ^ n" for n using "1.prems"(1) by simp
    moreover have "\<not> i < step \<Longrightarrow> unat step - unat i = 0" by (simp add: word_less_nat_alt)
    ultimately show ?thesis using False "1.prems"
      by (cases "i < step") (auto simp: exponentialDelay_loop.simps [of maximum step i])
  qed
qed

lemma restartDelay_loop_eq:
  "restartDelay_loop step i nominal = exponentialDelay_loop restartMaximum step i nominal"
  by (induction step i nominal rule: restartDelay_loop.induct)
    (subst restartDelay_loop.simps, subst exponentialDelay_loop.simps, simp add: Let_def)

lemma jitterDoHBackoff_loop_eq:
  "jitterDoHBackoff_loop step i delay = exponentialDelay_loop dohBackoffMaximum step i delay"
  by (induction step i delay rule: jitterDoHBackoff_loop.induct)
    (subst jitterDoHBackoff_loop.simps, subst exponentialDelay_loop.simps, simp add: Let_def)

lemma exponentialDelay_range:
  assumes "0 < initial" and "initial \<le> maximum" and "maximum \<le> 2 ^ 62"
  shows "initial \<le> exponentialDelay initial maximum step"
    and "exponentialDelay initial maximum step \<le> maximum"
proof -
  have "(1::int) \<le> 2 ^ (unat step - 1)" by simp
  then have "initial * 1 \<le> initial * 2 ^ (unat step - 1)"
    using assms(1) by (intro mult_left_mono) simp_all
  then show "initial \<le> exponentialDelay initial maximum step"
    and "exponentialDelay initial maximum step \<le> maximum"
    using assms by (simp_all add: exponentialDelay_def exponentialDelay_loop_closed)
qed

section \<open>The jitter\<close>

text \<open>Every call of \<open>Int63n\<close> has a positive argument, so it does not panic.\<close>

lemma jitter_draw_positive: "0 < nominal \<Longrightarrow> 0 < 2 * (nominal sdiv 5) + (1::int)"
  by simp

lemma jitter_draw_range:
  assumes "0 < nominal"
  shows "0 \<le> int63n raw (2 * (nominal div 5) + 1)"
    and "int63n raw (2 * (nominal div 5) + 1) \<le> 2 * (nominal div 5)"
  using int63n_range [of "2 * (nominal div 5) + 1" raw] assms by simp_all

lemma jitterDelay_eq:
  assumes "0 < nominal" and "nominal \<le> 2 ^ 62"
  shows "jitterDelay raw nominal maximum =
    (if nominal div 5 = 0 then nominal
     else min maximum (nominal - nominal div 5 + int63n raw (2 * (nominal div 5) + 1)))"
  using assms jitter_draw_range [OF assms(1), of raw]
  by (simp add: jitterDelay_def Let_def min_def)

lemma jitterDelay_range:
  assumes "0 < nominal" and "nominal \<le> maximum" and "nominal \<le> 2 ^ 62"
  shows "nominal - nominal div 5 \<le> jitterDelay raw nominal maximum"
    and "jitterDelay raw nominal maximum \<le> min maximum (nominal + nominal div 5)"
  using assms jitter_draw_range [OF assms(1), of raw]
  by (simp_all add: jitterDelay_eq min_def)

lemma jitterDelay_le_maximum:
  assumes "5 \<le> nominal" and "nominal \<le> 2 ^ 62"
  shows "jitterDelay raw nominal maximum \<le> maximum"
proof -
  have "nominal div 5 \<noteq> 0" using assms(1) by simp
  then show ?thesis using assms by (simp add: jitterDelay_eq)
qed

lemma jitterDelay_onto:
  assumes "5 \<le> nominal" and "nominal \<le> 2 ^ 62" and "d \<le> maximum"
    and "nominal - nominal div 5 \<le> d" and "d \<le> nominal + nominal div 5"
  shows "jitterDelay (nat (d - (nominal - nominal div 5))) nominal maximum = d"
  using assms by (simp add: jitterDelay_eq int63n_def)

section \<open>One algorithm, three sets of constants\<close>

lemma restartDelay_loop_range:
  "restartInitial \<le> restartDelay_loop step 1 restartInitial"
  "restartDelay_loop step 1 restartInitial \<le> restartMaximum"
  using exponentialDelay_range [of restartInitial restartMaximum step]
  by (simp_all add: restartDelay_loop_eq exponentialDelay_def)

lemma jitterDoHBackoff_loop_range:
  "second \<le> jitterDoHBackoff_loop step 1 second"
  "jitterDoHBackoff_loop step 1 second \<le> dohBackoffMaximum"
  using exponentialDelay_range [of second dohBackoffMaximum step]
  by (simp_all add: jitterDoHBackoff_loop_eq exponentialDelay_def)

lemma jitterDelay_guarded:
  "5 \<le> n \<Longrightarrow> jitterDelay raw n maximum =
    (if maximum < wrap64 (n - n sdiv 5 + int63n raw (2 * (n sdiv 5) + 1)) then maximum
     else wrap64 (n - n sdiv 5 + int63n raw (2 * (n sdiv 5) + 1)))"
proof -
  assume "5 \<le> n"
  then have "n sdiv 5 \<noteq> 0" and "\<not> n \<le> 0" by simp_all
  then show ?thesis by (simp only: jitterDelay_def Let_def if_False)
qed

lemma backoffs_agree_raw:
  "restartDelay raw step =
     jitterDelay raw (exponentialDelay restartInitial restartMaximum step) restartMaximum"
  "jitterDoHBackoff raw step =
     jitterDelay raw (exponentialDelay second dohBackoffMaximum step) dohBackoffMaximum"
  using jitterDelay_guarded [of "restartDelay_loop step 1 restartInitial" raw restartMaximum]
    jitterDelay_guarded [of "jitterDoHBackoff_loop step 1 second" raw dohBackoffMaximum]
    restartDelay_loop_range(1) [of step] jitterDoHBackoff_loop_range(1) [of step]
  unfolding restartDelay_def jitterDoHBackoff_def exponentialDelay_def
    restartDelay_loop_eq jitterDoHBackoff_loop_eq Let_def
  by simp_all

text \<open>The restart delay of a supervised child and the backoff of a DoH provider are the
  circuit's jittered exponential delay with an initial delay of one second and maxima of
  thirty seconds and five minutes: the same raw draw and the same step give the same delay.\<close>

theorem backoffs_agree:
  "restartDelay raw step =
     jitterDelay raw (exponentialDelay restartInitial restartMaximum step) restartMaximum \<and>
   jitterDoHBackoff raw step =
     jitterDelay raw (exponentialDelay second dohBackoffMaximum step) dohBackoffMaximum"
  by (simp only: backoffs_agree_raw)

text \<open>The nominal delay doubles from the initial delay with every step and is cut off
  exactly at the maximum, for every step a \<open>uint\<close> can hold, with no overflow of the
  duration, while the maximum is at most \<open>2^62\<close> nanoseconds (146 years).\<close>

theorem exponentialDelay_closed:
  assumes "0 < initial" and "initial \<le> maximum" and "maximum \<le> 2 ^ 62"
  shows "exponentialDelay initial maximum step = min maximum (initial * 2 ^ (unat step - 1))"
  using assms by (simp add: exponentialDelay_def exponentialDelay_loop_closed)

theorem exponentialDelay_closed_witness:
  "exponentialDelay second (30 * second) 5 = 16 * second \<and>
   exponentialDelay second (30 * second) 10 = 30 * second"
  using exponentialDelay_closed [of second "30 * second" 5]
    exponentialDelay_closed [of second "30 * second" 10] by simp

lemma restartDelay_range:
  "800 * millisecond \<le> restartDelay raw step \<and> restartDelay raw step \<le> restartMaximum"
  using exponentialDelay_range [of restartInitial restartMaximum step]
    jitterDelay_range [of "exponentialDelay restartInitial restartMaximum step" restartMaximum raw]
  by (simp add: backoffs_agree_raw)

end
