(* ===== verification/GoErr.thy ===== *)
theory GoErr
  imports GoBase
begin

text \<open>
  Errors and contexts. An \<open>error\<close> is one of the sentinel values the program tests for, a
  fresh error with a message, or an error that wraps others: its message and the errors its
  \<open>Unwrap\<close> (or \<open>Is\<close>) method exposes to \<open>errors.Is\<close>. A \<open>nil\<close> error is \<open>None\<close>.
\<close>

datatype goerr =
    ErrNew string
  | CtxCanceled
  | CtxDeadlineExceeded
  | NetErrClosed
  | ErrWrap string "goerr list"

fun err_message :: "goerr \<Rightarrow> string" where
  "err_message (ErrNew m) = m"
| "err_message CtxCanceled = ''context canceled''"
| "err_message CtxDeadlineExceeded = ''context deadline exceeded''"
| "err_message NetErrClosed = ''use of closed network connection''"
| "err_message (ErrWrap m es) = m"

text \<open>\<open>errors.Is(err, target)\<close> for the comparable sentinels the program passes as targets.\<close>

fun errors_is :: "goerr \<Rightarrow> goerr \<Rightarrow> bool" where
  "errors_is (ErrWrap m es) t \<longleftrightarrow> ErrWrap m es = t \<or> list_ex (\<lambda>e. errors_is e t) es"
| "errors_is e t \<longleftrightarrow> e = t"

text \<open>
  A \<open>context.Context\<close> as its users see it: the instant at which it is done (\<open>None\<close> for
  never), the value of \<open>Err()\<close> and the value of \<open>context.Cause\<close> from then on.
\<close>

record goctx =
  done_at :: "gotime option"
  done_err :: goerr
  done_cause :: goerr

definition ctx_done :: "goctx \<Rightarrow> gotime \<Rightarrow> bool" where
  "ctx_done ctx now \<longleftrightarrow> (case done_at ctx of None \<Rightarrow> False | Some t \<Rightarrow> t \<le> now)"

definition ctx_err :: "goctx \<Rightarrow> gotime \<Rightarrow> goerr option" where
  "ctx_err ctx now = (if ctx_done ctx now then Some (done_err ctx) else None)"

lemma ctx_done_mono: "ctx_done ctx t \<Longrightarrow> t \<le> u \<Longrightarrow> ctx_done ctx u"
  by (auto simp: ctx_done_def split: option.splits)

lemma ctx_err_None [simp]: "ctx_err ctx t = None \<longleftrightarrow> \<not> ctx_done ctx t"
  by (simp add: ctx_err_def)

end
