(* ===== verification/Dns.thy ===== *)
theory Dns
  imports GoErr
begin

text \<open>
  The fields of a DNS message (\<open>dns.Msg\<close>, package miekg/dns) that VelaDNS reads or writes.
  The package itself is not modelled: packing, unpacking and the construction of an error
  reply are arguments of the definitions that use them.
\<close>

text \<open>A resource record: the type in its header and, when it is a \<open>*dns.A\<close>, the text of its
  address.\<close>

record rr =
  rr_type :: nat
  rr_a :: "string option"

record dnsmsg =
  msg_id :: nat
  msg_response :: bool
  msg_rcode :: int
  msg_question :: "string list"
  msg_answer :: "rr list"

abbreviation (input) RcodeSuccess :: int where "RcodeSuccess \<equiv> 0"
abbreviation (input) RcodeServerFailure :: int where "RcodeServerFailure \<equiv> 2"
abbreviation (input) TypeA :: nat where "TypeA \<equiv> 1"
abbreviation (input) TypeRRSIG :: nat where "TypeRRSIG \<equiv> 46"
abbreviation (input) MaxMsgSize :: nat where "MaxMsgSize \<equiv> 65535"

end
