(* ===== verification/Breaker.thy ===== *)
theory Breaker
  imports GoBase
begin

text \<open>
  The protocol both circuit breakers of the program follow: the AUTO_FORWARD circuit
  (internal/circuitplugin/circuit.go) and the backoff of a DoH provider
  (cmd/veladns/dohbridge.go). A request asks for a permit (\<open>acquire\<close>), runs outside the lock
  and reports its outcome (\<open>succeed\<close> or \<open>fail\<close>, with its permit). Every operation holds
  the breaker's mutex, so the requests of concurrent goroutines interleave operation by
  operation. The state of the system is the breaker and the permits in flight, each the
  \<open>probe\<close> flag of a request that has acquired and not yet reported.

  The step relation is generic in the three operations. The locale states what the two
  implementations promise, and proves what follows for every interleaving; the two
  implementations interpret it in their own theories.
\<close>

record 's breaker_ops =
  bo_acquire :: "gotime \<Rightarrow> 's \<Rightarrow> bool option \<times> 's"
  bo_succeed :: "'s \<Rightarrow> 's"
  bo_fail :: "gotime \<Rightarrow> nat \<Rightarrow> bool \<Rightarrow> 's \<Rightarrow> 's"

text \<open>\<open>Begin now\<close>: a request arrives. \<open>Abandon p\<close>: a request gives its permit up without
  reporting (the early return of \<open>Exec\<close> on a cancelled context).\<close>

datatype bevent =
    Begin gotime
  | FinishOk bool
  | FinishErr bool gotime nat
  | Abandon bool

type_synonym 's bstate = "'s \<times> bool list"

inductive breaker_step :: "'s breaker_ops \<Rightarrow> 's bstate \<Rightarrow> bevent \<Rightarrow> 's bstate \<Rightarrow> bool"
  for ops :: "'s breaker_ops" where
  granted: "bo_acquire ops now s = (Some p, s') \<Longrightarrow>
    breaker_step ops (s, fl) (Begin now) (s', p # fl)"
| refused: "bo_acquire ops now s = (None, s') \<Longrightarrow>
    breaker_step ops (s, fl) (Begin now) (s', fl)"
| finish_ok: "p \<in> set fl \<Longrightarrow>
    breaker_step ops (s, fl) (FinishOk p) (bo_succeed ops s, remove1 p fl)"
| finish_err: "p \<in> set fl \<Longrightarrow>
    breaker_step ops (s, fl) (FinishErr p now raw) (bo_fail ops now raw p s, remove1 p fl)"
| abandon: "p \<in> set fl \<Longrightarrow>
    breaker_step ops (s, fl) (Abandon p) (s, remove1 p fl)"

inductive_cases breaker_step_elims:
  "breaker_step ops st (Begin now) st'"
  "breaker_step ops st (FinishOk p) st'"
  "breaker_step ops st (FinishErr p now raw) st'"
  "breaker_step ops st (Abandon p) st'"

inductive breaker_run :: "'s breaker_ops \<Rightarrow> 's bstate \<Rightarrow> bevent list \<Rightarrow> 's bstate \<Rightarrow> bool"
  for ops :: "'s breaker_ops" where
  run_Nil: "breaker_run ops st [] st"
| run_Cons: "breaker_step ops st e st' \<Longrightarrow> breaker_run ops st' es st'' \<Longrightarrow>
    breaker_run ops st (e # es) st''"

inductive_simps breaker_run_Nil_iff [simp]: "breaker_run ops st [] st'"
inductive_simps breaker_run_Cons_iff: "breaker_run ops st (e # es) st'"

lemma breaker_run_append:
  "breaker_run ops st es st' \<Longrightarrow> breaker_run ops st' fs st'' \<Longrightarrow> breaker_run ops st (es @ fs) st''"
  by (induction rule: breaker_run.induct) (auto intro: run_Cons)

lemma breaker_run_invariant:
  assumes "breaker_run ops st es st'" and "P st"
    and "\<And>st e st'. e \<in> set es \<Longrightarrow> breaker_step ops st e st' \<Longrightarrow> P st \<Longrightarrow> P st'"
  shows "P st'"
  using assms
proof (induction rule: breaker_run.induct)
  case (run_Cons st e st' es st'')
  from run_Cons.prems(2) [OF _ run_Cons.hyps(1) run_Cons.prems(1)] have "P st'" by simp
  then show ?case
    by (rule run_Cons.IH) (rule run_Cons.prems(2), simp_all)
qed

text \<open>The same relation as a function, which evaluates a concrete interleaving.\<close>

fun bstep_exec :: "'s breaker_ops \<Rightarrow> bevent \<Rightarrow> 's bstate \<Rightarrow> 's bstate option" where
  "bstep_exec ops (Begin now) (s, fl) =
     (case bo_acquire ops now s of (None, s') \<Rightarrow> Some (s', fl) | (Some p, s') \<Rightarrow> Some (s', p # fl))"
| "bstep_exec ops (FinishOk p) (s, fl) =
     (if p \<in> set fl then Some (bo_succeed ops s, remove1 p fl) else None)"
| "bstep_exec ops (FinishErr p now raw) (s, fl) =
     (if p \<in> set fl then Some (bo_fail ops now raw p s, remove1 p fl) else None)"
| "bstep_exec ops (Abandon p) (s, fl) =
     (if p \<in> set fl then Some (s, remove1 p fl) else None)"

fun brun_exec :: "'s breaker_ops \<Rightarrow> bevent list \<Rightarrow> 's bstate \<Rightarrow> 's bstate option" where
  "brun_exec ops [] st = Some st"
| "brun_exec ops (e # es) st =
     (case bstep_exec ops e st of None \<Rightarrow> None | Some st' \<Rightarrow> brun_exec ops es st')"

lemma bstep_exec_sound: "bstep_exec ops e st = Some st' \<Longrightarrow> breaker_step ops st e st'"
  by (cases st; cases e) (auto intro: breaker_step.intros split: if_splits option.splits prod.splits)

lemma brun_exec_sound: "brun_exec ops es st = Some st' \<Longrightarrow> breaker_run ops st es st'"
  by (induction es arbitrary: st)
    (auto intro: run_Nil run_Cons bstep_exec_sound split: option.splits)

definition no_abandon :: "bevent list \<Rightarrow> bool" where
  "no_abandon es \<longleftrightarrow> (\<forall>p. Abandon p \<notin> set es)"

lemma True_notin_remove1: "True \<notin> set (remove1 p fl) \<Longrightarrow> True \<in> set fl \<Longrightarrow> p"
  by (metis in_set_remove1)

section \<open>The contract\<close>

text \<open>
  \<open>tripped\<close>: the breaker is open or half-open; \<open>probing\<close>: a probe holds the half-open slot;
  \<open>retry\<close>: when the next probe may start.
\<close>

locale breaker =
  fixes ops :: "'s breaker_ops"
    and tripped :: "'s \<Rightarrow> bool"
    and probing :: "'s \<Rightarrow> bool"
    and retry :: "'s \<Rightarrow> gotime"
  assumes acquire_closed: "\<not> tripped s \<Longrightarrow> bo_acquire ops now s = (Some False, s)"
    and acquire_refused: "tripped s \<Longrightarrow> now < retry s \<or> probing s \<Longrightarrow>
      \<exists>s'. bo_acquire ops now s = (None, s') \<and> tripped s' \<and> probing s' = probing s \<and> retry s' = retry s"
    and acquire_probe: "tripped s \<Longrightarrow> \<not> now < retry s \<Longrightarrow> \<not> probing s \<Longrightarrow>
      \<exists>s'. bo_acquire ops now s = (Some True, s') \<and> tripped s' \<and> probing s'"
    and succeed_closes: "\<not> tripped (bo_succeed ops s) \<and> \<not> probing (bo_succeed ops s)"
    and fail_keeps: "tripped s \<Longrightarrow> \<not> p \<or> \<not> probing s \<Longrightarrow>
      tripped (bo_fail ops now raw p s) \<and> probing (bo_fail ops now raw p s) = probing s \<and>
      retry (bo_fail ops now raw p s) = retry s"
    and fail_probe: "tripped s \<Longrightarrow> p \<Longrightarrow> probing s \<Longrightarrow> \<not> probing (bo_fail ops now raw p s)"
    and fail_closed: "\<not> tripped s \<Longrightarrow> \<not> probing s \<Longrightarrow> \<not> probing (bo_fail ops now raw p s)"
begin

text \<open>The half-open slot is held only by a tripped breaker, and by a probe in flight.\<close>

definition slot_held :: "'s bstate \<Rightarrow> bool" where
  "slot_held st \<longleftrightarrow> probing (fst st) \<longrightarrow> tripped (fst st) \<and> True \<in> set (snd st)"

lemma step_slot_held:
  assumes "breaker_step ops st e st'" and "\<forall>p. e \<noteq> Abandon p" and "slot_held st"
  shows "slot_held st'"
  using assms
proof (cases rule: breaker_step.cases)
  case (granted now s p s' fl)
  with assms(3) show ?thesis
    using acquire_closed [of s now] acquire_refused [of s now] acquire_probe [of s now]
    by (cases "tripped s"; cases "now < retry s"; cases "probing s")
      (auto simp: slot_held_def)
next
  case (refused now s s' fl)
  with assms(3) show ?thesis
    using acquire_closed [of s now] acquire_refused [of s now] acquire_probe [of s now]
    by (cases "tripped s"; cases "now < retry s"; cases "probing s")
      (auto simp: slot_held_def)
next
  case (finish_ok p fl s)
  then show ?thesis using succeed_closes [of s] by (simp add: slot_held_def)
next
  case (finish_err p fl s now raw)
  show ?thesis
  proof (cases "tripped s")
    case True
    show ?thesis
    proof (cases "p \<and> probing s")
      case True
      with \<open>tripped s\<close> finish_err fail_probe show ?thesis by (simp add: slot_held_def)
    next
      case False
      with \<open>tripped s\<close> finish_err fail_keeps [of s p now raw] assms(3) True_notin_remove1 [of p fl]
      show ?thesis by (auto simp: slot_held_def)
    qed
  next
    case False
    with finish_err assms(3) fail_closed [of s now raw p] show ?thesis
      by (auto simp: slot_held_def)
  qed
qed (use assms(2) in simp_all)

lemma run_slot_held:
  assumes "breaker_run ops st es st'" and "no_abandon es" and "slot_held st"
  shows "slot_held st'"
  using assms(1,3)
proof (rule breaker_run_invariant [where P = slot_held])
  fix st e st'
  assume "e \<in> set es" and "breaker_step ops st e st'" and "slot_held st"
  moreover have "\<forall>p. e \<noteq> Abandon p"
    using \<open>e \<in> set es\<close> assms(2) by (auto simp: no_abandon_def)
  ultimately show "slot_held st'" by (blast intro: step_slot_held)
qed

text \<open>A breaker whose requests all report is never stuck: once nothing is in flight and its
  retry time has come, the next request is let through.\<close>

lemma quiescent_grants:
  assumes "breaker_run ops (s0, []) es (s, [])" and "no_abandon es" and "\<not> probing s0"
    and "retry s \<le> now"
  shows "\<exists>p s'. bo_acquire ops now s = (Some p, s')"
proof -
  have "slot_held (s0, [])" using assms(3) by (simp add: slot_held_def)
  with assms(1,2) have "slot_held (s, [])" by (rule run_slot_held)
  then have "\<not> probing s" by (simp add: slot_held_def)
  then show ?thesis
    using acquire_closed [of s now] acquire_probe [of s now] assms(4)
    by (meson not_less)
qed

text \<open>One reported success closes it.\<close>

lemma probe_recovers:
  assumes "tripped s" and "\<not> probing s" and "retry s \<le> now"
  shows "\<exists>s'. breaker_run ops (s, fl) [Begin now, FinishOk True] (s', fl) \<and> \<not> tripped s' \<and> \<not> probing s'"
proof -
  obtain s' where "bo_acquire ops now s = (Some True, s')"
    using acquire_probe [of s now] assms by auto
  then have "breaker_run ops (s, fl) [Begin now, FinishOk True] (bo_succeed ops s', fl)"
    using finish_ok [of True "True # fl" ops s'] by (auto intro!: run_Cons run_Nil granted)
  then show ?thesis using succeed_closes by blast
qed

text \<open>With a half-open slot that no request in flight holds, no request is ever let through
  again.\<close>

definition stuck :: "'s bstate \<Rightarrow> bool" where
  "stuck st \<longleftrightarrow> tripped (fst st) \<and> probing (fst st) \<and> snd st = []"

lemma stuck_refuses:
  assumes "stuck (s, fl)"
  shows "\<exists>s'. bo_acquire ops now s = (None, s') \<and> stuck (s', fl)"
  using assms acquire_refused [of s now] by (auto simp: stuck_def)

lemma step_stuck: "breaker_step ops st e st' \<Longrightarrow> stuck st \<Longrightarrow> stuck st'"
proof (induction rule: breaker_step.induct)
  case (granted now s p s' fl)
  then show ?case using stuck_refuses [of s fl now] by auto
next
  case (refused now s s' fl)
  then show ?case using stuck_refuses [of s fl now] by auto
qed (simp_all add: stuck_def)

lemma run_stuck: "breaker_run ops st es st' \<Longrightarrow> stuck st \<Longrightarrow> stuck st'"
  by (rule breaker_run_invariant) (auto intro: step_stuck)

text \<open>Before its retry time an open breaker lets nothing through, whatever the requests
  already in flight report as failures.\<close>

lemma open_refuses:
  "tripped s \<Longrightarrow> now < retry s \<Longrightarrow> \<exists>s'. bo_acquire ops now s = (None, s')"
  using acquire_refused by blast

end

end
