(* ===== verification/Prometheus.thy ===== *)
theory Prometheus
  imports GoErr
begin

text \<open>
  How the plugins register their metrics. The registry itself belongs to the Prometheus
  client: its verdict on a registration is an argument. What is modelled is what the code does
  with the verdicts: \<open>register_all\<close> is the loop over several collectors, and
  \<open>share_vector\<close> the idiom by which plugin instances share one counter vector.
\<close>

section \<open>Registering several collectors\<close>

text \<open>One by one; the names already registered stay registered when a later one fails.\<close>

fun register_all ::
  "(string list \<Rightarrow> string \<Rightarrow> goerr option) \<Rightarrow> string list \<Rightarrow> string list \<Rightarrow>
   goerr option \<times> string list" where
  "register_all reg held [] = (None, held)"
| "register_all reg held (m # ms) =
     (case reg held m of Some e \<Rightarrow> (Some e, held) | None \<Rightarrow> register_all reg (held @ [m]) ms)"

lemma register_all_ok: "register_all reg held ms = (None, held') \<Longrightarrow> held' = held @ ms"
  by (induction ms arbitrary: held) (fastforce split: option.splits)+

lemma register_all_held: "register_all reg held ms = (r, held') \<Longrightarrow> \<exists>k. held' = held @ take k ms"
proof (induction ms arbitrary: held)
  case (Cons m ms)
  show ?case
  proof (cases "reg held m")
    case None
    with Cons.prems Cons.IH [of "held @ [m]"] obtain k where "held' = (held @ [m]) @ take k ms" by auto
    then show ?thesis by (intro exI [of _ "Suc k"]) simp
  next
    case (Some e)
    with Cons.prems show ?thesis by (intro exI [of _ 0]) simp
  qed
qed simp

section \<open>Sharing a counter vector\<close>

text \<open>A vector is an address in the store of series; the store counts the increments of each
  label combination.\<close>

datatype existing_collector = ExistingCounterVec nat | ExistingOther

datatype register_verdict =
    Registered
  | AlreadyRegistered existing_collector
  | RegisterFailed goerr

type_synonym series = "nat \<Rightarrow> string list \<Rightarrow> nat"

definition series_inc :: "nat \<Rightarrow> string list \<Rightarrow> series \<Rightarrow> series" where
  "series_inc v labels m = m(v := (m v)(labels := m v labels + 1))"

lemma series_inc_apply [simp]:
  "series_inc v labels m w ls = m w ls + (if w = v \<and> ls = labels then 1 else 0)"
  by (simp add: series_inc_def)

end
