(* ===== verification/Circuit.thy ===== *)
theory Circuit
  imports Backoff Dns Breaker Prometheus
begin

text \<open>
  internal/circuitplugin/circuit.go: the AUTO_FORWARD circuit breaker and the plugin that
  guards the Mihomo upstream with it. Records: \<open>circuit\<close> (the struct, with its gauges,
  counters and log), \<open>plugin\<close> (the plugin's parameters), \<open>circuit_args\<close> (the YAML arguments).
  Operations: \<open>circuit_acquire\<close>, \<open>circuit_succeed\<close>, \<open>circuit_fail\<close> under the mutex;
  \<open>attemptOnce\<close>, the attempt loop and \<open>circuit_exec\<close> (method \<open>Exec\<close>); \<open>circuit_initPlugin\<close>.
  A gauge of seconds holds the duration; a log entry is a constructor of \<open>circuit_log\<close>.
\<close>

section \<open>The circuit\<close>

record permit =
  pm_probe :: bool

datatype circuit_log =
    LogRecovered string
  | LogBelowThreshold string int int
  | LogOpened string uint duration

record circuit =
  c_name :: string
  c_consecutiveFailures :: int
  c_backoffStep :: uint
  c_retryAt :: gotime
  c_probing :: bool
  c_failureThreshold :: int
  c_initialBackoff :: duration
  c_maxBackoff :: duration
  c_stateGauge :: nat
  c_backoffGauge :: duration
  c_failureCounter :: nat
  c_bypassCounter :: nat
  c_log :: "circuit_log list"
  c_jitter :: "nat \<Rightarrow> duration \<Rightarrow> duration \<Rightarrow> duration"

definition circuit_acquire :: "gotime \<Rightarrow> circuit \<Rightarrow> (permit \<times> bool) \<times> circuit" where
  "circuit_acquire now c =
     (if c_backoffStep c = 0 then ((\<lparr>pm_probe = False\<rparr>, True), c)
      else if now < c_retryAt c \<or> c_probing c then
        ((\<lparr>pm_probe = False\<rparr>, False), c\<lparr>c_bypassCounter := Suc (c_bypassCounter c)\<rparr>)
      else ((\<lparr>pm_probe = True\<rparr>, True),
        c\<lparr>c_probing := True, c_stateGauge := 2, c_backoffGauge := 0\<rparr>))"

definition circuit_succeed :: "circuit \<Rightarrow> circuit" where
  "circuit_succeed c =
     (let c1 = (if 0 < c_backoffStep c then c\<lparr>c_log := c_log c @ [LogRecovered (c_name c)]\<rparr> else c)
      in c1\<lparr>c_consecutiveFailures := 0, c_backoffStep := 0, c_retryAt := zero_time,
            c_probing := False, c_stateGauge := 0, c_backoffGauge := 0\<rparr>)"

text \<open>The tail of \<open>fail\<close>, reached once \<open>backoffStep\<close> has been set or incremented.\<close>

definition circuit_open :: "nat \<Rightarrow> gotime \<Rightarrow> circuit \<Rightarrow> circuit" where
  "circuit_open raw now c =
     (let nominal = exponentialDelay (c_initialBackoff c) (c_maxBackoff c) (c_backoffStep c);
          delay = c_jitter c raw nominal (c_maxBackoff c)
      in c\<lparr>c_probing := False, c_retryAt := now + delay, c_stateGauge := 1,
           c_backoffGauge := delay,
           c_log := c_log c @ [LogOpened (c_name c) (c_backoffStep c) delay]\<rparr>)"

definition circuit_fail :: "nat \<Rightarrow> gotime \<Rightarrow> permit \<Rightarrow> circuit \<Rightarrow> circuit" where
  "circuit_fail raw now p c0 =
     (let c = c0\<lparr>c_failureCounter := Suc (c_failureCounter c0)\<rparr> in
      if c_backoffStep c = 0 then
        (if pm_probe p then c
         else let c1 = c\<lparr>c_consecutiveFailures := wrap64 (c_consecutiveFailures c + 1)\<rparr> in
           if c_consecutiveFailures c1 < c_failureThreshold c1
           then c1\<lparr>c_log := c_log c1 @
             [LogBelowThreshold (c_name c1) (c_consecutiveFailures c1) (c_failureThreshold c1)]\<rparr>
           else circuit_open raw now (c1\<lparr>c_backoffStep := 1\<rparr>))
      else if \<not> pm_probe p \<or> \<not> c_probing c then c
      else circuit_open raw now (c\<lparr>c_backoffStep := c_backoffStep c + 1\<rparr>))"

section \<open>One attempt\<close>

text \<open>
  A run of the primary executable on a private copy of the query context: how long it takes
  (\<open>None\<close>: it never returns), the last \<open>SetResponse\<close> it makes (\<open>None\<close>: it makes none, and
  the copy keeps the response of the caller's context) and the error it returns.
\<close>

record primary_run =
  pr_elapsed :: "nat option"
  pr_setResponse :: "dnsmsg option option"
  pr_err :: "goerr option"

definition attempt_response :: "dnsmsg option \<Rightarrow> primary_run \<Rightarrow> dnsmsg option" where
  "attempt_response q run = (case pr_setResponse run of None \<Rightarrow> q | Some r \<Rightarrow> r)"

datatype select_case = CaseResult | CaseTimer | CaseDone

text \<open>The cases of the \<open>select\<close> statement with the instants at which they become ready. The
  \<open>select\<close> takes a case ready at the earliest of them, any one when several are.\<close>

definition attempt_cases :: "goctx \<Rightarrow> duration \<Rightarrow> primary_run \<Rightarrow> gotime \<Rightarrow> (gotime \<times> select_case) list" where
  "attempt_cases ctx timeout run t0 =
     (case pr_elapsed run of None \<Rightarrow> [] | Some d \<Rightarrow> [(t0 + int d, CaseResult)]) @
     [(t0 + max 0 timeout, CaseTimer)] @
     (case done_at ctx of None \<Rightarrow> [] | Some t \<Rightarrow> [(max t0 t, CaseDone)])"

definition select_ready :: "nat \<Rightarrow> (gotime \<times> select_case) list \<Rightarrow> gotime \<times> select_case" where
  "select_ready tie cands =
     (let t = Min (set (map fst cands));
          ready = filter (\<lambda>(u, _). u = t) cands
      in ready ! (tie mod length ready))"

definition errCircuitOpen :: goerr where
  "errCircuitOpen = ErrNew ''AUTO_FORWARD circuit is open''"

definition errNoResponse :: goerr where
  "errNoResponse = ErrNew ''AUTO_FORWARD upstream returned no response''"

definition errAttemptTimeout :: goerr where
  "errAttemptTimeout = ErrNew ''AUTO_FORWARD upstream attempt timed out''"

definition attemptOnce ::
  "goctx \<Rightarrow> dnsmsg option \<Rightarrow> duration \<Rightarrow> nat \<Rightarrow> primary_run \<Rightarrow> gotime \<Rightarrow>
   (dnsmsg option \<times> goerr option) \<times> gotime" where
  "attemptOnce ctx q timeout tie run t0 =
     (case select_ready tie (attempt_cases ctx timeout run t0) of (t, sel) \<Rightarrow>
        ((case sel of
            CaseResult \<Rightarrow> (attempt_response q run, pr_err run)
          | CaseTimer \<Rightarrow> (None, Some errAttemptTimeout)
          | CaseDone \<Rightarrow> (None, Some (done_cause ctx))), t))"

section \<open>The plugin\<close>

record plugin =
  pl_attempts :: int
  pl_attemptTimeout :: duration
  pl_failureRCodes :: "int set"

text \<open>How the attempt loop ends: a usable response, a context that is done, or the last error.\<close>

datatype attempts_result =
    Replied dnsmsg
  | Cancelled
  | Exhausted "goerr option"

text \<open>\<open>rcodeToString\<close> is the table of package miekg/dns; \<open>q\<close> is the response in the
  caller's context; \<open>runs k\<close> and \<open>ties k\<close> are the
  primary's run and the choice of the \<open>select\<close> in attempt \<open>k\<close>.\<close>

fun exec_attempts ::
  "plugin \<Rightarrow> (int \<Rightarrow> string) \<Rightarrow> goctx \<Rightarrow> dnsmsg option \<Rightarrow> (nat \<Rightarrow> primary_run) \<Rightarrow> (nat \<Rightarrow> nat) \<Rightarrow> nat \<Rightarrow> nat \<Rightarrow>
   goerr option \<Rightarrow> gotime \<Rightarrow> attempts_result \<times> gotime" where
  "exec_attempts P rcodeToString ctx q runs ties k 0 err t = (Exhausted err, t)"
| "exec_attempts P rcodeToString ctx q runs ties k (Suc n) err t =
     (case attemptOnce ctx q (pl_attemptTimeout P) (ties k) (runs k) t of ((response, err'), t') \<Rightarrow>
        (case (err', response) of
           (None, Some m) \<Rightarrow>
             if msg_rcode m \<notin> pl_failureRCodes P then (Replied m, t')
             else (Exhausted (Some (ErrNew (''upstream DNS rcode '' @ rcodeToString (msg_rcode m)))), t')
         | _ \<Rightarrow>
             if ctx_err ctx t' \<noteq> None then (Cancelled, t')
             else exec_attempts P rcodeToString ctx q runs ties (Suc k) n
               (if err' = None then Some errNoResponse else err') t'))"

definition exec_attempt_count :: "plugin \<Rightarrow> nat" where
  "exec_attempt_count P = (if pl_attempts P \<le> 0 then 1 else nat (pl_attempts P))"

text \<open>The result of \<open>Exec\<close>: the returned error, the response left in the query context, the
  circuit and the instant of the return.\<close>

record exec_result =
  ex_err :: "goerr option"
  ex_resp :: "dnsmsg option"
  ex_circuit :: circuit
  ex_time :: gotime

definition circuit_exec ::
  "plugin \<Rightarrow> (int \<Rightarrow> string) \<Rightarrow> goctx \<Rightarrow> dnsmsg option \<Rightarrow> (nat \<Rightarrow> primary_run) \<Rightarrow> (nat \<Rightarrow> nat) \<Rightarrow> nat \<Rightarrow> gotime \<Rightarrow>
   circuit \<Rightarrow> exec_result" where
  "circuit_exec P rcodeToString ctx q runs ties raw now c =
     (case circuit_acquire now c of ((permit, allowed), c1) \<Rightarrow>
        if \<not> allowed then
          \<lparr>ex_err = Some errCircuitOpen, ex_resp = None, ex_circuit = c1, ex_time = now\<rparr>
        else
          (case exec_attempts P rcodeToString ctx q runs ties 0 (exec_attempt_count P) None now of
             (Replied m, t) \<Rightarrow>
               \<lparr>ex_err = None, ex_resp = Some m, ex_circuit = circuit_succeed c1, ex_time = t\<rparr>
           | (Cancelled, t) \<Rightarrow>
               \<lparr>ex_err = Some (done_cause ctx), ex_resp = None, ex_circuit = c1, ex_time = t\<rparr>
           | (Exhausted err, t) \<Rightarrow>
               \<lparr>ex_err = err, ex_resp = None, ex_circuit = circuit_fail raw t permit c1, ex_time = t\<rparr>))"

section \<open>Construction\<close>

record circuit_args =
  a_primary :: string
  a_failureThreshold :: int
  a_attempts :: int
  a_attemptTimeoutMillis :: int
  a_initialBackoffMillis :: int
  a_maxBackoffMillis :: int
  a_failureRCodes :: "int list"

datatype circuit_init_error = PrimaryNotFound string | RegisterMetrics goerr

definition circuit_metrics :: "string list" where
  "circuit_metrics =
     [''veladns_circuit_state'', ''veladns_circuit_backoff_seconds'',
      ''veladns_circuit_failures_total'', ''veladns_circuit_bypass_total'']"

definition circuit_initPlugin ::
  "string \<Rightarrow> (string \<Rightarrow> bool) \<Rightarrow> (string list \<Rightarrow> string \<Rightarrow> goerr option) \<Rightarrow> string list \<Rightarrow>
   circuit_args \<Rightarrow> (circuit_init_error + plugin \<times> circuit) \<times> string list" where
  "circuit_initPlugin tag executable reg held args =
     (if \<not> executable (a_primary args) then (Inl (PrimaryNotFound (a_primary args)), held)
      else
        let threshold = (if a_failureThreshold args \<le> 0 then 2 else a_failureThreshold args);
            attempts = (if a_attempts args \<le> 0 then 1 else a_attempts args);
            timeout0 = wrap64 (a_attemptTimeoutMillis args * millisecond);
            attemptTimeout = (if timeout0 \<le> 0 then second else timeout0);
            initial0 = wrap64 (a_initialBackoffMillis args * millisecond);
            initial = (if initial0 \<le> 0 then second else initial0);
            maximum0 = wrap64 (a_maxBackoffMillis args * millisecond);
            maximum = (if maximum0 < initial then 5 * minute else maximum0)
        in (case register_all reg held circuit_metrics of
              (Some e, held') \<Rightarrow> (Inl (RegisterMetrics e), held')
            | (None, held') \<Rightarrow>
                (Inr (\<lparr>pl_attempts = attempts, pl_attemptTimeout = attemptTimeout,
                       pl_failureRCodes = set (a_failureRCodes args)\<rparr>,
                      \<lparr>c_name = tag, c_consecutiveFailures = 0, c_backoffStep = 0,
                       c_retryAt = zero_time, c_probing = False, c_failureThreshold = threshold,
                       c_initialBackoff = initial, c_maxBackoff = maximum, c_stateGauge = 0,
                       c_backoffGauge = 0, c_failureCounter = 0, c_bypassCounter = 0,
                       c_log = [], c_jitter = jitterDelay\<rparr>), held')))"

text \<open>\<open>Close\<close> unregisters the plugin's four collectors.\<close>

definition circuit_close :: "string list \<Rightarrow> string list" where
  "circuit_close held = filter (\<lambda>m. m \<notin> set circuit_metrics) held"

section \<open>The circuit is a breaker\<close>

definition circuit_tripped :: "circuit \<Rightarrow> bool" where
  "circuit_tripped c \<longleftrightarrow> c_backoffStep c \<noteq> 0"

definition circuit_ops :: "circuit breaker_ops" where
  "circuit_ops =
     \<lparr>bo_acquire = (\<lambda>now c. case circuit_acquire now c of ((p, allowed), c') \<Rightarrow>
         (if allowed then Some (pm_probe p) else None, c')),
      bo_succeed = circuit_succeed,
      bo_fail = (\<lambda>now raw p c. circuit_fail raw now \<lparr>pm_probe = p\<rparr> c)\<rparr>"

lemmas circuit_defs = circuit_acquire_def circuit_succeed_def circuit_fail_def circuit_open_def

interpretation cb: breaker circuit_ops circuit_tripped c_probing c_retryAt
  by unfold_locales
    (auto simp: circuit_ops_def circuit_tripped_def circuit_defs Let_def)

lemma circuit_acquire_closed:
  "\<not> circuit_tripped c \<Longrightarrow> circuit_acquire now c = ((\<lparr>pm_probe = False\<rparr>, True), c)"
  by (simp add: circuit_acquire_def circuit_tripped_def)

end
