(* ===== verification/CircuitSafety.thy ===== *)
theory CircuitSafety
  imports Circuit
begin

text \<open>
  What the AUTO_FORWARD circuit guarantees: the outcome and the latency of \<open>Exec\<close>, the state
  machine the circuit implements, the failure threshold under concurrent requests, recovery,
  the range of the retry time, and the request that leaves the circuit half-open for ever.
\<close>

section \<open>The deployed configuration\<close>

text \<open>The arguments in config/foreign-mihomo.yaml.tmpl, and what \<open>initPlugin\<close> makes of them.\<close>

definition deployed_args :: circuit_args where
  "deployed_args =
     \<lparr>a_primary = ''forward_auto_raw'', a_failureThreshold = 5, a_attempts = 2,
      a_attemptTimeoutMillis = 800, a_initialBackoffMillis = 1000, a_maxBackoffMillis = 30000,
      a_failureRCodes = [2, 5]\<rparr>"

definition deployed_plugin :: plugin where
  "deployed_plugin =
     \<lparr>pl_attempts = 2, pl_attemptTimeout = 800 * millisecond, pl_failureRCodes = {2, 5}\<rparr>"

definition deployed_circuit :: circuit where
  "deployed_circuit =
     \<lparr>c_name = ''auto_forward_circuit'', c_consecutiveFailures = 0, c_backoffStep = 0,
      c_retryAt = zero_time, c_probing = False, c_failureThreshold = 5,
      c_initialBackoff = second, c_maxBackoff = 30 * second, c_stateGauge = 0,
      c_backoffGauge = 0, c_failureCounter = 0, c_bypassCounter = 0,
      c_log = [], c_jitter = jitterDelay\<rparr>"

lemma deployed_init:
  "circuit_initPlugin ''auto_forward_circuit'' (\<lambda>_. True) (\<lambda>_ _. None) [] deployed_args =
     (Inr (deployed_plugin, deployed_circuit), circuit_metrics)"
  by (simp add: circuit_initPlugin_def deployed_args_def deployed_plugin_def deployed_circuit_def
      circuit_metrics_def Let_def)

text \<open>Inputs of the witnesses: a context that is never done, one whose client leaves, a
  primary that answers and one that hangs.\<close>

definition ctx_forever :: goctx where
  "ctx_forever = \<lparr>done_at = None, done_err = CtxCanceled, done_cause = CtxCanceled\<rparr>"

definition ctx_left :: "gotime \<Rightarrow> goctx" where
  "ctx_left t = \<lparr>done_at = Some t, done_err = CtxCanceled, done_cause = CtxCanceled\<rparr>"

definition sample_answer :: dnsmsg where
  "sample_answer = \<lparr>msg_id = 7, msg_response = True, msg_rcode = 0, msg_question = [''a.''],
     msg_answer = [\<lparr>rr_type = TypeA, rr_a = Some ''198.18.0.1''\<rparr>]\<rparr>"

definition run_answers :: primary_run where
  "run_answers = \<lparr>pr_elapsed = Some 5, pr_setResponse = Some (Some sample_answer), pr_err = None\<rparr>"

definition run_hangs :: primary_run where
  "run_hangs = \<lparr>pr_elapsed = None, pr_setResponse = None, pr_err = None\<rparr>"

definition opened_circuit :: circuit where
  "opened_circuit = deployed_circuit\<lparr>c_consecutiveFailures := 5, c_backoffStep := 1,
     c_retryAt := 10, c_stateGauge := 1\<rparr>"

lemmas sample_defs = deployed_plugin_def deployed_circuit_def ctx_forever_def ctx_left_def
  sample_answer_def run_answers_def run_hangs_def opened_circuit_def

section \<open>One attempt\<close>

lemma select_ready_earliest:
  assumes "cands \<noteq> []"
  shows "select_ready tie cands \<in> set cands"
    and "\<forall>x\<in>set cands. fst (select_ready tie cands) \<le> fst x"
proof -
  define t where "t = Min (set (map fst cands))"
  define ready where "ready = filter (\<lambda>(u, _). u = t) cands"
  have "t \<in> set (map fst cands)" using assms by (auto simp: t_def intro!: Min_in)
  then have "ready \<noteq> []" by (auto simp: ready_def filter_empty_conv)
  then have "ready ! (tie mod length ready) \<in> set ready" by simp
  then have "select_ready tie cands \<in> set ready"
    unfolding select_ready_def t_def ready_def Let_def .
  then have "select_ready tie cands \<in> set cands" and t: "fst (select_ready tie cands) = t"
    by (auto simp: ready_def)
  moreover have "t \<le> fst x" if "x \<in> set cands" for x
    unfolding t_def using that by (intro Min_le) simp_all
  ultimately show "select_ready tie cands \<in> set cands"
    and "\<forall>x\<in>set cands. fst (select_ready tie cands) \<le> fst x" by simp_all
qed

lemma attempt_cases_timer: "(t0 + max 0 timeout, CaseTimer) \<in> set (attempt_cases ctx timeout run t0)"
  by (simp add: attempt_cases_def)

lemma attempt_cases_after: "x \<in> set (attempt_cases ctx timeout run t0) \<Longrightarrow> t0 \<le> fst x"
  by (auto simp: attempt_cases_def split: option.splits)

lemma attemptOnce_time:
  assumes "attemptOnce ctx q timeout tie run t0 = (r, t)"
  shows "t0 \<le> t" and "t \<le> t0 + max 0 timeout"
proof -
  let ?cands = "attempt_cases ctx timeout run t0"
  have "?cands \<noteq> []" using attempt_cases_timer [of t0 timeout ctx run] by auto
  note sel = select_ready_earliest [OF this, of tie]
  have "t = fst (select_ready tie ?cands)"
    using assms by (simp add: attemptOnce_def split: prod.splits)
  then show "t0 \<le> t" and "t \<le> t0 + max 0 timeout"
    using sel(1) bspec [OF sel(2) attempt_cases_timer] attempt_cases_after by auto
qed

text \<open>A primary that returns before the timer and before the context ends the attempt with
  its own result.\<close>

lemma attemptOnce_result:
  assumes "pr_elapsed run = Some d" and "int d < timeout" and "\<not> ctx_done ctx (t0 + int d)"
  shows "attemptOnce ctx q timeout tie run t0 = ((attempt_response q run, pr_err run), t0 + int d)"
proof -
  let ?cands = "attempt_cases ctx timeout run t0"
  have "?cands \<noteq> []" using attempt_cases_timer [of t0 timeout ctx run] by auto
  note sel = select_ready_earliest [OF this, of tie]
  have "(t0 + int d, CaseResult) \<in> set ?cands"
    using assms(1) by (simp add: attempt_cases_def)
  with sel have "select_ready tie ?cands \<in> set ?cands"
    and "fst (select_ready tie ?cands) \<le> t0 + int d" by force+
  then have "select_ready tie ?cands = (t0 + int d, CaseResult)"
    using assms by (auto simp: attempt_cases_def ctx_done_def split: option.splits)
  then show ?thesis by (simp add: attemptOnce_def)
qed

section \<open>The attempt loop\<close>

lemma exec_attempts_time:
  "exec_attempts P rcodes ctx q runs ties k n err t = (res, t') \<Longrightarrow>
   t \<le> t' \<and> t' \<le> t + int n * max 0 (pl_attemptTimeout P)"
proof (induction P rcodes ctx q runs ties k n err t rule: exec_attempts.induct)
  case (2 P rcodes ctx q runs ties k n err t)
  obtain response err' u where att:
    "attemptOnce ctx q (pl_attemptTimeout P) (ties k) (runs k) t = ((response, err'), u)"
    by (metis prod.exhaust)
  note time = attemptOnce_time [OF att]
  have pos: "0 \<le> int n * max 0 (pl_attemptTimeout P)" by simp
  have dist: "int (Suc n) * max 0 (pl_attemptTimeout P) =
      max 0 (pl_attemptTimeout P) + int n * max 0 (pl_attemptTimeout P)"
    by (simp add: distrib_right)
  show ?case
  proof (cases "t' = u")
    case True
    with time pos show ?thesis unfolding dist by linarith
  next
    case False
    with "2.prems" att have "exec_attempts P rcodes ctx q runs ties (Suc k) n
        (if err' = None then Some errNoResponse else err') u = (res, t')"
      by (auto split: option.splits if_splits)
    then have "u \<le> t' \<and> t' \<le> u + int n * max 0 (pl_attemptTimeout P)"
      using "2.IH" [OF att [symmetric] refl] False "2.prems" att
      by (auto split: option.splits if_splits)
    with time show ?thesis unfolding dist by linarith
  qed
qed simp

lemma exec_attempts_outcome:
  "exec_attempts P rcodes ctx q runs ties k n err t = (res, t') \<Longrightarrow>
   (case res of
      Replied m \<Rightarrow> msg_rcode m \<notin> pl_failureRCodes P
    | Cancelled \<Rightarrow> ctx_done ctx t'
    | Exhausted e \<Rightarrow> 0 < n \<or> err \<noteq> None \<longrightarrow> e \<noteq> None)"
proof (induction P rcodes ctx q runs ties k n err t rule: exec_attempts.induct)
  case (2 P rcodes ctx q runs ties k n err t)
  obtain response err' u where att:
    "attemptOnce ctx q (pl_attemptTimeout P) (ties k) (runs k) t = ((response, err'), u)"
    by (metis prod.exhaust)
  show ?case
    using "2.prems" "2.IH" [OF att [symmetric] refl] att
    by (auto split: option.splits if_splits attempts_result.splits)
qed (auto split: attempts_result.splits)

section \<open>Exec\<close>

text \<open>C1. \<open>Exec\<close> fails closed: it leaves a response in the query context exactly when it
  reports no error, and that response never carries a failure code. Every other path (an open
  circuit, a cancelled query, an exhausted upstream) clears the response, so an address the
  context held before is not handed out in place of a fake IP.\<close>

theorem exec_fail_closed:
  "(case circuit_exec P rcodes ctx q runs ties raw now c of r \<Rightarrow>
     (case ex_resp r of
        None \<Rightarrow> ex_err r \<noteq> None
      | Some m \<Rightarrow> ex_err r = None \<and> msg_rcode m \<notin> pl_failureRCodes P))"
proof -
  have n: "0 < exec_attempt_count P" by (simp add: exec_attempt_count_def)
  obtain res t where "exec_attempts P rcodes ctx q runs ties 0 (exec_attempt_count P) None now = (res, t)"
    by fastforce
  with exec_attempts_outcome [OF this] n show ?thesis
    by (auto simp: circuit_exec_def split: prod.splits attempts_result.splits option.splits)
qed

text \<open>C27. \<open>Exec\<close> returns within its budget, the number of attempts times the timeout of one,
  whatever the primary does, even when it never returns.\<close>

theorem exec_budget:
  "now \<le> ex_time (circuit_exec P rcodes ctx q runs ties raw now c) \<and>
   ex_time (circuit_exec P rcodes ctx q runs ties raw now c)
     \<le> now + int (exec_attempt_count P) * max 0 (pl_attemptTimeout P)"
proof -
  obtain res t where "exec_attempts P rcodes ctx q runs ties 0 (exec_attempt_count P) None now = (res, t)"
    by fastforce
  with exec_attempts_time [OF this] show ?thesis
    by (auto simp: circuit_exec_def split: prod.splits attempts_result.splits)
qed

section \<open>Recovery\<close>

text \<open>A usable answer of the first attempt.\<close>

definition answers_first :: "plugin \<Rightarrow> goctx \<Rightarrow> gotime \<Rightarrow> primary_run \<Rightarrow> dnsmsg \<Rightarrow> bool" where
  "answers_first P ctx now run m \<longleftrightarrow>
     pr_err run = None \<and> pr_setResponse run = Some (Some m) \<and> msg_rcode m \<notin> pl_failureRCodes P \<and>
     (case pr_elapsed run of None \<Rightarrow> False
      | Some d \<Rightarrow> int d < pl_attemptTimeout P \<and> \<not> ctx_done ctx (now + int d))"

lemma exec_attempts_answers_first:
  assumes "answers_first P ctx now (runs 0) m"
  shows "\<exists>t. exec_attempts P rcodes ctx q runs ties 0 (exec_attempt_count P) None now = (Replied m, t)"
proof -
  obtain d where d: "pr_elapsed (runs 0) = Some d" "int d < pl_attemptTimeout P"
    "\<not> ctx_done ctx (now + int d)"
    using assms by (auto simp: answers_first_def split: option.splits)
  obtain n where n: "exec_attempt_count P = Suc n"
    by (metis Suc_pred' exec_attempt_count_def nat_0_iff not_gr_zero zero_less_one)
  show ?thesis
    using attemptOnce_result [OF d, of q "ties 0"] assms
    by (simp add: n answers_first_def attempt_response_def)
qed

text \<open>C11. Once its retry time has come, one usable answer closes an open circuit completely:
  the probe's client gets the answer, and the failure count, the backoff, the half-open slot
  and the gauges are back at their initial values.\<close>

theorem probe_recovers_circuit:
  assumes "c_backoffStep c \<noteq> 0" and "\<not> c_probing c" and "c_retryAt c \<le> now"
    and "answers_first P ctx now (runs 0) m"
  shows "(case circuit_exec P rcodes ctx q runs ties raw now c of r \<Rightarrow>
     ex_err r = None \<and> ex_resp r = Some m \<and> c_backoffStep (ex_circuit r) = 0 \<and>
     c_consecutiveFailures (ex_circuit r) = 0 \<and> c_retryAt (ex_circuit r) = zero_time \<and>
     \<not> c_probing (ex_circuit r) \<and> c_stateGauge (ex_circuit r) = 0 \<and>
     c_backoffGauge (ex_circuit r) = 0)"
proof -
  obtain t where "exec_attempts P rcodes ctx q runs ties 0 (exec_attempt_count P) None now = (Replied m, t)"
    using exec_attempts_answers_first [of P ctx now runs m rcodes q ties] assms(4) by blast
  with assms(1-3) show ?thesis
    by (simp add: circuit_exec_def circuit_acquire_def circuit_succeed_def Let_def)
qed

theorem probe_recovers_circuit_witness:
  "ex_resp (circuit_exec deployed_plugin (\<lambda>_. []) ctx_forever None (\<lambda>_. run_answers) (\<lambda>_. 0) 0 20
     opened_circuit) = Some sample_answer"
  using probe_recovers_circuit [of opened_circuit 20 deployed_plugin ctx_forever "\<lambda>_. run_answers"
      sample_answer "\<lambda>_. []" None "\<lambda>_. 0" 0]
  by (simp add: sample_defs answers_first_def ctx_done_def)

section \<open>The state machine\<close>

text \<open>The circuit as its documentation describes it: closed with a count of consecutive
  failures, open until a retry time, or half-open with one probe under way; the number is the
  backoff step.\<close>

datatype cb_state =
    Closed int
  | Open nat gotime
  | HalfOpen nat

definition cb_abs :: "circuit \<Rightarrow> cb_state" where
  "cb_abs c =
     (if c_backoffStep c = 0 then Closed (c_consecutiveFailures c)
      else if c_probing c then HalfOpen (unat (c_backoffStep c))
      else Open (unat (c_backoffStep c)) (c_retryAt c))"

fun spec_acquire :: "gotime \<Rightarrow> cb_state \<Rightarrow> bool option \<times> cb_state" where
  "spec_acquire now (Closed n) = (Some False, Closed n)"
| "spec_acquire now (Open k t) = (if now < t then (None, Open k t) else (Some True, HalfOpen k))"
| "spec_acquire now (HalfOpen k) = (None, HalfOpen k)"

fun spec_fail :: "int \<Rightarrow> (nat \<Rightarrow> gotime) \<Rightarrow> bool \<Rightarrow> cb_state \<Rightarrow> cb_state" where
  "spec_fail threshold retry p (Closed n) =
     (if p then Closed n
      else if n + 1 < threshold then Closed (n + 1)
      else Open 1 (retry 1))"
| "spec_fail threshold retry p (Open k t) = Open k t"
| "spec_fail threshold retry p (HalfOpen k) = (if p then Open (k + 1) (retry (k + 1)) else HalfOpen k)"

definition circuit_retry :: "circuit \<Rightarrow> nat \<Rightarrow> gotime \<Rightarrow> nat \<Rightarrow> gotime" where
  "circuit_retry c raw now k =
     now + c_jitter c raw (exponentialDelay (c_initialBackoff c) (c_maxBackoff c) (of_nat k)) (c_maxBackoff c)"

text \<open>C5. The circuit implements the three-state machine: every operation, on every branch,
  does to the state what the specification says, up to the overflow of the 64-bit backoff
  step.\<close>

theorem circuit_refines_spec:
  assumes "c_backoffStep c \<noteq> - 1" and "c_consecutiveFailures c < 2 ^ 63 - 1"
    and "0 \<le> c_consecutiveFailures c"
  shows "(case circuit_acquire now c of ((p, allowed), c') \<Rightarrow>
           ((if allowed then Some (pm_probe p) else None), cb_abs c')) = spec_acquire now (cb_abs c) \<and>
     cb_abs (circuit_succeed c) = Closed 0 \<and>
     cb_abs (circuit_fail raw now p c) =
       spec_fail (c_failureThreshold c) (circuit_retry c raw now) (pm_probe p) (cb_abs c)"
proof (intro conjI)
  show "(case circuit_acquire now c of ((p, allowed), c') \<Rightarrow>
           ((if allowed then Some (pm_probe p) else None), cb_abs c')) = spec_acquire now (cb_abs c)"
    by (simp add: circuit_acquire_def cb_abs_def)
  show "cb_abs (circuit_succeed c) = Closed 0"
    by (simp add: circuit_succeed_def cb_abs_def Let_def)
  have "c_backoffStep c + 1 \<noteq> 0" using assms(1) by (metis eq_neg_iff_add_eq_0)
  moreover have "(of_nat (unat (c_backoffStep c + 1)) :: uint) = c_backoffStep c + 1" by simp
  ultimately show "cb_abs (circuit_fail raw now p c) =
      spec_fail (c_failureThreshold c) (circuit_retry c raw now) (pm_probe p) (cb_abs c)"
    using assms unat_plus_1 [of "c_backoffStep c"]
    by (simp add: circuit_fail_def circuit_open_def cb_abs_def circuit_retry_def Let_def
        add.commute [of "c_backoffStep c" 1])
qed

theorem circuit_refines_spec_witness:
  "cb_abs (circuit_fail 0 9 \<lparr>pm_probe = False\<rparr> deployed_circuit) = Closed 1"
  using circuit_refines_spec [of deployed_circuit 9 0 "\<lparr>pm_probe = False\<rparr>"]
  by (simp add: deployed_circuit_def cb_abs_def)

section \<open>The failure threshold\<close>

definition is_failure :: "bevent \<Rightarrow> bool" where
  "is_failure e \<longleftrightarrow> (case e of FinishErr p now raw \<Rightarrow> True | _ \<Rightarrow> False)"

definition failures :: "bevent list \<Rightarrow> nat" where
  "failures es = length (filter is_failure es)"

definition no_success :: "bevent list \<Rightarrow> bool" where
  "no_success es \<longleftrightarrow> (\<forall>p. FinishOk p \<notin> set es)"

lemma failures_simps [simp]:
  "failures [] = 0"
  "failures (Begin now # es) = failures es"
  "failures (FinishOk p # es) = failures es"
  "failures (FinishErr p now raw # es) = Suc (failures es)"
  "failures (Abandon p # es) = failures es"
  by (simp_all add: failures_def is_failure_def)

text \<open>After \<open>k\<close> failures: closed with the count at \<open>k\<close> and ordinary permits only, or just
  opened.\<close>

definition counting :: "int \<Rightarrow> nat \<Rightarrow> circuit bstate \<Rightarrow> bool" where
  "counting thr k st \<longleftrightarrow>
     c_failureThreshold (fst st) = thr \<and>
     (if int k < thr
      then c_backoffStep (fst st) = 0 \<and> c_consecutiveFailures (fst st) = int k \<and> True \<notin> set (snd st)
      else c_backoffStep (fst st) = 1)"

lemma circuit_ops_simps [simp]:
  "bo_acquire circuit_ops now c =
     (case circuit_acquire now c of ((p, allowed), c') \<Rightarrow> (if allowed then Some (pm_probe p) else None, c'))"
  "bo_succeed circuit_ops = circuit_succeed"
  "bo_fail circuit_ops now raw p c = circuit_fail raw now \<lparr>pm_probe = p\<rparr> c"
  by (simp_all add: circuit_ops_def)

lemma counting_step:
  assumes "breaker_step circuit_ops st e st'" and "counting thr k st" and "\<forall>p. e \<noteq> FinishOk p"
    and "int (k + failures [e]) \<le> thr" and "thr < 2 ^ 63"
  shows "counting thr (k + failures [e]) st'"
  using assms
proof (cases rule: breaker_step.cases)
  case (granted now s p s' fl)
  with assms(2) show ?thesis
    by (auto simp: counting_def circuit_acquire_def split: if_splits)
next
  case (refused now s s' fl)
  with assms(2) show ?thesis
    by (auto simp: counting_def circuit_acquire_def split: if_splits)
next
  case (finish_err p fl s now raw)
  with assms(2,4) have "int k < thr" and "\<not> p" and c: "c_backoffStep s = 0"
    "c_consecutiveFailures s = int k" "c_failureThreshold s = thr" "True \<notin> set fl"
    by (auto simp: counting_def split: if_splits)
  then have "wrap64 (c_consecutiveFailures s + 1) = int (Suc k)" using assms(5) by simp
  moreover have "True \<notin> set (remove1 p fl)" using c(4) by (meson notin_set_remove1)
  ultimately show ?thesis using finish_err c \<open>\<not> p\<close>
    by (auto simp: counting_def circuit_fail_def circuit_open_def Let_def)
next
  case (abandon p fl s)
  with assms(2) show ?thesis
    by (auto simp: counting_def dest: notin_set_remove1 split: if_splits)
qed auto

lemma counting_run:
  "breaker_run circuit_ops st es st' \<Longrightarrow> counting thr k st \<Longrightarrow> no_success es \<Longrightarrow>
   int (k + failures es) \<le> thr \<Longrightarrow> thr < 2 ^ 63 \<Longrightarrow> counting thr (k + failures es) st'"
proof (induction arbitrary: k rule: breaker_run.induct)
  case (run_Cons st e st' es st'')
  have split: "failures (e # es) = failures [e] + failures es"
    by (simp add: failures_def)
  have "counting thr (k + failures [e]) st'"
    using run_Cons.hyps(1) run_Cons.prems split
    by (intro counting_step) (auto simp: no_success_def)
  then show ?case
    using run_Cons.IH [of "k + failures [e]"] run_Cons.prems split
    by (auto simp: no_success_def add.assoc)
qed simp

text \<open>Requests fail concurrently, in any interleaving, and none succeeds. A fresh circuit
  stays closed and counts them while fewer have failed than the threshold, and is open at
  the one that reaches it.\<close>

theorem circuit_opens_at_threshold:
  assumes "breaker_run circuit_ops (c0, []) es (c, fl)" and "no_success es"
    and "c_backoffStep c0 = 0" and "c_consecutiveFailures c0 = 0"
    and "0 < c_failureThreshold c0" and "c_failureThreshold c0 < 2 ^ 63"
    and "int (failures es) \<le> c_failureThreshold c0"
  shows "(if int (failures es) < c_failureThreshold c0
          then \<not> circuit_tripped c \<and> c_consecutiveFailures c = int (failures es)
          else circuit_tripped c)"
proof -
  have "counting (c_failureThreshold c0) 0 (c0, [])"
    using assms by (simp add: counting_def)
  then have "counting (c_failureThreshold c0) (0 + failures es) (c, fl)"
    using assms by (intro counting_run [OF assms(1)]) simp_all
  then show ?thesis by (auto simp: counting_def circuit_tripped_def)
qed

theorem circuit_opens_at_threshold_witness:
  "\<exists>c fl. breaker_run circuit_ops (deployed_circuit\<lparr>c_failureThreshold := 2\<rparr>, [])
     [Begin 1, Begin 2, FinishErr False 3 0, FinishErr False 4 0] (c, fl) \<and> circuit_tripped c"
proof -
  let ?es = "[Begin 1, Begin 2, FinishErr False 3 0, FinishErr False 4 0]"
  obtain c fl where "brun_exec circuit_ops ?es (deployed_circuit\<lparr>c_failureThreshold := 2\<rparr>, []) = Some (c, fl)"
    by (simp add: circuit_acquire_def deployed_circuit_def)
  then have run: "breaker_run circuit_ops (deployed_circuit\<lparr>c_failureThreshold := 2\<rparr>, []) ?es (c, fl)"
    by (rule brun_exec_sound)
  show ?thesis
    using circuit_opens_at_threshold [OF run] run
    by (auto simp: no_success_def deployed_circuit_def)
qed

section \<open>The retry time and the gauges\<close>

text \<open>The invariant of a circuit built by \<open>initPlugin\<close>, after at most \<open>n\<close> operations, none
  of them later than \<open>T\<close>.\<close>

definition circuit_inv :: "duration \<Rightarrow> gotime \<Rightarrow> nat \<Rightarrow> circuit \<Rightarrow> bool" where
  "circuit_inv maximum T n c \<longleftrightarrow>
     c_maxBackoff c = maximum \<and> 0 < c_initialBackoff c \<and> c_initialBackoff c \<le> maximum \<and>
     maximum \<le> 2 ^ 62 \<and> c_jitter c = jitterDelay \<and>
     unat (c_backoffStep c) \<le> n \<and>
     (circuit_tripped c \<longrightarrow> c_retryAt c \<le> T + maximum) \<and>
     (c_backoffStep c = 0 \<longrightarrow> \<not> c_probing c) \<and>
     c_stateGauge c = (case cb_abs c of Closed k \<Rightarrow> 0 | Open k t \<Rightarrow> 1 | HalfOpen k \<Rightarrow> 2)"

lemma jittered_backoff_le:
  assumes "0 < initial" and "initial \<le> maximum" and "maximum \<le> 2 ^ 62"
  shows "jitterDelay raw (exponentialDelay initial maximum step) maximum \<le> maximum"
  using exponentialDelay_range [OF assms, of step] assms
    jitterDelay_range(2) [of "exponentialDelay initial maximum step" maximum raw] by simp

lemma circuit_open_inv:
  assumes "circuit_inv maximum T n c" and "now \<le> T" and "c_backoffStep c \<noteq> - 1"
    and "c_backoffStep c' = c_backoffStep c + 1"
    and "c_maxBackoff c' = c_maxBackoff c" and "c_initialBackoff c' = c_initialBackoff c"
    and "c_jitter c' = c_jitter c"
  shows "circuit_inv maximum T (Suc n) (circuit_open raw now c')"
proof -
  have "c_backoffStep c + 1 \<noteq> 0" using assms(3) by (metis eq_neg_iff_add_eq_0)
  moreover have "unat (c_backoffStep c + 1) = unat (c_backoffStep c) + 1"
    using assms(3) by (rule unat_plus_1)
  moreover have "jitterDelay raw (exponentialDelay (c_initialBackoff c) maximum (c_backoffStep c + 1)) maximum
      \<le> maximum"
    using assms(1) by (intro jittered_backoff_le) (simp_all add: circuit_inv_def)
  ultimately show ?thesis using assms
    by (simp add: circuit_inv_def circuit_open_def circuit_tripped_def cb_abs_def Let_def)
qed

fun event_time :: "bevent \<Rightarrow> gotime option" where
  "event_time (Begin now) = Some now"
| "event_time (FinishErr p now raw) = Some now"
| "event_time e = None"

definition all_before :: "gotime \<Rightarrow> bevent list \<Rightarrow> bool" where
  "all_before T es \<longleftrightarrow> list_all (\<lambda>e. case event_time e of None \<Rightarrow> True | Some t \<Rightarrow> t \<le> T) es"

lemma circuit_inv_mono: "circuit_inv maximum T n c \<Longrightarrow> n \<le> m \<Longrightarrow> circuit_inv maximum T m c"
  by (simp add: circuit_inv_def)

lemma circuit_fail_cases:
  obtains (noted) "circuit_fail raw now p c = c\<lparr>c_failureCounter := Suc (c_failureCounter c)\<rparr>"
  | (counted) k l where "c_backoffStep c = 0" "circuit_fail raw now p c =
      c\<lparr>c_failureCounter := Suc (c_failureCounter c), c_consecutiveFailures := k, c_log := l\<rparr>"
  | (opened) c' where "circuit_fail raw now p c = circuit_open raw now c'"
      "c_backoffStep c' = c_backoffStep c + 1" "c_maxBackoff c' = c_maxBackoff c"
      "c_initialBackoff c' = c_initialBackoff c" "c_jitter c' = c_jitter c"
proof -
  let ?c = "c\<lparr>c_failureCounter := Suc (c_failureCounter c)\<rparr>"
  let ?k = "wrap64 (c_consecutiveFailures c + 1)"
  consider (a) "c_backoffStep c = 0" "pm_probe p"
    | (b) "c_backoffStep c = 0" "\<not> pm_probe p" "?k < c_failureThreshold c"
    | (c) "c_backoffStep c = 0" "\<not> pm_probe p" "\<not> ?k < c_failureThreshold c"
    | (d) "c_backoffStep c \<noteq> 0" "\<not> pm_probe p \<or> \<not> c_probing c"
    | (e) "c_backoffStep c \<noteq> 0" "pm_probe p" "c_probing c" by blast
  then show ?thesis
  proof cases
    case a
    then show ?thesis by (intro noted) (simp add: circuit_fail_def Let_def)
  next
    case b
    then show ?thesis
      by (intro counted [where k = ?k
          and l = "c_log c @ [LogBelowThreshold (c_name c) ?k (c_failureThreshold c)]"])
        (simp_all add: circuit_fail_def Let_def)
  next
    case c
    then show ?thesis
      by (intro opened [of "?c\<lparr>c_consecutiveFailures := ?k, c_backoffStep := 1\<rparr>"])
        (simp_all add: circuit_fail_def Let_def)
  next
    case d
    then show ?thesis by (intro noted) (simp add: circuit_fail_def Let_def)
  next
    case e
    then show ?thesis
      by (intro opened [of "?c\<lparr>c_backoffStep := c_backoffStep c + 1\<rparr>"])
        (simp_all add: circuit_fail_def Let_def)
  qed
qed

lemma circuit_inv_fail:
  assumes "circuit_inv maximum T n c" and "now \<le> T" and "n < 2 ^ 64 - 1"
  shows "circuit_inv maximum T (Suc n) (circuit_fail raw now p c)"
proof -
  have "unat (- 1 :: uint) = 2 ^ 64 - 1" by (simp add: unsigned_minus_1_eq_mask mask_eq_exp_minus_1)
  then have max: "c_backoffStep c \<noteq> - 1"
    using assms(1,3) by (auto simp: circuit_inv_def)
  show ?thesis
    using circuit_fail_cases [of raw now p c]
  proof cases
    case opened
    with assms(1,2) max show ?thesis by (simp add: circuit_open_inv)
  qed (use assms(1) in \<open>auto simp: circuit_inv_def circuit_tripped_def cb_abs_def\<close>)
qed

lemma circuit_inv_step:
  assumes "breaker_step circuit_ops st e st'" and "circuit_inv maximum T n (fst st)"
    and "all_before T [e]" and "n < 2 ^ 64 - 1"
  shows "circuit_inv maximum T (Suc n) (fst st')"
  using assms
proof (cases rule: breaker_step.cases)
  case (granted now s p s' fl)
  with assms(2) show ?thesis
    by (auto simp: circuit_inv_def circuit_acquire_def circuit_tripped_def cb_abs_def split: if_splits)
next
  case (refused now s s' fl)
  with assms(2) show ?thesis
    by (auto simp: circuit_inv_def circuit_acquire_def circuit_tripped_def cb_abs_def split: if_splits)
next
  case (finish_ok p fl s)
  with assms(2) show ?thesis
    by (auto simp: circuit_inv_def circuit_succeed_def circuit_tripped_def cb_abs_def Let_def)
next
  case (finish_err p fl s now raw)
  with assms(2-4) show ?thesis by (simp add: circuit_inv_fail all_before_def)
next
  case (abandon p fl s)
  with assms(2) show ?thesis by (simp add: circuit_inv_mono)
qed

lemma circuit_inv_run:
  "breaker_run circuit_ops st es st' \<Longrightarrow> circuit_inv maximum T n (fst st) \<Longrightarrow> all_before T es \<Longrightarrow>
   n + length es < 2 ^ 64 \<Longrightarrow> circuit_inv maximum T (n + length es) (fst st')"
proof (induction arbitrary: n rule: breaker_run.induct)
  case (run_Cons st e st' es st'')
  then have "circuit_inv maximum T (Suc n) (fst st')"
    by (intro circuit_inv_step [of st e]) (auto simp: all_before_def)
  then show ?case
    using run_Cons.IH [of "Suc n"] run_Cons.prems by (simp add: all_before_def)
qed simp

lemma initPlugin_inv:
  assumes "circuit_initPlugin tag executable reg held args = (Inr (P, c), held')"
    and "0 < a_initialBackoffMillis args"
    and "a_initialBackoffMillis args \<le> a_maxBackoffMillis args"
    and "a_maxBackoffMillis args \<le> 4611686018427"
  shows "circuit_inv (a_maxBackoffMillis args * millisecond) T 0 c"
proof -
  have w: "wrap64 (a_initialBackoffMillis args * millisecond) = a_initialBackoffMillis args * millisecond"
    "wrap64 (a_maxBackoffMillis args * millisecond) = a_maxBackoffMillis args * millisecond"
    using assms(2-4) by simp_all
  obtain e held1 where reg: "register_all reg held circuit_metrics = (e, held1)" by fastforce
  have "e = None \<and> executable (a_primary args)"
    using assms(1) unfolding circuit_initPlugin_def reg Let_def
    by (cases e; cases "executable (a_primary args)") simp_all
  then have "c = \<lparr>c_name = tag, c_consecutiveFailures = 0, c_backoffStep = 0,
      c_retryAt = zero_time, c_probing = False,
      c_failureThreshold = (if a_failureThreshold args \<le> 0 then 2 else a_failureThreshold args),
      c_initialBackoff = a_initialBackoffMillis args * millisecond,
      c_maxBackoff = a_maxBackoffMillis args * millisecond, c_stateGauge = 0,
      c_backoffGauge = 0, c_failureCounter = 0, c_bypassCounter = 0,
      c_log = [], c_jitter = jitterDelay\<rparr>"
    using assms unfolding circuit_initPlugin_def w reg Let_def by simp
  then show ?thesis using assms(2-4)
    by (simp add: circuit_inv_def circuit_tripped_def cb_abs_def)
qed



section \<open>The abandoned probe\<close>

lemma attemptOnce_done:
  assumes "pr_elapsed run = None" and "done_at ctx = Some u" and "u < t0 + timeout" and "0 < timeout"
  shows "attemptOnce ctx q timeout tie run t0 = ((None, Some (done_cause ctx)), max t0 u)"
proof -
  let ?cands = "attempt_cases ctx timeout run t0"
  have "?cands \<noteq> []" using attempt_cases_timer [of t0 timeout ctx run] by auto
  note sel = select_ready_earliest [OF this, of tie]
  have "(max t0 u, CaseDone) \<in> set ?cands"
    using assms(2) by (simp add: attempt_cases_def)
  with sel have "select_ready tie ?cands \<in> set ?cands"
    and "fst (select_ready tie ?cands) \<le> max t0 u" by force+
  then have "select_ready tie ?cands = (max t0 u, CaseDone)"
    using assms by (auto simp: attempt_cases_def)
  then show ?thesis by (simp add: attemptOnce_def)
qed

lemma exec_attempts_cancelled:
  assumes "pr_elapsed (runs 0) = None" and "done_at ctx = Some u"
    and "u < now + pl_attemptTimeout P" and "0 < pl_attemptTimeout P"
  shows "exec_attempts P rcodes ctx q runs ties 0 (exec_attempt_count P) None now =
    (Cancelled, max now u)"
proof -
  obtain n where n: "exec_attempt_count P = Suc n"
    by (metis Suc_pred' exec_attempt_count_def nat_0_iff not_gr_zero zero_less_one)
  show ?thesis
    using attemptOnce_done [OF assms, of q "ties 0"] assms(2)
    by (simp add: n ctx_err_def ctx_done_def)
qed

text \<open>C12. The early return of \<open>Exec\<close> on a cancelled query does not give the half-open slot
  back. When the client of a probe disconnects while Mihomo is still working on the answer
  and no other request is in flight, the circuit stays half-open for ever: whatever requests
  follow, at whatever times, none gets a permit, none is in flight, and every \<open>Exec\<close> is
  refused.\<close>

theorem cancelled_probe_never_recovers:
  assumes "c_backoffStep c \<noteq> 0" and "\<not> c_probing c" and "c_retryAt c \<le> now"
    and "pr_elapsed (runs 0) = None" and "done_at ctx = Some u"
    and "u < now + pl_attemptTimeout P" and "0 < pl_attemptTimeout P"
    and "breaker_run circuit_ops
      (ex_circuit (circuit_exec P rcodes ctx q runs ties raw now c), []) es (c', fl)"
  shows "fl = [] \<and> c_stateGauge (ex_circuit (circuit_exec P rcodes ctx q runs ties raw now c)) = 2 \<and>
    ex_err (circuit_exec P' rcodes ctx' q' runs' ties' raw' now' c') = Some errCircuitOpen"
proof -
  have exec: "ex_circuit (circuit_exec P rcodes ctx q runs ties raw now c) =
      c\<lparr>c_probing := True, c_stateGauge := 2, c_backoffGauge := 0\<rparr>"
    using assms(1-3) exec_attempts_cancelled [of runs ctx u now P rcodes q ties, OF assms(4-7)]
    by (simp add: circuit_exec_def circuit_acquire_def)
  have "cb.stuck (c\<lparr>c_probing := True, c_stateGauge := 2, c_backoffGauge := 0\<rparr>, [])"
    using assms(1) by (simp add: cb.stuck_def circuit_tripped_def)
  then have "cb.stuck (c', fl)" using cb.run_stuck assms(8) exec by metis
  then show ?thesis
    using exec by (simp add: cb.stuck_def circuit_tripped_def circuit_exec_def circuit_acquire_def)
qed

theorem cancelled_probe_never_recovers_witness:
  "ex_err (circuit_exec deployed_plugin (\<lambda>_. []) ctx_forever None (\<lambda>_. run_answers) (\<lambda>_. 0) 0 (10 ^ 18)
     (ex_circuit (circuit_exec deployed_plugin (\<lambda>_. []) (ctx_left 25) None (\<lambda>_. run_hangs) (\<lambda>_. 0) 0 20
       opened_circuit))) = Some errCircuitOpen"
  using cancelled_probe_never_recovers [of opened_circuit 20 "\<lambda>_. run_hangs" "ctx_left 25" 25
      deployed_plugin "\<lambda>_. []" None "\<lambda>_. 0" 0 "[]" _ "[]" deployed_plugin ctx_forever None
      "\<lambda>_. run_answers" "\<lambda>_. 0" 0 "10 ^ 18"]
  by (simp add: sample_defs)

end
