(* ===== verification/RuntimeState.thy ===== *)
theory RuntimeState
  imports GoBase
begin

text \<open>
  internal/statewire/state.go and cmd/veladns/state.go: the state the supervisor publishes.
  \<open>component\<close>, \<open>dohStats\<close> and \<open>snapshot\<close> are the wire structs (\<open>dohStats\<close> is
  \<open>statewire.DoHUpstream\<close>; a delay in seconds is kept as its duration), \<open>runtimeState\<close> the
  shared struct; each operation holds the mutex and is one function.
\<close>

section \<open>The code\<close>

record component =
  cp_enabled :: bool
  cp_up :: bool
  cp_restarts :: uint
  cp_backoff :: duration

record dohStats =
  ds_requests :: uint
  ds_successes :: uint
  ds_failures :: uint
  ds_backoffSkips :: uint
  ds_durationMicroseconds :: uint
  ds_retryAtUnixMilli :: int
  ds_lastSuccessUnix :: int
  ds_lastFailureUnix :: int

record snapshot =
  sn_timestamp :: int
  sn_components :: "string \<rightharpoonup> component"
  sn_dohUpstreams :: "string \<rightharpoonup> dohStats"

record runtimeState =
  rs_components :: "string \<rightharpoonup> component"
  rs_dohUpstreams :: "string \<rightharpoonup> dohStats"

definition zero_component :: component where
  "zero_component = \<lparr>cp_enabled = False, cp_up = False, cp_restarts = 0, cp_backoff = 0\<rparr>"

definition zero_dohStats :: dohStats where
  "zero_dohStats = \<lparr>ds_requests = 0, ds_successes = 0, ds_failures = 0, ds_backoffSkips = 0,
     ds_durationMicroseconds = 0, ds_retryAtUnixMilli = 0, ds_lastSuccessUnix = 0,
     ds_lastFailureUnix = 0\<rparr>"

definition component_names :: "string list" where
  "component_names = [''doh_bridge'', ''mosdns'', ''unbound'', ''unbound_recursive'']"

definition newRuntimeState :: runtimeState where
  "newRuntimeState =
     \<lparr>rs_components = map_of (map (\<lambda>n. (n, zero_component\<lparr>cp_enabled := True\<rparr>)) component_names),
      rs_dohUpstreams = Map.empty\<rparr>"

text \<open>Reading a missing key of a Go map yields the zero value.\<close>

definition update :: "string \<Rightarrow> (component \<Rightarrow> component) \<Rightarrow> runtimeState \<Rightarrow> runtimeState" where
  "update name fn s =
     (let c = (case rs_components s name of None \<Rightarrow> zero_component | Some c \<Rightarrow> c)
      in s\<lparr>rs_components := (rs_components s)(name \<mapsto> fn c)\<rparr>)"

datatype dohObservation = DohSuccess | DohFailure | DohBackoffSkip

definition registerDoHUpstream :: "string \<Rightarrow> runtimeState \<Rightarrow> runtimeState" where
  "registerDoHUpstream name s =
     (case rs_dohUpstreams s name of
        None \<Rightarrow> s\<lparr>rs_dohUpstreams := (rs_dohUpstreams s)(name \<mapsto> zero_dohStats)\<rparr>
      | Some u \<Rightarrow> s)"

definition observeDoHUpstream ::
  "gotime \<Rightarrow> string \<Rightarrow> dohObservation \<Rightarrow> duration \<Rightarrow> gotime \<Rightarrow> runtimeState \<Rightarrow> runtimeState" where
  "observeDoHUpstream now name result d retryAt s =
     (let u0 = (case rs_dohUpstreams s name of None \<Rightarrow> zero_dohStats | Some u \<Rightarrow> u);
          u1 = u0\<lparr>ds_requests := ds_requests u0 + 1\<rparr>;
          u2 = (if 0 < d then u1\<lparr>ds_durationMicroseconds :=
                  ds_durationMicroseconds u1 + word_of_int (d sdiv microsecond)\<rparr> else u1);
          u3 = (case result of
                  DohSuccess \<Rightarrow> u2\<lparr>ds_successes := ds_successes u2 + 1, ds_lastSuccessUnix := time_unix now\<rparr>
                | DohFailure \<Rightarrow> u2\<lparr>ds_failures := ds_failures u2 + 1, ds_lastFailureUnix := time_unix now\<rparr>
                | DohBackoffSkip \<Rightarrow> u2\<lparr>ds_backoffSkips := ds_backoffSkips u2 + 1\<rparr>);
          u4 = (if retryAt = zero_time then u3\<lparr>ds_retryAtUnixMilli := 0\<rparr>
                else u3\<lparr>ds_retryAtUnixMilli := time_unix_milli retryAt\<rparr>)
      in s\<lparr>rs_dohUpstreams := (rs_dohUpstreams s)(name \<mapsto> u4)\<rparr>)"

definition state_snapshot :: "gotime \<Rightarrow> runtimeState \<Rightarrow> snapshot" where
  "state_snapshot now s =
     \<lparr>sn_timestamp = time_unix now, sn_components = rs_components s,
      sn_dohUpstreams = rs_dohUpstreams s\<rparr>"

section \<open>Sending\<close>

text \<open>
  \<open>sendState\<close> writes one datagram, or none when marshalling, resolving or dialling fails;
  \<open>marshal\<close> is the JSON encoder and \<open>reach\<close> tells whether the socket takes the datagram.
  \<open>sendStateLoop\<close> sends at once and then at every tick until the context is done: \<open>ticks\<close>
  are the state and the time of each tick that comes before.
\<close>

definition sendState :: "(snapshot \<Rightarrow> 'd option) \<Rightarrow> bool \<Rightarrow> gotime \<Rightarrow> runtimeState \<Rightarrow> 'd list" where
  "sendState marshal reach now s =
     (case marshal (state_snapshot now s) of None \<Rightarrow> [] | Some payload \<Rightarrow> if reach then [payload] else [])"

fun sendStateLoop :: "(snapshot \<Rightarrow> 'd option) \<Rightarrow> (gotime \<times> bool \<times> runtimeState) \<Rightarrow>
    (gotime \<times> bool \<times> runtimeState) list \<Rightarrow> 'd list" where
  "sendStateLoop marshal (now, reach, s) [] = sendState marshal reach now s"
| "sendStateLoop marshal (now, reach, s) (t # ticks) =
     sendState marshal reach now s @ sendStateLoop marshal t ticks"

section \<open>Accounting\<close>

text \<open>The closures the program passes to \<open>update\<close> never touch \<open>Enabled\<close>.\<close>

definition set_up :: "bool \<Rightarrow> component \<Rightarrow> component" where
  "set_up b c = c\<lparr>cp_up := b\<rparr>"

definition balanced :: "dohStats \<Rightarrow> bool" where
  "balanced u \<longleftrightarrow> ds_requests u = ds_successes u + ds_failures u + ds_backoffSkips u"

definition accounts_balanced :: "runtimeState \<Rightarrow> bool" where
  "accounts_balanced s \<longleftrightarrow> (\<forall>name u. rs_dohUpstreams s name = Some u \<longrightarrow> balanced u)"

lemma balanced_zero [simp]: "balanced zero_dohStats"
  by (simp add: balanced_def zero_dohStats_def)

lemma new_accounts_balanced [simp]: "accounts_balanced newRuntimeState"
  by (simp add: accounts_balanced_def newRuntimeState_def)

lemma update_accounts_balanced [simp]: "accounts_balanced (update name fn s) = accounts_balanced s"
  by (simp add: accounts_balanced_def update_def Let_def)

lemma register_accounts_balanced [simp]:
  "accounts_balanced s \<Longrightarrow> accounts_balanced (registerDoHUpstream name s)"
  by (auto simp: accounts_balanced_def registerDoHUpstream_def split: option.splits)

lemma observe_accounts_balanced [simp]:
  assumes "accounts_balanced s"
  shows "accounts_balanced (observeDoHUpstream now name result d retryAt s)"
proof -
  have "balanced (case rs_dohUpstreams s name of None \<Rightarrow> zero_dohStats | Some u \<Rightarrow> u)"
    using assms by (auto simp: accounts_balanced_def split: option.split)
  then show ?thesis using assms
    by (cases result) (auto simp: accounts_balanced_def observeDoHUpstream_def balanced_def Let_def)
qed

end
