(* ===== verification/GoStrings.thy ===== *)
theory GoStrings
  imports GoBase "HOL-Library.Sublist"
begin

text \<open>
  The functions of the packages \<open>strings\<close>, \<open>unicode/utf8\<close>, \<open>bytes\<close> and \<open>strconv\<close> that
  VelaDNS calls. A Go string (and a byte slice) is a list of bytes, one \<open>char\<close> each.
  A rune is represented by its UTF-8 encoding, a byte string; an ill-formed byte is a rune
  of one byte, as the decoder of the library yields it.
\<close>

section \<open>Substrings\<close>

abbreviation hasPrefix :: "string \<Rightarrow> string \<Rightarrow> bool" where
  "hasPrefix s p \<equiv> prefix p s"

abbreviation contains :: "string \<Rightarrow> string \<Rightarrow> bool" where
  "contains s t \<equiv> sublist t s"

definition trimSuffix :: "string \<Rightarrow> string \<Rightarrow> string" where
  "trimSuffix s t = (if suffix t s then take (length s - length t) s else s)"

text \<open>\<open>strings.Cut\<close> and \<open>strings.Split\<close> with a separator of one byte.\<close>

definition cut :: "string \<Rightarrow> char \<Rightarrow> string \<times> string \<times> bool" where
  "cut s c = (if c \<in> set s
     then (takeWhile (\<lambda>x. x \<noteq> c) s, drop 1 (dropWhile (\<lambda>x. x \<noteq> c) s), True)
     else (s, [], False))"

fun splitOn :: "char \<Rightarrow> string \<Rightarrow> string list" where
  "splitOn c [] = [[]]"
| "splitOn c (x # xs) =
     (if x = c then [] # splitOn c xs
      else (case splitOn c xs of [] \<Rightarrow> [[x]] | l # ls \<Rightarrow> (x # l) # ls))"

fun joinWith :: "char \<Rightarrow> string list \<Rightarrow> string" where
  "joinWith c [] = []"
| "joinWith c [x] = x"
| "joinWith c (x # y # zs) = x @ c # joinWith c (y # zs)"

text \<open>\<open>strings.ReplaceAll\<close> for a non-empty \<open>old\<close>: left to right, without overlap.\<close>

function replaceAll :: "string \<Rightarrow> string \<Rightarrow> string \<Rightarrow> string" where
  "replaceAll old new s =
     (if old \<noteq> [] \<and> prefix old s then new @ replaceAll old new (drop (length old) s)
      else (case s of [] \<Rightarrow> [] | c # t \<Rightarrow> c # replaceAll old new t))"
  by pat_completeness auto
termination
  by (relation "measure (\<lambda>(old, new, s). length s)")
    (auto simp: prefix_def)

declare replaceAll.simps [simp del]

lemma cut_found: "c \<notin> set a \<Longrightarrow> cut (a @ c # b) c = (a, b, True)"
  by (simp add: cut_def takeWhile_append dropWhile_append)

lemma cut_not_found: "c \<notin> set s \<Longrightarrow> cut s c = (s, [], False)"
  by (simp add: cut_def)

lemma cut_parts:
  assumes "cut s c = (a, b, True)"
  shows "s = a @ c # b" and "c \<notin> set a"
proof -
  have "c \<in> set s" using assms by (simp add: cut_def split: if_splits)
  then obtain u v where s: "s = u @ c # v" and "c \<notin> set u"
    by (meson split_list_first)
  then have "cut s c = (u, v, True)" by (simp add: cut_found)
  with assms have "a = u" and "b = v" by simp_all
  with s \<open>c \<notin> set u\<close> show "s = a @ c # b" and "c \<notin> set a" by simp_all
qed

lemma splitOn_not_Nil [simp]: "splitOn c s \<noteq> []"
  by (induction s) (auto split: list.splits)

lemma splitOn_append: "c \<notin> set a \<Longrightarrow> splitOn c (a @ c # b) = a # splitOn c b"
  by (induction a) auto

lemma splitOn_single: "c \<notin> set a \<Longrightarrow> splitOn c a = [a]"
  by (induction a) auto

lemma splitOn_no_sep: "x \<in> set (splitOn c s) \<Longrightarrow> c \<notin> set x"
  by (induction s arbitrary: x) (auto split: list.splits if_splits)

lemma splitOn_joinWith:
  "xs \<noteq> [] \<Longrightarrow> \<forall>x\<in>set xs. c \<notin> set x \<Longrightarrow> splitOn c (joinWith c xs) = xs"
  by (induction c xs rule: joinWith.induct) (auto simp: splitOn_append splitOn_single)

lemma joinWith_Cons_head: "joinWith c ((a # x) # ys) = a # joinWith c (x # ys)"
  by (cases ys) simp_all

lemma joinWith_splitOn: "joinWith c (splitOn c s) = s"
proof (induction s)
  case (Cons x xs)
  then show ?case
    by (cases "splitOn c xs") (simp_all add: joinWith_Cons_head)
qed simp

lemma length_joinWith:
  "length (joinWith c xs) = sum_list (map length xs) + (length xs - 1)"
  by (induction c xs rule: joinWith.induct) auto

lemma joinWith_snoc_sep:
  "xs \<noteq> [] \<Longrightarrow> joinWith c xs @ [c] = concat (map (\<lambda>x. x @ [c]) xs)"
  by (induction c xs rule: joinWith.induct) auto

lemma trimSuffix_id: "\<not> suffix t s \<Longrightarrow> trimSuffix s t = s"
  by (simp add: trimSuffix_def)

lemma trimSuffix_append [simp]: "trimSuffix (s @ t) t = s"
  by (simp add: trimSuffix_def suffix_def)

lemma length_trimSuffix: "length (trimSuffix s t) \<le> length s"
  by (simp add: trimSuffix_def)

lemma replaceAll_none: "\<not> contains s old \<Longrightarrow> replaceAll old new s = s"
proof (induction old new s rule: replaceAll.induct)
  case (1 old new s)
  have "\<not> prefix old s" using "1.prems" by auto
  moreover have "s = c # t \<Longrightarrow> \<not> contains t old" for c t
    using "1.prems" by (simp add: sublist_Cons_right)
  ultimately show ?case using "1.IH"(2) by (subst replaceAll.simps) (auto split: list.split)
qed

lemma replaceAll_hit: "old \<noteq> [] \<Longrightarrow> replaceAll old new (old @ t) = new @ replaceAll old new t"
  by (subst replaceAll.simps) simp

lemma contains_append: "contains a t \<Longrightarrow> contains (x @ a @ y) t"
  by (meson sublist_appendI sublist_order.order.trans)

text \<open>What replaces a text is in the result.\<close>

lemma contains_replaceAll: "old \<noteq> [] \<Longrightarrow> contains s old \<Longrightarrow> contains (replaceAll old new s) new"
proof (induction old new s rule: replaceAll.induct)
  case (1 old new s)
  show ?case
  proof (cases "prefix old s")
    case True
    with "1.prems" show ?thesis by (subst replaceAll.simps) simp
  next
    case False
    then obtain c t where s: "s = c # t" "contains t old"
      using "1.prems" by (cases s) (auto simp: sublist_Cons_right)
    with False "1.IH"(2) "1.prems" show ?thesis
      by (subst replaceAll.simps) (simp add: sublist_Cons_right)
  qed
qed

end
