(* ===== verification/DoHUpstream.thy ===== *)
theory DoHUpstream
  imports Backoff Dns Breaker RuntimeState GoStrconv
begin

text \<open>
  cmd/veladns/dohbridge.go, the part of one DoH provider: the dial address cache and the
  bootstrap lookup, the dialer's round robin, the backoff (\<open>doh_acquire\<close>, \<open>doh_fail\<close>,
  \<open>doh_succeed\<close>), one HTTP exchange and \<open>exchange\<close>, which ties them together and reports
  every outcome to the runtime state. The HTTP round trip, the DNS codec and the network are
  inputs.
\<close>

section \<open>The dial address cache\<close>

record dialAddressCache =
  dc_addresses :: "string list"
  dc_expiresAt :: gotime

abbreviation (input) dialAddressTTL :: duration where "dialAddressTTL \<equiv> minute"

text \<open>\<open>t1\<close> is the time of the look at the cache, \<open>t2\<close> the time of the store.\<close>

definition cache_get ::
  "gotime \<Rightarrow> gotime \<Rightarrow> goerr + string list \<Rightarrow> dialAddressCache \<Rightarrow> (goerr + string list) \<times> dialAddressCache" where
  "cache_get t1 t2 resolved c =
     (if dc_addresses c \<noteq> [] \<and> t1 < dc_expiresAt c then (Inr (dc_addresses c), c)
      else (case resolved of
              Inl e \<Rightarrow> (Inl e, c)
            | Inr addresses \<Rightarrow>
                (Inr addresses, c\<lparr>dc_addresses := addresses, dc_expiresAt := t2 + dialAddressTTL\<rparr>)))"

definition cache_invalidate :: "dialAddressCache \<Rightarrow> dialAddressCache" where
  "cache_invalidate c = c\<lparr>dc_addresses := [], dc_expiresAt := zero_time\<rparr>"

text \<open>The outcome of the TCP exchange with the bootstrap server is an input.\<close>

definition resolveDoHAddresses :: "(int \<Rightarrow> string) \<Rightarrow> goerr + dnsmsg \<Rightarrow> goerr + string list" where
  "resolveDoHAddresses rcodeToString outcome =
     (case outcome of
        Inl e \<Rightarrow> Inl e
      | Inr response \<Rightarrow>
          if msg_rcode response \<noteq> RcodeSuccess
          then Inl (ErrNew (''bootstrap DNS returned '' @ rcodeToString (msg_rcode response)))
          else let addresses = List.map_filter rr_a (msg_answer response) in
            if addresses = [] then Inl (ErrNew ''bootstrap DNS returned no IPv4 address'')
            else Inr addresses)"

section \<open>The provider\<close>

text \<open>\<open>u_cache\<close> is the cache of a bootstrapped provider and \<open>u_bootstrapDNS\<close> the server its
  misses ask; a direct one has the fixed list
  \<open>u_dialIPs\<close> and no \<open>invalidateDialIPs\<close>. \<open>u_next\<close> is the atomic counter of the dialer;
  \<open>u_observed\<close> tells whether \<open>observe\<close> is set.\<close>

record dohUpstream =
  u_tag :: string
  u_url :: string
  u_serverName :: string
  u_bootstrapDNS :: string
  u_cache :: "dialAddressCache option"
  u_dialIPs :: "string list"
  u_next :: uint
  u_observed :: bool
  u_backoffStep :: uint
  u_failures :: uint
  u_retryAt :: gotime
  u_probing :: bool

definition newDoHUpstreamWithResolver ::
  "string \<Rightarrow> string \<Rightarrow> string \<Rightarrow> string list \<Rightarrow> string \<Rightarrow> dialAddressCache option \<Rightarrow> dohUpstream" where
  "newDoHUpstreamWithResolver tag url serverName dialIPs bootstrapDNS cache =
     \<lparr>u_tag = tag, u_url = url, u_serverName = serverName, u_bootstrapDNS = bootstrapDNS,
      u_cache = cache, u_dialIPs = dialIPs, u_next = 0, u_observed = False, u_backoffStep = 0,
      u_failures = 0, u_retryAt = zero_time, u_probing = False\<rparr>"

definition newDoHUpstream :: "string \<Rightarrow> string \<Rightarrow> string \<Rightarrow> string list \<Rightarrow> dohUpstream" where
  "newDoHUpstream tag url serverName dialIPs =
     newDoHUpstreamWithResolver tag url serverName dialIPs [] None"

definition newBootstrappedDoHUpstream :: "string \<Rightarrow> string \<Rightarrow> string \<Rightarrow> string \<Rightarrow> dohUpstream" where
  "newBootstrappedDoHUpstream tag url serverName bootstrapDNS =
     newDoHUpstreamWithResolver tag url serverName [] bootstrapDNS
       (Some \<lparr>dc_addresses = [], dc_expiresAt = zero_time\<rparr>)"

text \<open>\<open>int(x)\<close> of a \<open>uint64\<close> on a target whose \<open>int\<close> has \<open>W\<close> bits: 64, or 32 on arm/v7.\<close>

definition int_of_uint64 :: "nat \<Rightarrow> uint \<Rightarrow> int" where
  "int_of_uint64 W w = signed_take_bit (W - 1) (uint w)"

datatype dial_target =
    DialError goerr
  | DialPanic
  | DialTo string

text \<open>The \<open>resolveDialIPs\<close> closure the constructors pass: the fixed list, or the cache in
  front of the bootstrap lookup.\<close>

definition resolveDialIPs ::
  "gotime \<Rightarrow> gotime \<Rightarrow> goerr + string list \<Rightarrow> dohUpstream \<Rightarrow> (goerr + string list) \<times> dohUpstream" where
  "resolveDialIPs t1 t2 resolved u =
     (case u_cache u of
        None \<Rightarrow> (Inr (u_dialIPs u), u)
      | Some c \<Rightarrow> (case cache_get t1 t2 resolved c of (r, c') \<Rightarrow> (r, u\<lparr>u_cache := Some c'\<rparr>)))"

text \<open>\<open>DialContext\<close> up to the choice of the address. An index out of range panics.\<close>

definition dialContext ::
  "nat \<Rightarrow> gotime \<Rightarrow> gotime \<Rightarrow> goerr + string list \<Rightarrow> dohUpstream \<Rightarrow> dial_target \<times> dohUpstream" where
  "dialContext W t1 t2 resolved u =
     (case resolveDialIPs t1 t2 resolved u of
        (Inl e, u') \<Rightarrow>
          (DialError (ErrWrap (u_tag u @ '' resolve dial address: '' @ err_message e) [e]), u')
      | (Inr dialIPs, u') \<Rightarrow>
          if dialIPs = [] then (DialError (ErrNew ''encrypted upstream has no dial address''), u')
          else
            let u1 = u'\<lparr>u_next := u_next u' + 1\<rparr>;
                index = int_of_uint64 W (u_next u1 - 1) smod int (length dialIPs)
            in (if 0 \<le> index \<and> index < int (length dialIPs)
                then DialTo (joinHostPort (dialIPs ! nat index) ''443'') else DialPanic, u1))"

section \<open>The backoff\<close>

record dohPermit =
  dp_probe :: bool

abbreviation (input) dohFailureThreshold :: uint where "dohFailureThreshold \<equiv> 2"

definition doh_acquire :: "gotime \<Rightarrow> dohUpstream \<Rightarrow> (dohPermit \<times> bool) \<times> dohUpstream" where
  "doh_acquire now u =
     (if u_backoffStep u = 0 then ((\<lparr>dp_probe = False\<rparr>, True), u)
      else if now < u_retryAt u \<or> u_probing u then ((\<lparr>dp_probe = False\<rparr>, False), u)
      else ((\<lparr>dp_probe = True\<rparr>, True), u\<lparr>u_probing := True\<rparr>))"

text \<open>The tail of \<open>fail\<close>, reached once \<open>backoffStep\<close> has been set or incremented.\<close>

definition doh_park :: "nat \<Rightarrow> gotime \<Rightarrow> dohUpstream \<Rightarrow> dohUpstream" where
  "doh_park raw now u =
     u\<lparr>u_probing := False, u_retryAt := now + jitterDoHBackoff raw (u_backoffStep u)\<rparr>"

definition doh_fail :: "nat \<Rightarrow> gotime \<Rightarrow> dohPermit \<Rightarrow> dohUpstream \<Rightarrow> dohUpstream" where
  "doh_fail raw now p u =
     (if u_backoffStep u = 0 then
        (let u1 = u\<lparr>u_failures := u_failures u + 1\<rparr> in
         if u_failures u1 < dohFailureThreshold then u1
         else doh_park raw now (u1\<lparr>u_backoffStep := 1\<rparr>))
      else if dp_probe p \<and> u_probing u then doh_park raw now (u\<lparr>u_backoffStep := u_backoffStep u + 1\<rparr>)
      else u)"

definition doh_succeed :: "dohUpstream \<Rightarrow> dohUpstream" where
  "doh_succeed u = u\<lparr>u_backoffStep := 0, u_failures := 0, u_retryAt := zero_time, u_probing := False\<rparr>"

lemma dohPermit_eta [simp]: "\<lparr>dp_probe = dp_probe p\<rparr> = p"
  by (cases p) simp

section \<open>One exchange\<close>

text \<open>The HTTP response: status, body, and the error reading the body ends with.\<close>

record http_response =
  hr_status :: int
  hr_body :: string
  hr_readErr :: "goerr option"

record http_request =
  rq_url :: string
  rq_headers :: "(string \<times> string) list"
  rq_body :: string

text \<open>The DNS codec of package miekg/dns.\<close>

record codec =
  cd_pack :: "dnsmsg \<Rightarrow> goerr + string"
  cd_unpack :: "string \<Rightarrow> goerr + dnsmsg"

text \<open>\<open>newRequest\<close> is the error of \<open>http.NewRequestWithContext\<close>, \<open>roundTrip\<close> the outcome of
  \<open>client.Do\<close> for the request built.\<close>

definition exchangeOnce ::
  "codec \<Rightarrow> goerr option \<Rightarrow> (http_request \<Rightarrow> goerr + http_response) \<Rightarrow> dnsmsg \<Rightarrow> dohUpstream \<Rightarrow>
   goerr + dnsmsg" where
  "exchangeOnce cd newRequest roundTrip query u =
     (case cd_pack cd query of
        Inl e \<Rightarrow> Inl (ErrWrap (u_tag u @ '' pack query: '' @ err_message e) [e])
      | Inr payload \<Rightarrow>
          (case newRequest of
             Some e \<Rightarrow> Inl (ErrWrap (u_tag u @ '' create request: '' @ err_message e) [e])
           | None \<Rightarrow>
               (case roundTrip \<lparr>rq_url = u_url u,
                    rq_headers = [(''Accept'', ''application/dns-message''),
                      (''Content-Type'', ''application/dns-message'')],
                    rq_body = payload\<rparr> of
                  Inl e \<Rightarrow> Inl (ErrWrap (u_tag u @ '' request: '' @ err_message e) [e])
                | Inr response \<Rightarrow>
                    if hr_status response \<noteq> 200 then
                      Inl (ErrNew (u_tag u @ '' returned HTTP '' @ itoa (hr_status response)))
                    else if hr_readErr response \<noteq> None \<and> length (hr_body response) < MaxMsgSize then
                      Inl (ErrWrap (u_tag u @ '' read response: '' @
                        err_message (the (hr_readErr response))) [the (hr_readErr response)])
                    else
                      (case cd_unpack cd (take MaxMsgSize (hr_body response)) of
                         Inl e \<Rightarrow> Inl (ErrWrap (u_tag u @ '' decode response: '' @ err_message e) [e])
                       | Inr answer \<Rightarrow>
                           if \<not> msg_response answer \<or>
                              length (msg_question answer) \<noteq> length (msg_question query)
                           then Inl (ErrNew (u_tag u @ '' returned an invalid DNS response''))
                           else Inr (answer\<lparr>msg_id := msg_id query\<rparr>)))))"

text \<open>\<open>record\<close> reports an outcome with the retry time it reads back.\<close>

definition doh_record ::
  "gotime \<Rightarrow> dohObservation \<Rightarrow> duration \<Rightarrow> dohUpstream \<Rightarrow> runtimeState \<Rightarrow> runtimeState" where
  "doh_record now result d u s =
     (if u_observed u then observeDoHUpstream now (u_tag u) result d (u_retryAt u) s else s)"

text \<open>The inputs of one \<open>exchange\<close>: the times of its readings of the clock (start, acquire,
  report of the failure, end), the dials the HTTP client makes meanwhile (with the bootstrap
  lookup of each), the round trip, and the raw draw of the jitter.\<close>

record exchange_env =
  xe_start :: gotime
  xe_acquire :: gotime
  xe_report :: gotime
  xe_end :: gotime
  xe_dials :: "(gotime \<times> gotime \<times> (goerr + string list)) list"
  xe_newRequest :: "goerr option"
  xe_roundTrip :: "http_request \<Rightarrow> goerr + http_response"
  xe_raw :: nat

definition run_dials :: "nat \<Rightarrow> exchange_env \<Rightarrow> dohUpstream \<Rightarrow> dohUpstream" where
  "run_dials W env u = fold (\<lambda>(t1, t2, r) v. snd (dialContext W t1 t2 r v)) (xe_dials env) u"

definition invalidateDialIPs :: "dohUpstream \<Rightarrow> dohUpstream" where
  "invalidateDialIPs u = u\<lparr>u_cache := map_option cache_invalidate (u_cache u)\<rparr>"

definition exchange ::
  "nat \<Rightarrow> codec \<Rightarrow> exchange_env \<Rightarrow> dnsmsg \<Rightarrow> dohUpstream \<Rightarrow> runtimeState \<Rightarrow>
   (goerr + dnsmsg) \<times> dohUpstream \<times> runtimeState" where
  "exchange W cd env query u s =
     (case doh_acquire (xe_acquire env) u of ((permit, allowed), u1) \<Rightarrow>
        let d = time_sub (xe_end env) (xe_start env) in
        if \<not> allowed then
          (Inl (ErrNew (u_tag u @ '' retry is in exponential backoff'')), u1,
           doh_record (xe_end env) DohBackoffSkip d u1 s)
        else
          let u2 = run_dials W env u1 in
          (case exchangeOnce cd (xe_newRequest env) (xe_roundTrip env) query u2 of
             Inl e \<Rightarrow>
               let u3 = doh_fail (xe_raw env) (xe_report env) permit (invalidateDialIPs u2)
               in (Inl e, u3, doh_record (xe_end env) DohFailure d u3 s)
           | Inr answer \<Rightarrow>
               let u3 = doh_succeed u2
               in (Inr answer, u3, doh_record (xe_end env) DohSuccess d u3 s)))"

section \<open>The provider is a breaker\<close>

definition doh_tripped :: "dohUpstream \<Rightarrow> bool" where
  "doh_tripped u \<longleftrightarrow> u_backoffStep u \<noteq> 0"

definition doh_ops :: "dohUpstream breaker_ops" where
  "doh_ops =
     \<lparr>bo_acquire = (\<lambda>now u. case doh_acquire now u of ((p, allowed), u') \<Rightarrow>
         (if allowed then Some (dp_probe p) else None, u')),
      bo_succeed = doh_succeed,
      bo_fail = (\<lambda>now raw p u. doh_fail raw now \<lparr>dp_probe = p\<rparr> u)\<rparr>"

lemma doh_ops_simps [simp]:
  "bo_acquire doh_ops now u =
     (case doh_acquire now u of ((p, allowed), u') \<Rightarrow> (if allowed then Some (dp_probe p) else None, u'))"
  "bo_succeed doh_ops = doh_succeed"
  "bo_fail doh_ops now raw p u = doh_fail raw now \<lparr>dp_probe = p\<rparr> u"
  by (simp_all add: doh_ops_def)

lemmas doh_defs = doh_acquire_def doh_succeed_def doh_fail_def doh_park_def

interpretation db: breaker doh_ops doh_tripped u_probing u_retryAt
  by unfold_locales (auto simp: doh_tripped_def doh_defs Let_def)

end
