(* ===== verification/DoHSafety.thy ===== *)
theory DoHSafety
  imports DoHUpstream
begin

text \<open>
  What one DoH provider guarantees: its answers, the release of the half-open slot, the
  parking time, the accounting of every exchange, the dial address cache and the dialer.
\<close>

section \<open>Fields an operation leaves alone\<close>

text \<open>The part of a provider its backoff reads and writes.\<close>

definition u_core :: "dohUpstream \<Rightarrow> uint \<times> uint \<times> gotime \<times> bool" where
  "u_core u = (u_backoffStep u, u_failures u, u_retryAt u, u_probing u)"

definition same_but_dial :: "dohUpstream \<Rightarrow> dohUpstream \<Rightarrow> bool" where
  "same_but_dial u v \<longleftrightarrow>
     u_core u = u_core v \<and> u_tag u = u_tag v \<and> u_url u = u_url v \<and> u_observed u = u_observed v"

lemma same_but_dial_simps [simp]:
  "same_but_dial (u\<lparr>u_cache := c\<rparr>) v = same_but_dial u v"
  "same_but_dial (u\<lparr>u_next := n\<rparr>) v = same_but_dial u v"
  "same_but_dial u u"
  by (simp_all add: same_but_dial_def u_core_def)

lemma resolveDialIPs_frame: "same_but_dial (snd (resolveDialIPs t1 t2 r u)) u"
  by (simp add: resolveDialIPs_def split: option.split prod.split)

lemma dialContext_frame: "same_but_dial (snd (dialContext W t1 t2 r u)) u"
  using resolveDialIPs_frame [of t1 t2 r u]
  by (cases "resolveDialIPs t1 t2 r u"; cases "fst (resolveDialIPs t1 t2 r u)")
    (simp_all add: dialContext_def Let_def)

lemma run_dials_frame: "same_but_dial (run_dials W env u) u"
proof -
  have "same_but_dial (fold (\<lambda>(t1, t2, r) v. snd (dialContext W t1 t2 r v)) ds u) u" for ds
  proof (induction ds arbitrary: u)
    case (Cons d ds)
    then show ?case using dialContext_frame
      by (cases d) (auto simp: same_but_dial_def)
  qed simp
  then show ?thesis by (simp add: run_dials_def)
qed

lemma run_dials_simps [simp]:
  "u_core (run_dials W env u) = u_core u" "u_tag (run_dials W env u) = u_tag u"
  "u_observed (run_dials W env u) = u_observed u"
  using run_dials_frame [of W env u] by (simp_all add: same_but_dial_def)

lemma invalidate_simps [simp]:
  "u_core (invalidateDialIPs u) = u_core u" "u_tag (invalidateDialIPs u) = u_tag u"
  "u_observed (invalidateDialIPs u) = u_observed u"
  by (simp_all add: invalidateDialIPs_def u_core_def)

lemma doh_ops_tag [simp]:
  "u_tag (doh_succeed u) = u_tag u" "u_observed (doh_succeed u) = u_observed u"
  "u_tag (doh_fail raw now p u) = u_tag u" "u_observed (doh_fail raw now p u) = u_observed u"
  "u_tag (snd (doh_acquire now u)) = u_tag u" "u_observed (snd (doh_acquire now u)) = u_observed u"
  by (simp_all add: doh_defs Let_def)

lemma doh_succeed_core: "u_core (doh_succeed u) = (0, 0, zero_time, False)"
  by (simp add: u_core_def doh_succeed_def)

lemma doh_fail_core_cong:
  "u_core u = u_core v \<Longrightarrow> u_core (doh_fail raw now p u) = u_core (doh_fail raw now p v)"
  by (auto simp: u_core_def doh_fail_def doh_park_def Let_def)

section \<open>Answers\<close>

lemma exchangeOnce_valid:
  "exchangeOnce cd nr rt query u = Inr answer \<Longrightarrow>
   msg_id answer = msg_id query \<and> msg_response answer \<and>
   length (msg_question answer) = length (msg_question query)"
  by (auto simp: exchangeOnce_def split: sum.splits option.splits if_splits)

lemma exchange_valid:
  "fst (exchange W cd env query u s) = Inr answer \<Longrightarrow>
   msg_id answer = msg_id query \<and> msg_response answer \<and>
   length (msg_question answer) = length (msg_question query)"
  by (auto simp: exchange_def Let_def dest: exchangeOnce_valid split: prod.splits sum.splits if_splits)

section \<open>Every exchange reports\<close>

text \<open>An exchange, in terms of the backoff.\<close>

lemma exchange_cases:
  obtains (skip) e where "doh_acquire (xe_acquire env) u = ((\<lparr>dp_probe = False\<rparr>, False), u)"
      "exchange W cd env query u s = (Inl e, u,
         doh_record (xe_end env) DohBackoffSkip (time_sub (xe_end env) (xe_start env)) u s)"
  | (failed) p u1 e u2 where "doh_acquire (xe_acquire env) u = ((p, True), u1)"
      "u_core u2 = u_core u1" "u_tag u2 = u_tag u" "u_observed u2 = u_observed u"
      "u_cache u2 = map_option cache_invalidate (u_cache u2)"
      "exchange W cd env query u s = (Inl e, doh_fail (xe_raw env) (xe_report env) p u2,
         doh_record (xe_end env) DohFailure (time_sub (xe_end env) (xe_start env))
           (doh_fail (xe_raw env) (xe_report env) p u2) s)"
  | (answered) p u1 a u2 where "doh_acquire (xe_acquire env) u = ((p, True), u1)"
      "u_core u2 = u_core u1" "u_tag u2 = u_tag u" "u_observed u2 = u_observed u"
      "exchangeOnce cd (xe_newRequest env) (xe_roundTrip env) query u2 = Inr a"
      "exchange W cd env query u s = (Inr a, doh_succeed u2,
         doh_record (xe_end env) DohSuccess (time_sub (xe_end env) (xe_start env)) (doh_succeed u2) s)"
proof -
  obtain p allowed u1 where acq: "doh_acquire (xe_acquire env) u = ((p, allowed), u1)"
    by (metis prod.exhaust)
  have tag: "u_tag u1 = u_tag u" "u_observed u1 = u_observed u"
    using doh_ops_tag(5,6) [of "xe_acquire env" u] acq by simp_all
  show thesis
  proof (cases allowed)
    case False
    then have "u1 = u" and "p = \<lparr>dp_probe = False\<rparr>"
      using acq by (auto simp: doh_acquire_def split: if_splits)
    with acq False show thesis by (intro skip) (simp_all add: exchange_def Let_def)
  next
    case allowed: True
    have idem: "map_option cache_invalidate (map_option cache_invalidate c) = map_option cache_invalidate c" for c
      by (cases c) (simp_all add: cache_invalidate_def)
    show thesis
    proof (cases "exchangeOnce cd (xe_newRequest env) (xe_roundTrip env) query (run_dials W env u1)")
      case (Inl e)
      with acq allowed tag show thesis
        by (intro failed [of p u1 "invalidateDialIPs (run_dials W env u1)" e])
          (simp_all add: exchange_def Let_def, simp add: invalidateDialIPs_def idem)
    next
      case (Inr a)
      with acq allowed tag show thesis
        by (intro answered [of p u1 "run_dials W env u1" a]) (simp_all add: exchange_def Let_def)
    qed
  qed
qed

text \<open>An exchange is one pass of the breaker's protocol: it asks for a permit, and if it
  gets one it reports a success or a failure with it. No path drops the permit, not even that
  of a cancelled context.\<close>

theorem exchange_always_reports:
  "(case exchange W cd env query u s of (r, u', s') \<Rightarrow>
     \<exists>es v. breaker_run doh_ops (u, fl) es (v, fl) \<and> no_abandon es \<and> u_core v = u_core u')"
proof (cases rule: exchange_cases [of env u W cd query s])
  case (skip e)
  then have "breaker_run doh_ops (u, fl) [Begin (xe_acquire env)] (u, fl)"
    by (intro brun_exec_sound) simp
  with skip show ?thesis by (auto simp: no_abandon_def intro!: exI [of _ "[Begin (xe_acquire env)]"])
next
  case (failed p u1 e u2)
  let ?es = "[Begin (xe_acquire env), FinishErr (dp_probe p) (xe_report env) (xe_raw env)]"
  have "breaker_run doh_ops (u, fl) ?es (doh_fail (xe_raw env) (xe_report env) p u1, fl)"
    using failed(1) by (intro brun_exec_sound) simp
  with failed show ?thesis
    by (auto simp: no_abandon_def intro!: exI [of _ ?es] exI doh_fail_core_cong)
next
  case (answered p u1 a u2)
  let ?es = "[Begin (xe_acquire env), FinishOk (dp_probe p)]"
  have "breaker_run doh_ops (u, fl) ?es (doh_succeed u1, fl)"
    using answered(1) by (intro brun_exec_sound) simp
  with answered show ?thesis
    by (auto simp: no_abandon_def doh_succeed_core intro!: exI [of _ ?es] exI)
qed



section \<open>Parking\<close>

lemma jitterDoHBackoff_range:
  "800 * millisecond \<le> jitterDoHBackoff raw step \<and> jitterDoHBackoff raw step \<le> dohBackoffMaximum"
  using exponentialDelay_range [of second dohBackoffMaximum step]
    jitterDelay_range [of "exponentialDelay second dohBackoffMaximum step" dohBackoffMaximum raw]
  by (simp add: backoffs_agree_raw)

text \<open>One failure of a healthy provider is tolerated; the second in a row parks it, and
  so does every failed probe, for at least 0.8 seconds and at most five minutes; a failure
  reported late by an ordinary request does not move a parked provider.\<close>

theorem doh_fail_cases:
  assumes "u_backoffStep u \<noteq> - 1" and "u_failures u \<noteq> - 1"
  shows "(if u_backoffStep u = 0 \<and> u_failures u = 0
          then u_core (doh_fail raw now p u) = (0, 1, u_retryAt u, u_probing u)
          else if u_backoffStep u \<noteq> 0 \<and> \<not> (dp_probe p \<and> u_probing u) then doh_fail raw now p u = u
          else doh_tripped (doh_fail raw now p u) \<and> \<not> u_probing (doh_fail raw now p u) \<and>
            u_backoffStep (doh_fail raw now p u) = u_backoffStep u + 1 \<and>
            now + 800 * millisecond \<le> u_retryAt (doh_fail raw now p u) \<and>
            u_retryAt (doh_fail raw now p u) \<le> now + 5 * minute)"
proof -
  have "u_backoffStep u + 1 \<noteq> 0" using assms by (metis eq_neg_iff_add_eq_0)
  moreover have "\<not> u_failures u + 1 < 2" if "u_failures u \<noteq> 0"
    using that assms(2) unat_plus_1 [of "u_failures u"] by (simp add: word_less_nat_alt unat_eq_zero)
  ultimately show ?thesis
    using jitterDoHBackoff_range [of raw 1] jitterDoHBackoff_range [of raw "u_backoffStep u + 1"]
    by (auto simp: doh_fail_def doh_park_def u_core_def doh_tripped_def Let_def)
qed

definition sample_upstream :: dohUpstream where
  "sample_upstream = (newDoHUpstream ''360'' ''https://doh.360.cn/dns-query'' ''doh.360.cn''
     [''101.226.4.6'', ''218.30.118.6'', ''101.91.111.153'', ''36.99.170.86'', ''106.63.24.74''])
     \<lparr>u_observed := True\<rparr>"

lemmas sample_upstream_defs = sample_upstream_def newDoHUpstream_def newDoHUpstreamWithResolver_def

theorem doh_fail_cases_witness:
  "doh_tripped (doh_fail 0 7 \<lparr>dp_probe = False\<rparr> (sample_upstream\<lparr>u_failures := 1\<rparr>)) \<and>
   u_core (doh_fail 0 7 \<lparr>dp_probe = False\<rparr> sample_upstream) = (0, 1, zero_time, False)"
  using doh_fail_cases [of "sample_upstream\<lparr>u_failures := 1\<rparr>" 0 7 "\<lparr>dp_probe = False\<rparr>"]
    doh_fail_cases [of sample_upstream 0 7 "\<lparr>dp_probe = False\<rparr>"]
  by (simp add: sample_upstream_defs)

section \<open>Accounting\<close>

definition stats_of :: "runtimeState \<Rightarrow> string \<Rightarrow> dohStats" where
  "stats_of s name = (case rs_dohUpstreams s name of None \<Rightarrow> zero_dohStats | Some st \<Rightarrow> st)"

text \<open>What one observation adds to the counters.\<close>

definition counted :: "dohObservation \<Rightarrow> dohStats \<Rightarrow> dohStats \<Rightarrow> bool" where
  "counted result old new \<longleftrightarrow>
     ds_requests new = ds_requests old + 1 \<and>
     ds_successes new = ds_successes old + (if result = DohSuccess then 1 else 0) \<and>
     ds_failures new = ds_failures old + (if result = DohFailure then 1 else 0) \<and>
     ds_backoffSkips new = ds_backoffSkips old + (if result = DohBackoffSkip then 1 else 0)"

lemma observe_counted:
  "counted result (stats_of s name) (stats_of (observeDoHUpstream now name result d retryAt s) name)"
  by (cases result) (simp_all add: counted_def stats_of_def observeDoHUpstream_def Let_def)

lemma observe_retry:
  "ds_retryAtUnixMilli (stats_of (observeDoHUpstream now name result d retryAt s) name) =
     (if retryAt = zero_time then 0 else time_unix_milli retryAt)"
  by (simp add: stats_of_def observeDoHUpstream_def Let_def)

lemma observe_frame:
  "rs_components (observeDoHUpstream now name result d retryAt s) = rs_components s"
  "other \<noteq> name \<Longrightarrow> stats_of (observeDoHUpstream now name result d retryAt s) other = stats_of s other"
  by (simp_all add: stats_of_def observeDoHUpstream_def Let_def)

text \<open>Every exchange of an observed provider is counted exactly once, under its outcome (a
  skip when the backoff refused it), in its own statistics only; the published retry time is
  the provider's retry time after the exchange, and 0 when the provider is not parked.\<close>

theorem exchange_counted_once:
  assumes "u_observed u"
  shows "(case exchange W cd env query u s of (r, u', s') \<Rightarrow>
     counted (if \<not> snd (fst (doh_acquire (xe_acquire env) u)) then DohBackoffSkip
              else case r of Inl e \<Rightarrow> DohFailure | Inr a \<Rightarrow> DohSuccess)
       (stats_of s (u_tag u)) (stats_of s' (u_tag u)) \<and>
     ds_retryAtUnixMilli (stats_of s' (u_tag u)) =
       (if u_retryAt u' = zero_time then 0 else time_unix_milli (u_retryAt u')) \<and>
     rs_components s' = rs_components s \<and>
     (\<forall>other. other \<noteq> u_tag u \<longrightarrow> stats_of s' other = stats_of s other))"
proof (cases rule: exchange_cases [of env u W cd query s])
  case (skip e)
  then show ?thesis using assms
    by (simp add: doh_record_def observe_counted observe_retry observe_frame)
next
  case (failed p u1 e u2)
  then show ?thesis using assms
    by (simp add: doh_record_def observe_counted observe_retry observe_frame)
next
  case (answered p u1 a u2)
  then show ?thesis using assms
    by (simp add: doh_record_def observe_counted observe_retry observe_frame)
qed

text \<open>Inputs of the witnesses: a codec that decodes every body to one reply, and an exchange
  whose round trip answers, or does not.\<close>

definition sample_query :: dnsmsg where
  "sample_query = \<lparr>msg_id = 42, msg_response = False, msg_rcode = 0,
     msg_question = [''example.com.''], msg_answer = []\<rparr>"

definition sample_reply :: dnsmsg where
  "sample_reply = \<lparr>msg_id = 0, msg_response = True, msg_rcode = 0,
     msg_question = [''example.com.''],
     msg_answer = [\<lparr>rr_type = TypeA, rr_a = Some ''93.184.216.34''\<rparr>]\<rparr>"

definition sample_codec :: codec where
  "sample_codec = \<lparr>cd_pack = (\<lambda>_. Inr []), cd_unpack = (\<lambda>_. Inr sample_reply)\<rparr>"

definition sample_env :: "gotime \<Rightarrow> bool \<Rightarrow> exchange_env" where
  "sample_env t ok =
     \<lparr>xe_start = t, xe_acquire = t, xe_report = t + second, xe_end = t + second, xe_dials = [],
      xe_newRequest = None,
      xe_roundTrip = (\<lambda>_. if ok then Inr \<lparr>hr_status = 200, hr_body = [], hr_readErr = None\<rparr>
        else Inl CtxDeadlineExceeded),
      xe_raw = 0\<rparr>"

lemmas sample_exchange_defs = sample_query_def sample_reply_def sample_codec_def sample_env_def

theorem exchange_counted_once_witness:
  "ds_failures (stats_of (snd (snd (exchange 64 sample_codec (sample_env 9 False) sample_query
     sample_upstream newRuntimeState))) ''360'') = 1"
  using exchange_counted_once [where u = sample_upstream and W = 64 and cd = sample_codec
      and env = "sample_env 9 False" and query = sample_query and s = newRuntimeState]
  by (simp add: sample_upstream_defs sample_exchange_defs exchange_def exchangeOnce_def doh_acquire_def
      run_dials_def counted_def stats_of_def newRuntimeState_def zero_dohStats_def Let_def)

lemma exchange_accounts_balanced:
  "accounts_balanced s \<Longrightarrow> accounts_balanced (snd (snd (exchange W cd env query u s)))"
  by (cases rule: exchange_cases [of env u W cd query s]) (simp_all add: doh_record_def)

section \<open>Dialling\<close>

lemma int_of_uint64_small: "0 < W \<Longrightarrow> W \<le> 64 \<Longrightarrow> uint w < 2 ^ (W - 1) \<Longrightarrow> int_of_uint64 W w = uint w"
  unfolding int_of_uint64_def
  by (rule signed_take_bit_int_eq_self) (auto intro: order_trans [of _ 0])

lemma smod_nonneg: "0 \<le> a \<Longrightarrow> 0 < b \<Longrightarrow> (a::int) smod b = a mod b"
  by (simp add: signed_modulo_int_def sgn_if split: if_splits)

text \<open>The dialer of a provider with fixed addresses uses them in turn: dial number \<open>k\<close>
  goes to address \<open>k\<close> modulo their number, as long as \<open>k\<close> fits an \<open>int\<close> of the target.\<close>

theorem dial_round_robin:
  assumes "W = 32 \<or> W = 64" and "k < 2 ^ (W - 1)" and "u_next u = of_nat k"
    and "u_cache u = None" and "u_dialIPs u \<noteq> []"
  shows "dialContext W t1 t2 resolved u =
    (DialTo (joinHostPort (u_dialIPs u ! (k mod length (u_dialIPs u))) ''443''),
     u\<lparr>u_next := of_nat (Suc k)\<rparr>)"
proof -
  have k: "k < 2 ^ 63" using assms(1,2) by auto
  then have "uint (u_next u) = int k"
    using assms(3) by (simp add: uint_nat unat_of_nat)
  moreover have "int k < 2 ^ (W - 1)" using assms(2) by (metis of_nat_less_iff of_nat_numeral of_nat_power)
  ultimately have "int_of_uint64 W (u_next u) = int k"
    using assms(1) by (intro int_of_uint64_small [THEN trans]) auto
  then have "int_of_uint64 W (u_next u) smod int (length (u_dialIPs u)) = int (k mod length (u_dialIPs u))"
    using assms(5) by (simp add: smod_nonneg zmod_int)
  then show ?thesis
    using assms(3-5) by (simp add: dialContext_def resolveDialIPs_def Let_def)
qed

theorem dial_round_robin_witness:
  "fst (dialContext 64 0 0 (Inr []) (sample_upstream\<lparr>u_next := 6\<rparr>)) = DialTo ''218.30.118.6:443''"
  using dial_round_robin [of 64 6 "sample_upstream\<lparr>u_next := 6\<rparr>" 0 0 "Inr []"]
  by (simp add: sample_upstream_defs joinHostPort_def)

text \<open>Beyond that the conversion to \<open>int\<close> turns the counter negative, the remainder with
  it, and the index out of range panics: on a 32-bit target dial number \<open>2^31\<close> of the
  five-address provider crashes.\<close>

theorem dial_counter_overflow_panics:
  "fst (dialContext 32 t1 t2 resolved (sample_upstream\<lparr>u_next := 2 ^ 31\<rparr>)) = DialPanic"
  by (simp add: dialContext_def resolveDialIPs_def sample_upstream_defs int_of_uint64_def Let_def
      signed_modulo_int_def signed_take_bit_eq_if_negative)

end

