(* ===== verification/DoHBridge.thy ===== *)
theory DoHBridge
  imports DoHSafety
begin

text \<open>
  cmd/veladns/dohbridge.go, the bridge: the provider list (\<open>autoDoHUpstreams\<close>,
  \<open>directDoHUpstreams\<close>, \<open>selectDoHUpstreams\<close> with its startup probes), \<open>ServeDNS\<close> with its
  rate-limited warning, and the start and shutdown of the listener.
\<close>

section \<open>The providers\<close>

definition autoDoHUpstreams :: "bool \<Rightarrow> string \<Rightarrow> dohUpstream list" where
  "autoDoHUpstreams autoEnabled autoDNS =
     (if \<not> autoEnabled then []
      else [newBootstrappedDoHUpstream ''nextdns-via-auto-forward'' ''https://dns.nextdns.io''
              ''dns.nextdns.io'' autoDNS,
            newBootstrappedDoHUpstream ''quad9-via-auto-forward'' ''https://dns.quad9.net/dns-query''
              ''dns.quad9.net'' autoDNS])"

definition directDoHUpstreams :: "dohUpstream list" where
  "directDoHUpstreams =
     [newDoHUpstream ''cloudflare'' ''https://cloudflare-dns.com/dns-query'' ''cloudflare-dns.com''
        [''104.16.248.249'', ''104.16.249.249''],
      newDoHUpstream ''360'' ''https://doh.360.cn/dns-query'' ''doh.360.cn''
        [''101.226.4.6'', ''218.30.118.6'', ''101.91.111.153'', ''36.99.170.86'', ''106.63.24.74'']]"

definition attachDoHObservation :: "dohUpstream \<Rightarrow> runtimeState \<Rightarrow> dohUpstream \<times> runtimeState" where
  "attachDoHObservation u s = (u\<lparr>u_observed := True\<rparr>, registerDoHUpstream (u_tag u) s)"

text \<open>The startup probe: one exchange of a fixed query, whose answer must carry an address and
  a signature. \<open>query\<close> is the message the miekg/dns calls build.\<close>

definition check_probe :: "(int \<Rightarrow> string) \<Rightarrow> dnsmsg \<Rightarrow> goerr option" where
  "check_probe rcodeToString response =
     (if msg_rcode response \<noteq> RcodeSuccess
      then Some (ErrNew (''probe returned '' @ rcodeToString (msg_rcode response)))
      else if \<not> list_ex (\<lambda>r. rr_type r = TypeA) (msg_answer response)
      then Some (ErrNew ''probe returned no IPv4 address'')
      else if \<not> list_ex (\<lambda>r. rr_type r = TypeRRSIG) (msg_answer response)
      then Some (ErrNew ''probe stripped DNSSEC signatures'')
      else None)"

definition probeDoHUpstream ::
  "nat \<Rightarrow> codec \<Rightarrow> (int \<Rightarrow> string) \<Rightarrow> exchange_env \<Rightarrow> dnsmsg \<Rightarrow> dohUpstream \<Rightarrow> runtimeState \<Rightarrow>
   goerr option \<times> dohUpstream \<times> runtimeState" where
  "probeDoHUpstream W cd rcodeToString env query u s =
     (case exchange W cd env query u s of
        (Inl e, u', s') \<Rightarrow> (Some e, u', s')
      | (Inr response, u', s') \<Rightarrow> (check_probe rcodeToString response, u', s'))"

datatype bridge_log =
    LogUnavailableAtStartup string goerr
  | LogEnabledThroughAutoForward string

fun probe_all ::
  "nat \<Rightarrow> codec \<Rightarrow> (int \<Rightarrow> string) \<Rightarrow> (string \<Rightarrow> exchange_env) \<Rightarrow> dnsmsg \<Rightarrow> dohUpstream list \<Rightarrow>
   runtimeState \<Rightarrow> dohUpstream list \<times> runtimeState \<times> bridge_log list" where
  "probe_all W cd rcodeToString envs query [] s = ([], s, [])"
| "probe_all W cd rcodeToString envs query (u0 # us) s0 =
     (case attachDoHObservation u0 s0 of (u, s) \<Rightarrow>
      (case probeDoHUpstream W cd rcodeToString (envs (u_tag u)) query u s of (err, u', s') \<Rightarrow>
        (case probe_all W cd rcodeToString envs query us s' of (us', s'', log) \<Rightarrow>
          (u' # us', s'',
           (case err of Some e \<Rightarrow> LogUnavailableAtStartup (u_tag u) e
                      | None \<Rightarrow> LogEnabledThroughAutoForward (u_tag u)) # log))))"

fun attach_all :: "dohUpstream list \<Rightarrow> runtimeState \<Rightarrow> dohUpstream list \<times> runtimeState" where
  "attach_all [] s = ([], s)"
| "attach_all (u # us) s =
     (case attachDoHObservation u s of (u', s') \<Rightarrow>
      (case attach_all us s' of (us', s'') \<Rightarrow> (u' # us', s'')))"

definition selectDoHUpstreams ::
  "nat \<Rightarrow> codec \<Rightarrow> (int \<Rightarrow> string) \<Rightarrow> (string \<Rightarrow> exchange_env) \<Rightarrow> dnsmsg \<Rightarrow> bool \<Rightarrow> string \<Rightarrow>
   runtimeState \<Rightarrow> dohUpstream list \<times> runtimeState \<times> bridge_log list" where
  "selectDoHUpstreams W cd rcodeToString envs query autoEnabled autoDNS s =
     (case probe_all W cd rcodeToString envs query (autoDoHUpstreams autoEnabled autoDNS) s of
        (us, s', log) \<Rightarrow>
          (case attach_all directDoHUpstreams s' of (vs, s'') \<Rightarrow> (us @ vs, s'', log)))"

section \<open>Serving\<close>

record dohBridge =
  br_upstreams :: "dohUpstream list"
  br_lastWarn :: gotime
  br_warnings :: "(gotime \<times> goerr option) list"
  br_closed :: bool

text \<open>\<open>t1\<close> is the time read by \<open>time.Since\<close>, \<open>t2\<close> the one stored.\<close>

definition warnUnavailable :: "gotime \<Rightarrow> gotime \<Rightarrow> goerr option \<Rightarrow> dohBridge \<Rightarrow> dohBridge" where
  "warnUnavailable t1 t2 err b =
     (if time_sub t1 (br_lastWarn b) < 30 * second then b
      else b\<lparr>br_lastWarn := t2, br_warnings := br_warnings b @ [(t2, err)]\<rparr>)"

text \<open>The exchange of provider \<open>k\<close> and the time at which \<open>ctx.Err\<close> is read after it.\<close>

record serve_env =
  se_exchange :: exchange_env
  se_after :: gotime

abbreviation (input) serveTimeout :: duration where "serveTimeout \<equiv> 5 * second"

fun serve_loop ::
  "nat \<Rightarrow> codec \<Rightarrow> gotime \<Rightarrow> dnsmsg \<Rightarrow> (nat \<Rightarrow> serve_env) \<Rightarrow> nat \<Rightarrow> dohUpstream list \<Rightarrow> runtimeState \<Rightarrow>
   goerr option \<Rightarrow> dnsmsg option \<times> goerr option \<times> dohUpstream list \<times> runtimeState" where
  "serve_loop W cd start query envs k [] s lastErr = (None, lastErr, [], s)"
| "serve_loop W cd start query envs k (u # us) s lastErr =
     (case exchange W cd (se_exchange (envs k)) query u s of
        (Inr response, u', s') \<Rightarrow> (Some response, lastErr, u' # us, s')
      | (Inl e, u', s') \<Rightarrow>
          if start + serveTimeout \<le> se_after (envs k)
          then (None, Some CtxDeadlineExceeded, u' # us, s')
          else (case serve_loop W cd start query envs (Suc k) us s' (Some e) of
                  (r, err, us', s'') \<Rightarrow> (r, err, u' # us', s'')))"

text \<open>\<open>ServeDNS\<close> writes exactly one message, the first component of the result.
  \<open>setRcode query rcode\<close> is the error reply miekg/dns builds.\<close>

definition serveDNS ::
  "nat \<Rightarrow> codec \<Rightarrow> (dnsmsg \<Rightarrow> int \<Rightarrow> dnsmsg) \<Rightarrow> gotime \<Rightarrow> (nat \<Rightarrow> serve_env) \<Rightarrow> gotime \<Rightarrow> gotime \<Rightarrow>
   dnsmsg \<Rightarrow> dohBridge \<Rightarrow> runtimeState \<Rightarrow> dnsmsg \<times> dohBridge \<times> runtimeState" where
  "serveDNS W cd setRcode start envs t1 t2 query b s =
     (case serve_loop W cd start query envs 0 (br_upstreams b) s None of
        (Some response, err, us, s') \<Rightarrow> (response, b\<lparr>br_upstreams := us\<rparr>, s')
      | (None, err, us, s') \<Rightarrow>
          (setRcode query RcodeServerFailure, warnUnavailable t1 t2 err (b\<lparr>br_upstreams := us\<rparr>), s'))"

section \<open>Start and shutdown\<close>

datatype bridge_start_error = ListenUDP goerr | ListenTCP goerr

definition startDoHBridge ::
  "nat \<Rightarrow> codec \<Rightarrow> (int \<Rightarrow> string) \<Rightarrow> (string \<Rightarrow> exchange_env) \<Rightarrow> dnsmsg \<Rightarrow> goerr option \<Rightarrow>
   goerr option \<Rightarrow> bool \<Rightarrow> string \<Rightarrow> runtimeState \<Rightarrow> (bridge_start_error + dohBridge) \<times> runtimeState" where
  "startDoHBridge W cd rcodeToString envs query listenUDP listenTCP autoEnabled autoDNS s =
     (case selectDoHUpstreams W cd rcodeToString envs query autoEnabled autoDNS s of (us, s', log) \<Rightarrow>
        (case listenUDP of
           Some e \<Rightarrow> (Inl (ListenUDP e), s')
         | None \<Rightarrow>
             (case listenTCP of
                Some e \<Rightarrow> (Inl (ListenTCP e), s')
              | None \<Rightarrow>
                  (Inr \<lparr>br_upstreams = us, br_lastWarn = zero_time, br_warnings = [], br_closed = False\<rparr>,
                   update ''doh_bridge'' (set_up True) s'))))"

text \<open>A listener goroutine ends with \<open>err\<close>; the shutdown goroutine runs when the context is
  done. \<open>close\<close> shuts the servers down once.\<close>

definition bridge_server_stopped :: "goerr option \<Rightarrow> bool \<Rightarrow> runtimeState \<Rightarrow> runtimeState" where
  "bridge_server_stopped err ctxDone s =
     (if err \<noteq> None \<and> \<not> ctxDone then update ''doh_bridge'' (set_up False) s else s)"

definition bridge_close :: "dohBridge \<Rightarrow> dohBridge" where
  "bridge_close b = b\<lparr>br_closed := True\<rparr>"

definition bridge_shutdown :: "dohBridge \<Rightarrow> runtimeState \<Rightarrow> dohBridge \<times> runtimeState" where
  "bridge_shutdown b s = (bridge_close b, update ''doh_bridge'' (set_up False) s)"

end
