(* ===== verification/BridgeSafety.thy ===== *)
theory BridgeSafety
  imports DoHBridge
begin

text \<open>
  What the bridge guarantees: the order of the providers, the reply of \<open>ServeDNS\<close>, the
  accounting over whole queries, and the rate limit of its warning.
\<close>

section \<open>The result of an exchange does not depend on the statistics\<close>

lemma exchange_state_indep:
  "fst (exchange W cd env query u s) = fst (exchange W cd env query u s')"
  "fst (snd (exchange W cd env query u s)) = fst (snd (exchange W cd env query u s'))"
  by (simp_all add: exchange_def Let_def split: prod.split sum.split)

definition exchange_result :: "nat \<Rightarrow> codec \<Rightarrow> exchange_env \<Rightarrow> dnsmsg \<Rightarrow> dohUpstream \<Rightarrow> goerr + dnsmsg" where
  "exchange_result W cd env query u = fst (exchange W cd env query u newRuntimeState)"

lemma exchange_result: "exchange W cd env query u s = (r, u', s') \<Longrightarrow> exchange_result W cd env query u = r"
  using exchange_state_indep(1) [of W cd env query u newRuntimeState s] by (simp add: exchange_result_def)

lemma exchange_tag: "exchange W cd env query u s = (r, u', s') \<Longrightarrow> u_tag u' = u_tag u \<and> u_observed u' = u_observed u"
  by (cases rule: exchange_cases [of env u W cd query s]) auto

section \<open>The loop over the providers\<close>

lemma serve_loop_reply:
  "serve_loop W cd start query envs k us s err = (Some a, err', us', s') \<Longrightarrow>
   \<exists>j<length us. exchange_result W cd (se_exchange (envs (k + j))) query (us ! j) = Inr a"
proof (induction us arbitrary: k s err us')
  case (Cons u us)
  obtain r u' t where x: "exchange W cd (se_exchange (envs k)) query u s = (r, u', t)"
    by (metis prod.exhaust)
  show ?case
  proof (cases r)
    case (Inr b)
    with Cons.prems x exchange_result [OF x] show ?thesis by (intro exI [of _ 0]) auto
  next
    case (Inl e)
    with Cons.prems x obtain vs where
      "serve_loop W cd start query envs (Suc k) us t (Some e) = (Some a, err', vs, s')"
      by (auto split: if_splits prod.splits)
    from Cons.IH [OF this] obtain j where "j < length us"
      "exchange_result W cd (se_exchange (envs (Suc k + j))) query (us ! j) = Inr a" by blast
    then show ?thesis by (intro exI [of _ "Suc j"]) simp
  qed
qed simp

lemma serve_loop_first:
  "i < length us \<Longrightarrow>
   \<forall>j<i. (\<exists>e. exchange_result W cd (se_exchange (envs (k + j))) query (us ! j) = Inl e) \<and>
     se_after (envs (k + j)) < start + serveTimeout \<Longrightarrow>
   exchange_result W cd (se_exchange (envs (k + i))) query (us ! i) = Inr a \<Longrightarrow>
   \<exists>err' us' s'. serve_loop W cd start query envs k us s err = (Some a, err', us', s') \<and>
     length us' = length us \<and> drop (Suc i) us' = drop (Suc i) us"
proof (induction us arbitrary: i k s err)
  case (Cons u us)
  obtain r u' t where x: "exchange W cd (se_exchange (envs k)) query u s = (r, u', t)"
    by (metis prod.exhaust)
  show ?case
  proof (cases i)
    case 0
    with Cons.prems exchange_result [OF x] x show ?thesis by simp
  next
    case (Suc i')
    from Cons.prems(2) Suc have "(\<exists>e. exchange_result W cd (se_exchange (envs k)) query u = Inl e) \<and>
        se_after (envs k) < start + serveTimeout"
      by (metis add.right_neutral nth_Cons_0 zero_less_Suc)
    then obtain e where r: "r = Inl e" "se_after (envs k) < start + serveTimeout"
      using exchange_result [OF x] by auto
    have "\<forall>j<i'. (\<exists>e. exchange_result W cd (se_exchange (envs (Suc k + j))) query (us ! j) = Inl e) \<and>
        se_after (envs (Suc k + j)) < start + serveTimeout"
      using Cons.prems(2) Suc by (metis Suc_less_eq add_Suc add_Suc_right nth_Cons_Suc)
    then have "\<exists>err' us' s'. serve_loop W cd start query envs (Suc k) us t (Some e) = (Some a, err', us', s') \<and>
        length us' = length us \<and> drop (Suc i') us' = drop (Suc i') us"
      using Cons.prems Suc by (intro Cons.IH) auto
    with x r Suc show ?thesis by auto
  qed
qed simp

lemma serve_loop_accounts:
  "serve_loop W cd start query envs k us s err = (r, err', us', s') \<Longrightarrow> accounts_balanced s \<Longrightarrow>
   accounts_balanced s' \<and> map u_tag us' = map u_tag us"
proof (induction us arbitrary: k s err us')
  case (Cons u us)
  obtain x u' t where x: "exchange W cd (se_exchange (envs k)) query u s = (x, u', t)"
    by (metis prod.exhaust)
  have t: "accounts_balanced t" "u_tag u' = u_tag u"
    using exchange_accounts_balanced [OF Cons.prems(2), of W cd "se_exchange (envs k)" query u]
      exchange_tag [OF x] x by simp_all
  show ?case
  proof (cases x)
    case (Inr b)
    with Cons.prems x t show ?thesis by auto
  next
    case (Inl e)
    with Cons.prems x t Cons.IH [of "Suc k" t "Some e"] show ?thesis
      by (auto split: if_splits prod.splits)
  qed
qed simp

section \<open>ServeDNS\<close>

text \<open>C4. Every query gets exactly one reply: either the answer of a provider whose exchange
  succeeded, with the query's id, the response bit and as many questions as were asked, or
  SERVFAIL. The bridge never answers from anything else.\<close>

theorem serve_reply:
  "(case serveDNS W cd setRcode start envs t1 t2 query b s of (reply, b', s') \<Rightarrow>
     reply = setRcode query RcodeServerFailure \<or>
     (\<exists>j<length (br_upstreams b).
        exchange_result W cd (se_exchange (envs j)) query (br_upstreams b ! j) = Inr reply) \<and>
     msg_id reply = msg_id query \<and> msg_response reply \<and>
     length (msg_question reply) = length (msg_question query))"
proof -
  obtain r err us s' where loop:
    "serve_loop W cd start query envs 0 (br_upstreams b) s None = (r, err, us, s')"
    by (metis prod.exhaust)
  show ?thesis
  proof (cases r)
    case None
    with loop show ?thesis by (simp add: serveDNS_def)
  next
    case (Some a)
    with serve_loop_reply [of W cd start query envs 0 "br_upstreams b" s None a err us s'] loop
    obtain j where j: "j < length (br_upstreams b)"
      "exchange_result W cd (se_exchange (envs j)) query (br_upstreams b ! j) = Inr a" by auto
    then have "fst (exchange W cd (se_exchange (envs j)) query (br_upstreams b ! j) newRuntimeState) = Inr a"
      by (simp add: exchange_result_def)
    with exchange_valid [OF this] loop Some j show ?thesis by (auto simp: serveDNS_def)
  qed
qed

text \<open>C13. The providers are tried in order and the first success is the reply: when all before
  provider \<open>i\<close> fail within the time limit and \<open>i\<close> answers, the client gets that answer, the
  later providers are not contacted, and no warning is logged.\<close>

theorem serve_first_success:
  assumes "i < length (br_upstreams b)"
    and "\<forall>j<i. (\<exists>e. exchange_result W cd (se_exchange (envs j)) query (br_upstreams b ! j) = Inl e) \<and>
      se_after (envs j) < start + serveTimeout"
    and "exchange_result W cd (se_exchange (envs i)) query (br_upstreams b ! i) = Inr a"
  shows "(case serveDNS W cd setRcode start envs t1 t2 query b s of (reply, b', s') \<Rightarrow>
     reply = a \<and> length (br_upstreams b') = length (br_upstreams b) \<and>
     drop (Suc i) (br_upstreams b') = drop (Suc i) (br_upstreams b) \<and>
     br_warnings b' = br_warnings b)"
proof -
  obtain err us s' where "serve_loop W cd start query envs 0 (br_upstreams b) s None = (Some a, err, us, s')"
    "length us = length (br_upstreams b)" "drop (Suc i) us = drop (Suc i) (br_upstreams b)"
    using serve_loop_first [of i "br_upstreams b" W cd envs 0 query start a s None] assms by auto
  then show ?thesis by (simp add: serveDNS_def)
qed

definition sample_bridge :: dohBridge where
  "sample_bridge = \<lparr>br_upstreams = [sample_upstream, sample_upstream\<lparr>u_tag := ''b''\<rparr>],
     br_lastWarn = zero_time, br_warnings = [], br_closed = False\<rparr>"

text \<open>The first provider fails after one second, the second answers.\<close>

definition sample_serve :: "nat \<Rightarrow> serve_env" where
  "sample_serve k = \<lparr>se_exchange = sample_env 9 (0 < k), se_after = second\<rparr>"

lemmas sample_run_defs = exchange_result_def exchange_def exchangeOnce_def doh_acquire_def run_dials_def
  sample_upstream_defs sample_exchange_defs doh_record_def

theorem serve_first_success_witness:
  "fst (serveDNS 64 sample_codec (\<lambda>q _. q) 0 sample_serve 9 9 sample_query sample_bridge newRuntimeState) =
     sample_reply\<lparr>msg_id := 42\<rparr>"
  using serve_first_success [where i = 1 and b = sample_bridge and W = 64 and cd = sample_codec
      and envs = sample_serve and start = 0 and query = sample_query and a = "sample_reply\<lparr>msg_id := 42\<rparr>"
      and setRcode = "\<lambda>q _. q" and ?t1.0 = 9 and ?t2.0 = 9 and s = newRuntimeState]
  by (simp add: sample_bridge_def sample_serve_def sample_run_defs Let_def split: prod.splits)

text \<open>Across whole queries the accounts stay balanced, for every provider: the requests are
  the successes, the failures and the skips, to the last one; and the provider list keeps its
  order.\<close>

theorem serve_accounts:
  assumes "accounts_balanced s"
  shows "(case serveDNS W cd setRcode start envs t1 t2 query b s of (reply, b', s') \<Rightarrow>
     accounts_balanced s' \<and> map u_tag (br_upstreams b') = map u_tag (br_upstreams b))"
proof -
  obtain r err us s' where loop:
    "serve_loop W cd start query envs 0 (br_upstreams b) s None = (r, err, us, s')"
    by (metis prod.exhaust)
  from serve_loop_accounts [OF this assms] loop show ?thesis
    by (cases r) (simp_all add: serveDNS_def warnUnavailable_def)
qed

theorem serve_accounts_witness:
  "accounts_balanced (snd (snd (serveDNS 64 sample_codec (\<lambda>q _. q) 0 sample_serve 9 9 sample_query
     sample_bridge newRuntimeState)))"
  using serve_accounts [where s = newRuntimeState and W = 64 and cd = sample_codec and start = 0
      and setRcode = "\<lambda>q _. q" and envs = sample_serve and ?t1.0 = 9 and ?t2.0 = 9
      and query = sample_query and b = sample_bridge]
  by (simp add: split_beta)

section \<open>The warning\<close>

text \<open>Warnings requested at times \<open>(t1, t2)\<close>, one after the other.\<close>

fun warn_all :: "(gotime \<times> gotime \<times> goerr option) list \<Rightarrow> dohBridge \<Rightarrow> dohBridge" where
  "warn_all [] b = b"
| "warn_all ((t1, t2, err) # ws) b = warn_all ws (warnUnavailable t1 t2 err b)"

definition spaced :: "dohBridge \<Rightarrow> bool" where
  "spaced b \<longleftrightarrow>
     sorted_wrt (\<lambda>v w. fst v + 30 * second \<le> fst w) (br_warnings b) \<and>
     (\<forall>w\<in>set (br_warnings b). fst w \<le> br_lastWarn b)"

lemma warn_spaced: "spaced b \<Longrightarrow> t1 \<le> t2 \<Longrightarrow> spaced (warnUnavailable t1 t2 err b)"
  by (fastforce simp: spaced_def warnUnavailable_def time_sub_def sorted_wrt_append split: if_splits)

text \<open>However many queries fail, two warnings of the bridge are at least thirty seconds
  apart.\<close>

theorem warnings_rate_limited:
  assumes "list_all (\<lambda>(t1, t2, err). t1 \<le> t2) ws" and "br_warnings b = []"
  shows "sorted_wrt (\<lambda>v w. fst v + 30 * second \<le> fst w) (br_warnings (warn_all ws b))"
proof -
  have "spaced b \<Longrightarrow> list_all (\<lambda>(t1, t2, err). t1 \<le> t2) ws \<Longrightarrow> spaced (warn_all ws b)"
    by (induction ws b rule: warn_all.induct) (auto intro: warn_spaced)
  then show ?thesis using assms by (simp add: spaced_def)
qed

theorem warnings_rate_limited_witness:
  "map fst (br_warnings (warn_all [(31 * second, 32 * second, None), (33 * second, 34 * second, None),
     (90 * second, 91 * second, None)] sample_bridge)) = [32 * second, 91 * second] \<and>
   sorted_wrt (\<lambda>v w. fst v + 30 * second \<le> fst w) (br_warnings (warn_all [(31 * second, 32 * second, None),
     (33 * second, 34 * second, None), (90 * second, 91 * second, None)] sample_bridge))"
  using warnings_rate_limited [of "[(31 * second, 32 * second, None), (33 * second, 34 * second, None),
     (90 * second, 91 * second, None)]" sample_bridge]
  by (simp add: sample_bridge_def warnUnavailable_def time_sub_def)

section \<open>The provider list\<close>

lemma probe_all_tags:
  "probe_all W cd rcodes envs query us s = (us', s', log) \<Longrightarrow>
   map u_tag us' = map u_tag us \<and> list_all u_observed us'"
proof (induction us arbitrary: s us' log)
  case (Cons u us)
  obtain r u' t where x: "exchange W cd (envs (u_tag u)) query (u\<lparr>u_observed := True\<rparr>)
      (registerDoHUpstream (u_tag u) s) = (r, u', t)"
    by (metis prod.exhaust)
  from exchange_tag [OF x] have u': "u_tag u' = u_tag u" "u_observed u'" by simp_all
  with Cons.prems Cons.IH [of t] x show ?case
    by (cases r) (auto simp: attachDoHObservation_def probeDoHUpstream_def split: prod.splits)
qed auto

lemma attach_all_tags:
  "attach_all us s = (us', s') \<Longrightarrow> map u_tag us' = map u_tag us \<and> list_all u_observed us'"
  by (induction us arbitrary: s us' s') (fastforce simp: attachDoHObservation_def split: prod.splits)+

text \<open>A startup probe never removes a provider: whatever the probes return, the bridge
  serves from the same list in the same order, the two providers behind AUTO_FORWARD first
  when it is enabled, then the two direct ones, and every one of them is observed.\<close>

theorem provider_list_fixed:
  "(case selectDoHUpstreams W cd rcodes envs query autoEnabled autoDNS s of (us, s', log) \<Rightarrow>
     map u_tag us =
       (if autoEnabled then [''nextdns-via-auto-forward'', ''quad9-via-auto-forward''] else []) @
       [''cloudflare'', ''360''] \<and>
     list_all u_observed us)"
proof -
  obtain us s1 log where p: "probe_all W cd rcodes envs query (autoDoHUpstreams autoEnabled autoDNS) s = (us, s1, log)"
    by (metis prod.exhaust)
  obtain vs s2 where a: "attach_all directDoHUpstreams s1 = (vs, s2)" by fastforce
  from probe_all_tags [OF p] attach_all_tags [OF a] p a show ?thesis
    by (simp add: selectDoHUpstreams_def autoDoHUpstreams_def directDoHUpstreams_def
        newBootstrappedDoHUpstream_def newDoHUpstream_def newDoHUpstreamWithResolver_def)
qed

end
