(* ===== verification/BridgeTypes.thy ===== *)
theory BridgeTypes
  imports BridgeSafety
begin

text \<open>
  The well-formedness of the bridge's providers (cmd/veladns/dohbridge.go): the invariant between
  the fields of a \<open>dohUpstream\<close> that its constructors establish and every exchange preserves.
\<close>

text \<open>A provider either has fixed dial addresses or resolves them; out of backoff it has no retry
  time and less than two failures in a row; between exchanges no probe holds the half-open
  slot. \<open>n\<close> bounds the backoff step, which only a failing exchange increments.\<close>

definition provider_wf :: "nat \<Rightarrow> dohUpstream \<Rightarrow> bool" where
  "provider_wf n u \<longleftrightarrow>
     (u_cache u = None \<longleftrightarrow> u_dialIPs u \<noteq> []) \<and> (u_cache u = None \<longleftrightarrow> u_bootstrapDNS u = []) \<and>
     unat (u_backoffStep u) \<le> n \<and> \<not> u_probing u \<and>
     (u_backoffStep u = 0 \<longrightarrow> u_retryAt u = zero_time \<and> u_failures u < dohFailureThreshold)"

definition bridge_wf :: "nat \<Rightarrow> dohUpstream list \<Rightarrow> bool" where
  "bridge_wf n us \<longleftrightarrow> list_all (provider_wf n) us \<and> distinct (map u_tag us) \<and> list_all u_observed us"

definition dial_shape :: "dohUpstream \<Rightarrow> bool \<times> string list \<times> string" where
  "dial_shape u = (u_cache u = None, u_dialIPs u, u_bootstrapDNS u)"

lemma dialContext_shape: "dial_shape (snd (dialContext W t1 t2 r u)) = dial_shape u"
  by (auto simp: dialContext_def resolveDialIPs_def dial_shape_def Let_def split: option.splits sum.splits prod.splits)

lemma run_dials_shape: "dial_shape (run_dials W env u) = dial_shape u"
proof -
  have "dial_shape (fold (\<lambda>(t1, t2, r) v. snd (dialContext W t1 t2 r v)) ds u) = dial_shape u" for ds
    by (induction ds arbitrary: u) (simp_all add: dialContext_shape split: prod.split)
  then show ?thesis by (simp add: run_dials_def)
qed

lemma ops_shape [simp]:
  "dial_shape (doh_fail raw now p u) = dial_shape u" "dial_shape (doh_succeed u) = dial_shape u"
  "dial_shape (invalidateDialIPs u) = dial_shape u" "dial_shape (snd (doh_acquire now u)) = dial_shape u"
  by (simp_all add: dial_shape_def doh_defs invalidateDialIPs_def Let_def)

lemma acquire_shape: "doh_acquire now u = (pa, u') \<Longrightarrow> dial_shape u' = dial_shape u"
  using ops_shape(4) [of now u] by simp

lemma exchange_shape: "exchange W cd env query u s = (r, u', s') \<Longrightarrow> dial_shape u' = dial_shape u"
  by (auto simp: exchange_def Let_def run_dials_shape dest: acquire_shape split: prod.splits sum.splits if_splits)

definition core_wf :: "nat \<Rightarrow> uint \<times> uint \<times> gotime \<times> bool \<Rightarrow> bool" where
  "core_wf n c \<longleftrightarrow>
     (case c of (step, failures, retryAt, probing) \<Rightarrow> unat step \<le> n \<and> \<not> probing \<and>
        (step = 0 \<longrightarrow> retryAt = zero_time \<and> failures < dohFailureThreshold))"

definition shape_wf :: "bool \<times> string list \<times> string \<Rightarrow> bool" where
  "shape_wf sh \<longleftrightarrow> (case sh of (direct, ips, server) \<Rightarrow> (direct \<longleftrightarrow> ips \<noteq> []) \<and> (direct \<longleftrightarrow> server = []))"

lemma provider_wf_parts: "provider_wf n u \<longleftrightarrow> shape_wf (dial_shape u) \<and> core_wf n (u_core u)"
  by (auto simp: provider_wf_def dial_shape_def u_core_def core_wf_def shape_wf_def)

lemma core_wf_mono: "core_wf n c \<Longrightarrow> n \<le> m \<Longrightarrow> core_wf m c"
  by (auto simp: core_wf_def split: prod.splits)

lemma core_succeed: "core_wf n (u_core (doh_succeed u))"
  by (simp add: doh_succeed_core core_wf_def)

lemma unat_inc:
  assumes "unat (w::uint) \<le> n" and "Suc n < 2 ^ 64"
  shows "unat (w + 1) = Suc (unat w) \<and> w + 1 \<noteq> 0"
proof -
  from assms have "unat (w + 1) = Suc (unat w)" by (simp add: unat_word_ariths)
  then show ?thesis by (metis nat.distinct(1) unat_0)
qed

lemma core_fail:
  assumes "core_wf n (u_core u)" and "Suc n < 2 ^ 64" and "doh_acquire now u = ((p, True), u1)"
    and "u_core u2 = u_core u1"
  shows "core_wf (Suc n) (u_core (doh_fail raw now' p u2))"
proof (cases "u_backoffStep u = 0")
  case True
  with assms(3) have "u1 = u" by (simp add: doh_acquire_def)
  with assms True show ?thesis
    by (auto simp: core_wf_def u_core_def doh_fail_def doh_park_def Let_def)
next
  case False
  with assms(1,3) have "dp_probe p" "u1 = u\<lparr>u_probing := True\<rparr>"
    by (auto simp: doh_acquire_def core_wf_def u_core_def split: if_splits)
  with assms False unat_inc [of "u_backoffStep u" n] show ?thesis
    by (auto simp: core_wf_def u_core_def doh_fail_def doh_park_def Let_def)
qed

lemma exchange_wf:
  assumes "exchange W cd env query u s = (r, u', s')" and "provider_wf n u" and "Suc n < 2 ^ 64"
  shows "provider_wf (Suc n) u' \<and> u_tag u' = u_tag u \<and> u_observed u' = u_observed u"
proof -
  have "core_wf (Suc n) (u_core u')"
  proof (cases rule: exchange_cases [of env u W cd query s])
    case (skip e)
    with assms core_wf_mono [of n "u_core u" "Suc n"] show ?thesis by (simp add: provider_wf_parts)
  next
    case (failed p u1 e u2)
    with assms core_fail [OF _ assms(3) failed(1,2)] show ?thesis by (auto simp: provider_wf_parts)
  next
    case (answered p u1 a u2)
    with assms core_succeed show ?thesis by auto
  qed
  with assms(2) exchange_shape [OF assms(1)] exchange_tag [OF assms(1)] show ?thesis
    by (simp add: provider_wf_parts)
qed

lemma wf_mono: "provider_wf n u \<Longrightarrow> n \<le> m \<Longrightarrow> provider_wf m u"
  by (auto simp: provider_wf_parts intro: core_wf_mono)

lemma serve_loop_wf:
  "serve_loop W cd start query envs k us s err = (r, err', us', s') \<Longrightarrow> list_all (provider_wf n) us \<Longrightarrow>
   Suc n < 2 ^ 64 \<Longrightarrow>
   list_all (provider_wf (Suc n)) us' \<and> map u_tag us' = map u_tag us \<and> map u_observed us' = map u_observed us"
proof (induction us arbitrary: k s err us')
  case (Cons u us)
  obtain x u' t where x: "exchange W cd (se_exchange (envs k)) query u s = (x, u', t)"
    by (metis prod.exhaust)
  from Cons.prems(2) have us: "list_all (provider_wf n) us" and "provider_wf n u" by simp_all
  with exchange_wf [OF x] Cons.prems(3)
  have u': "provider_wf (Suc n) u'" "u_tag u' = u_tag u" "u_observed u' = u_observed u" by blast+
  have mono: "list_all (provider_wf (Suc n)) us" using us by (auto simp: list_all_iff intro: wf_mono)
  show ?case
  proof (cases x)
    case (Inr b)
    with Cons.prems(1) x u' mono show ?thesis by auto
  next
    case (Inl e)
    with Cons.prems(1) x u' mono us Cons.prems(3) Cons.IH [of "Suc k" t "Some e"] show ?thesis
      by (auto split: if_splits prod.splits)
  qed
qed simp

section \<open>The life of the bridge\<close>

text \<open>The queries the bridge serves, one after the other, each with its environment.\<close>

fun serve_all ::
  "nat \<Rightarrow> codec \<Rightarrow> (dnsmsg \<Rightarrow> int \<Rightarrow> dnsmsg) \<Rightarrow>
   (gotime \<times> (nat \<Rightarrow> serve_env) \<times> gotime \<times> gotime \<times> dnsmsg) list \<Rightarrow> dohBridge \<times> runtimeState \<Rightarrow>
   dohBridge \<times> runtimeState" where
  "serve_all W cd setRcode [] bs = bs"
| "serve_all W cd setRcode ((start, envs, t1, t2, query) # qs) (b, s) =
     (case serveDNS W cd setRcode start envs t1 t2 query b s of (reply, b', s') \<Rightarrow>
        serve_all W cd setRcode qs (b', s'))"

lemma observed_map:
  assumes "map u_observed us = map u_observed vs"
  shows "list_all u_observed us = list_all u_observed vs"
proof -
  have id: "list_all u_observed ws \<longleftrightarrow> list_all id (map u_observed ws)" for ws
    by (simp add: list.pred_map)
  show ?thesis by (simp only: id assms)
qed

lemma serveDNS_wf:
  assumes "serveDNS W cd setRcode start envs t1 t2 query b s = (reply, b', s')"
    and "bridge_wf n (br_upstreams b)" and "Suc n < 2 ^ 64"
  shows "bridge_wf (Suc n) (br_upstreams b')"
proof -
  obtain r err us t where loop: "serve_loop W cd start query envs 0 (br_upstreams b) s None = (r, err, us, t)"
    by (metis prod.exhaust)
  with assms(1) have "br_upstreams b' = us"
    by (cases r) (auto simp: serveDNS_def warnUnavailable_def)
  then show ?thesis using serve_loop_wf [OF loop _ assms(3)] observed_map [of us "br_upstreams b"] assms(2)
    by (simp add: bridge_wf_def)
qed

lemma serve_all_wf:
  "bridge_wf n (br_upstreams b) \<Longrightarrow> n + length qs < 2 ^ 64 \<Longrightarrow>
   bridge_wf (n + length qs) (br_upstreams (fst (serve_all W cd setRcode qs (b, s))))"
proof (induction qs arbitrary: n b s)
  case (Cons x qs)
  obtain start envs t1 t2 query where x: "x = (start, envs, t1, t2, query)" by (metis prod.exhaust)
  obtain reply b' s' where d: "serveDNS W cd setRcode start envs t1 t2 query b s = (reply, b', s')"
    by (metis prod.exhaust)
  from serveDNS_wf [OF d Cons.prems(1)] Cons.prems(2) have "bridge_wf (Suc n) (br_upstreams b')" by simp
  from Cons.IH [OF this, of s'] Cons.prems(2) d x show ?case by simp
qed simp

lemma new_provider_wf:
  "ips \<noteq> [] \<Longrightarrow> provider_wf n (newDoHUpstream tag url name ips)"
  "server \<noteq> [] \<Longrightarrow> provider_wf n (newBootstrappedDoHUpstream tag url name server)"
  by (simp_all add: provider_wf_def newDoHUpstream_def newBootstrappedDoHUpstream_def newDoHUpstreamWithResolver_def)

lemma observed_wf: "provider_wf n (u\<lparr>u_observed := b\<rparr>) = provider_wf n u"
  by (simp add: provider_wf_def)

lemma probe_all_wf:
  "probe_all W cd rcodes envs query us s = (us', s', log) \<Longrightarrow> list_all (provider_wf 0) us \<Longrightarrow>
   list_all (provider_wf 1) us'"
proof (induction us arbitrary: s us' log)
  case (Cons u us)
  obtain r u' t where x: "exchange W cd (envs (u_tag u)) query (u\<lparr>u_observed := True\<rparr>)
      (registerDoHUpstream (u_tag u) s) = (r, u', t)"
    by (metis prod.exhaust)
  from exchange_wf [OF x, of 0] Cons.prems(2) have "provider_wf 1 u'" by (simp add: observed_wf)
  with Cons.prems Cons.IH [of t] x show ?case
    by (cases r) (auto simp: attachDoHObservation_def probeDoHUpstream_def split: prod.splits)
qed simp

lemma attach_all_wf:
  "attach_all us s = (us', s') \<Longrightarrow> list_all (provider_wf n) us \<Longrightarrow> list_all (provider_wf n) us'"
  by (induction us arbitrary: s us' s') (fastforce simp: attachDoHObservation_def observed_wf split: prod.splits)+

lemma select_wf:
  assumes "selectDoHUpstreams W cd rcodes envs query autoEnabled autoDNS s = (us, s', log)"
    and "autoEnabled \<longrightarrow> autoDNS \<noteq> []"
  shows "bridge_wf 1 us"
proof -
  obtain vs s1 l where p: "probe_all W cd rcodes envs query (autoDoHUpstreams autoEnabled autoDNS) s = (vs, s1, l)"
    by (metis prod.exhaust)
  obtain ws s2 where a: "attach_all directDoHUpstreams s1 = (ws, s2)" by fastforce
  have us: "us = vs @ ws" using assms(1) p a by (simp add: selectDoHUpstreams_def)
  have "list_all (provider_wf 0) (autoDoHUpstreams autoEnabled autoDNS)"
    using assms(2) by (simp add: autoDoHUpstreams_def new_provider_wf)
  from probe_all_wf [OF p this] have "list_all (provider_wf 1) vs" .
  moreover have "list_all (provider_wf 1) directDoHUpstreams"
    by (simp add: directDoHUpstreams_def new_provider_wf)
  from attach_all_wf [OF a this] have "list_all (provider_wf 1) ws" .
  ultimately show ?thesis using probe_all_tags [OF p] attach_all_tags [OF a]
    by (auto simp: bridge_wf_def us autoDoHUpstreams_def directDoHUpstreams_def
        newBootstrappedDoHUpstream_def newDoHUpstream_def newDoHUpstreamWithResolver_def)
qed



end
