(* ===== verification/GoUnicode.thy ===== *)
theory GoUnicode
  imports GoStrings
begin

text \<open>
  Runes: the decoder of \<open>unicode/utf8\<close>, \<open>unicode.IsSpace\<close>, and the functions of
  \<open>strings\<close> built on them (\<open>TrimSpace\<close>, \<open>IndexFunc\<close>, \<open>ToLower\<close>).
  The table of lower-case forms of the runes outside ASCII is an argument, the function from
  the encoding of a rune to the encoding of its lower case.
\<close>

section \<open>Decoding\<close>

abbreviation byte :: "char \<Rightarrow> nat" where "byte c \<equiv> of_char c"

definition is_cont :: "char \<Rightarrow> bool" where
  "is_cont c \<longleftrightarrow> 0x80 \<le> byte c \<and> byte c \<le> 0xBF"

text \<open>The range of the second byte depends on the first (no overlong forms, no surrogates,
  nothing above U+10FFFF).\<close>

definition second_ok :: "char \<Rightarrow> char \<Rightarrow> bool" where
  "second_ok c d \<longleftrightarrow>
     (if byte c = 0xE0 then 0xA0 else if byte c = 0xF0 then 0x90 else 0x80) \<le> byte d \<and>
     byte d \<le> (if byte c = 0xED then 0x9F else if byte c = 0xF4 then 0x8F else 0xBF)"

text \<open>The size a first byte announces, 0 for a byte that starts no rune.\<close>

definition lead_len :: "char \<Rightarrow> nat" where
  "lead_len c =
     (if byte c < 0x80 then 1
      else if byte c < 0xC2 then 0
      else if byte c < 0xE0 then 2
      else if byte c < 0xF0 then 3
      else if byte c < 0xF5 then 4
      else 0)"

text \<open>The size of the well-formed rune at the start of a string, 0 where there is none.\<close>

fun utf8_len :: "string \<Rightarrow> nat" where
  "utf8_len [] = 0"
| "utf8_len [c] = (if lead_len c = 1 then 1 else 0)"
| "utf8_len (c # d # t) =
     (if lead_len c \<le> 1 then lead_len c
      else if second_ok c d \<and> lead_len c - 2 \<le> length t \<and>
        list_all is_cont (take (lead_len c - 2) t)
      then lead_len c else 0)"

text \<open>The size \<open>DecodeRune\<close> reports: 1 for an ill-formed byte.\<close>

definition rune_len :: "string \<Rightarrow> nat" where
  "rune_len s = max 1 (utf8_len s)"

function runes :: "string \<Rightarrow> string list" where
  "runes s = (if s = [] then [] else take (rune_len s) s # runes (drop (rune_len s) s))"
  by pat_completeness auto
termination
  by (relation "measure length") (auto simp: rune_len_def)

declare runes.simps [simp del]

definition validString :: "string \<Rightarrow> bool" where
  "validString s \<longleftrightarrow> (\<forall>r\<in>set (runes s). 0 < utf8_len r)"

text \<open>\<open>DecodeLastRune\<close> looks back at most four bytes for the start of a rune.\<close>

definition rune_start :: "char \<Rightarrow> bool" where
  "rune_start c \<longleftrightarrow> \<not> is_cont c"

definition last_rune_len :: "string \<Rightarrow> nat" where
  "last_rune_len s =
     (if s = [] then 0
      else if byte (last s) < 0x80 then 1
      else (case List.find (\<lambda>k. k \<le> length s \<and> rune_start (s ! (length s - k))) [2, 3, 4] of
              None \<Rightarrow> 1
            | Some k \<Rightarrow> if utf8_len (drop (length s - k) s) = k then k else 1))"

section \<open>White space\<close>

definition space_runes :: "string list" where
  "space_runes =
     map (\<lambda>b. [char_of b]) [0x09, 0x0A, 0x0B, 0x0C, 0x0D, 0x20::nat] @
     map (map char_of)
      ([[0xC2, 0x85], [0xC2, 0xA0], [0xE1, 0x9A, 0x80]] @
       map (\<lambda>b. [0xE2, 0x80, b])
         [0x80, 0x81, 0x82, 0x83, 0x84, 0x85, 0x86, 0x87, 0x88, 0x89, 0x8A, 0xA8, 0xA9, 0xAF] @
       [[0xE2, 0x81, 0x9F], [0xE3, 0x80, 0x80::nat]])"

definition isSpace :: "string \<Rightarrow> bool" where
  "isSpace r \<longleftrightarrow> r \<in> set space_runes"

definition hasSpace :: "string \<Rightarrow> bool" where
  "hasSpace s \<longleftrightarrow> list_ex isSpace (runes s)"

function trimLeft :: "string \<Rightarrow> string" where
  "trimLeft s =
     (if s \<noteq> [] \<and> isSpace (take (rune_len s) s) then trimLeft (drop (rune_len s) s) else s)"
  by pat_completeness auto
termination
  by (relation "measure length") (auto simp: rune_len_def)

declare trimLeft.simps [simp del]

lemma last_rune_len_pos: "s \<noteq> [] \<Longrightarrow> 0 < last_rune_len s"
  by (auto simp: last_rune_len_def find_Some_iff split: option.splits)

function trimRight :: "string \<Rightarrow> string" where
  "trimRight s =
     (if s \<noteq> [] \<and> isSpace (drop (length s - last_rune_len s) s)
      then trimRight (take (length s - last_rune_len s) s) else s)"
  by pat_completeness auto
termination
  by (relation "measure length") (auto simp: last_rune_len_pos)

declare trimRight.simps [simp del]

definition trimSpace :: "string \<Rightarrow> string" where
  "trimSpace s = trimRight (trimLeft s)"

section \<open>Lower case\<close>

definition lower_byte :: "char \<Rightarrow> char" where
  "lower_byte c = (if 65 \<le> byte c \<and> byte c \<le> 90 then char_of (byte c + 32) else c)"

text \<open>An ill-formed byte becomes the replacement character U+FFFD.\<close>

definition lower_rune :: "(string \<Rightarrow> string) \<Rightarrow> string \<Rightarrow> string" where
  "lower_rune ulower r =
     (case r of
        [c] \<Rightarrow> if byte c < 0x80 then [lower_byte c] else map char_of [0xEF, 0xBF, 0xBD::nat]
      | _ \<Rightarrow> ulower r)"

definition toLower :: "(string \<Rightarrow> string) \<Rightarrow> string \<Rightarrow> string" where
  "toLower ulower s = concat (map (lower_rune ulower) (runes s))"

section \<open>Well-formed runes\<close>

lemma lead_len_ascii [simp]: "byte c < 0x80 \<Longrightarrow> lead_len c = 1"
  by (simp add: lead_len_def)

lemma lead_len_one: "lead_len c = 1 \<longleftrightarrow> byte c < 0x80"
  by (simp add: lead_len_def)

lemma lead_len_multi: "2 \<le> lead_len c \<Longrightarrow> rune_start c \<and> 0x80 \<le> byte c \<and> lead_len c \<le> 4"
  by (simp add: lead_len_def rune_start_def is_cont_def split: if_splits)

lemma utf8_len_le: "utf8_len s \<le> length s"
  by (induction s rule: utf8_len.induct) auto

lemma utf8_len_take: "utf8_len (take (rune_len s) s) = utf8_len s"
proof (induction s rule: utf8_len.induct)
  case (3 c d t)
  show ?case
  proof (cases "lead_len c \<le> 1")
    case True
    then show ?thesis by (cases "lead_len c") (simp_all add: rune_len_def)
  next
    case False
    define n where "n = lead_len c - 2"
    with False have "lead_len c = Suc (Suc n)" by simp
    then show ?thesis by (auto simp: rune_len_def max_def min_def)
  qed
qed (auto simp: rune_len_def)

lemma utf8_len_append: "0 < utf8_len r \<Longrightarrow> utf8_len (r @ s) = utf8_len r"
  by (induction r rule: utf8_len.induct; cases s) (auto split: if_split_asm)

lemma runes_Nil [simp]: "runes [] = []"
  by (simp add: runes.simps)

lemma runes_eq_Nil [simp]: "runes s = [] \<longleftrightarrow> s = []"
  by (subst runes.simps) simp

lemma concat_runes [simp]: "concat (runes s) = s"
  by (induction s rule: runes.induct) (subst runes.simps, auto)

lemma runes_ascii: "byte c < 0x80 \<Longrightarrow> runes (c # s) = [c] # runes s"
  by (subst runes.simps, cases s) (simp_all add: rune_len_def)

lemma runes_all_ascii: "\<forall>c\<in>set s. byte c < 0x80 \<Longrightarrow> runes s = map (\<lambda>c. [c]) s"
  by (induction s) (auto simp: runes_ascii)

lemma runes_elem: "r \<in> set (runes s) \<Longrightarrow> r \<noteq> [] \<and> (utf8_len r = length r \<or> utf8_len r = 0 \<and> length r = 1)"
proof (induction s rule: runes.induct)
  case (1 s)
  show ?case
  proof (cases "s = []")
    case False
    have "length (take (rune_len s) s) = rune_len s"
      using utf8_len_le [of s] False by (cases s) (auto simp: rune_len_def min_def)
    moreover have "rune_len s = utf8_len s \<or> utf8_len s = 0 \<and> rune_len s = 1"
      by (auto simp: rune_len_def max_def)
    ultimately have "take (rune_len s) s \<noteq> [] \<and> (utf8_len (take (rune_len s) s) = length (take (rune_len s) s)
        \<or> utf8_len (take (rune_len s) s) = 0 \<and> length (take (rune_len s) s) = 1)"
      using False by (auto simp only: utf8_len_take) (auto simp: rune_len_def)
    with False "1" show ?thesis by (auto simp: runes.simps [of s])
  qed (use "1.prems" in simp)
qed

lemma validString_Nil [simp]: "validString []"
  by (simp add: validString_def)

lemma validString_ascii: "\<forall>c\<in>set s. byte c < 0x80 \<Longrightarrow> validString s"
  by (auto simp: validString_def runes_all_ascii)

lemma runes_append_rune:
  "0 < utf8_len r \<Longrightarrow> utf8_len r = length r \<Longrightarrow> runes (r @ s) = r # runes s"
proof -
  assume r: "0 < utf8_len r" "utf8_len r = length r"
  from r have "Suc 0 \<le> length r" by linarith
  with r have "rune_len (r @ s) = length r"
    by (simp add: rune_len_def utf8_len_append max_absorb2)
  moreover have "r @ s \<noteq> []" using r by auto
  ultimately show ?thesis by (subst runes.simps) simp
qed

text \<open>A well-formed rune is a start byte followed by continuation bytes.\<close>

lemma second_ok_cont: "second_ok c d \<Longrightarrow> is_cont d"
  by (auto simp: second_ok_def is_cont_def split: if_splits)

lemma utf8_shape:
  assumes "0 < utf8_len r" and "utf8_len r = length r"
  obtains (one) c where "r = [c]" "byte c < 0x80"
  | (two) c d where "r = [c, d]" "rune_start c" "is_cont d" "0x80 \<le> byte c"
  | (three) c d e where "r = [c, d, e]" "rune_start c" "is_cont d" "is_cont e" "0x80 \<le> byte c"
  | (four) c d e f where "r = [c, d, e, f]" "rune_start c" "is_cont d" "is_cont e" "is_cont f" "0x80 \<le> byte c"
proof (cases "r = [] \<or> (\<exists>c. r = [c])")
  case True
  then obtain c where "r = [c]" using assms(1) by auto
  moreover from this assms(1) have "byte c < 0x80"
    using lead_len_one [of c] by (simp split: if_splits)
  ultimately show ?thesis by (rule one)
next
  case False
  then obtain c u where u: "r = c # u" and "u \<noteq> []" by (cases r) auto
  then obtain d t where "u = d # t" by (cases u) auto
  with u have r: "r = c # d # t" by simp
  with assms have len: "lead_len c = length t + 2" and ok: "second_ok c d" "list_all is_cont t"
    by (simp_all split: if_splits)
  have c: "rune_start c" "0x80 \<le> byte c" and "length t \<le> 2"
    using lead_len_multi [of c] len by simp_all
  then consider "t = []" | e where "t = [e]" | e f where "t = [e, f]"
    by (metis One_nat_def Suc_1 length_0_conv length_Suc_conv le_SucE le_zero_eq)
  then show ?thesis
  proof cases
    case 1
    with r ok c second_ok_cont show ?thesis by (auto intro: two)
  next
    case 2
    with r ok c second_ok_cont show ?thesis by (auto intro: three)
  next
    case 3
    with r ok c second_ok_cont show ?thesis by (auto intro: four)
  qed
qed

lemma cont_byte: "is_cont c \<Longrightarrow> \<not> byte c < 0x80" "is_cont c \<Longrightarrow> \<not> rune_start c"
  by (simp_all add: is_cont_def rune_start_def)

lemma last_rune_len_append:
  assumes "0 < utf8_len r" and "utf8_len r = length r"
  shows "last_rune_len (s @ r) = length r"
  using assms
proof (cases rule: utf8_shape)
  case (one c)
  then show ?thesis by (simp add: last_rune_len_def)
next
  case (two c d)
  with assms show ?thesis
    by (simp add: last_rune_len_def cont_byte nth_append)
next
  case (three c d e)
  with assms show ?thesis
    by (simp add: last_rune_len_def cont_byte nth_append)
next
  case (four c d e f)
  with assms show ?thesis
    by (simp add: last_rune_len_def cont_byte nth_append)
qed

lemma valid_last_rune:
  assumes "validString s" and "s \<noteq> []"
  shows "drop (length s - last_rune_len s) s = last (runes s)"
proof -
  have ne: "runes s \<noteq> []" using assms(2) by simp
  define r where "r = last (runes s)"
  have "r \<in> set (runes s)" using ne by (simp add: r_def)
  then have r: "0 < utf8_len r" "utf8_len r = length r"
    using assms(1) runes_elem [of r s] by (auto simp: validString_def)
  have "s = concat (butlast (runes s) @ [r])" using ne by (simp add: r_def)
  then obtain u where s: "s = u @ r" by auto
  with last_rune_len_append [OF r, of u] have "drop (length s - last_rune_len s) s = r" by simp
  then show ?thesis by (simp add: r_def)
qed

section \<open>Trimming\<close>

lemma trimLeft_id: "\<not> hasSpace s \<Longrightarrow> trimLeft s = s"
  by (subst trimLeft.simps) (auto simp: hasSpace_def runes.simps [of s])

lemma trimRight_id:
  assumes "validString s" and "\<not> hasSpace s"
  shows "trimRight s = s"
proof (cases "s = []")
  case False
  then have "\<not> isSpace (last (runes s))"
    using assms(2) by (auto simp: hasSpace_def list_ex_iff)
  with False valid_last_rune [OF assms(1) False] show ?thesis
    by (subst trimRight.simps) simp
qed (simp add: trimRight.simps)

lemma trimSpace_id: "validString s \<Longrightarrow> \<not> hasSpace s \<Longrightarrow> trimSpace s = s"
  by (simp add: trimSpace_def trimLeft_id trimRight_id)

lemma trimSpace_Nil [simp]: "trimSpace [] = []"
  by (simp add: trimSpace_def trimLeft.simps trimRight.simps)

lemma trimLeft_ascii: "byte c < 0x80 \<Longrightarrow> \<not> isSpace [c] \<Longrightarrow> trimLeft (c # s) = c # s"
  by (subst trimLeft.simps, cases s) (simp_all add: rune_len_def)

lemma trimRight_ascii:
  "byte c < 0x80 \<Longrightarrow> trimRight (s @ [c]) = (if isSpace [c] then trimRight s else s @ [c])"
  by (subst trimRight.simps) (simp add: last_rune_len_def)

lemma trimSpace_line:
  assumes "s = a # t" and "s = u @ [b]" and "byte a < 0x80" and "byte b < 0x80"
    and "\<not> isSpace [a]" and "\<not> isSpace [b]" and "byte c < 0x80" and "isSpace [c]"
  shows "trimSpace (s @ [c]) = s"
proof -
  have "trimLeft (s @ [c]) = s @ [c]" using assms trimLeft_ascii [of a "t @ [c]"] by simp
  moreover have "trimRight s = s" using assms trimRight_ascii [of b u] by simp
  ultimately show ?thesis using assms(7,8) trimRight_ascii [of c s] by (simp add: trimSpace_def)
qed

lemma isSpace_byte: "isSpace [c] \<longleftrightarrow> byte c \<in> {0x09, 0x0A, 0x0B, 0x0C, 0x0D, 0x20}"
proof -
  have eq: "c = char_of n \<longleftrightarrow> byte c = n" if "n < 256" for n :: nat
    using that by (metis char_of_char of_char_of mod_less)
  show ?thesis by (auto simp: isSpace_def space_runes_def eq)
qed

lemma no_space_byte:
  assumes "\<not> hasSpace s" and "c \<in> set s" and "validString s"
  shows "\<not> isSpace [c]"
proof
  assume sp: "isSpace [c]"
  then have asc: "byte c < 0x80" by (auto simp: isSpace_byte)
  from assms(2) obtain r where r: "r \<in> set (runes s)" "c \<in> set r"
    by (metis concat_runes UN_E set_concat)
  then have "0 < utf8_len r" "utf8_len r = length r"
    using assms(3) runes_elem [of r s] by (auto simp: validString_def)
  then have "r = [c]" using r(2) asc
    by (cases rule: utf8_shape) (auto simp: is_cont_def)
  with sp r assms(1) show False by (auto simp: hasSpace_def list_ex_iff)
qed

section \<open>Lower case of ASCII text\<close>

lemma lower_byte_idem: "lower_byte (lower_byte c) = lower_byte c"
  by (auto simp: lower_byte_def)

lemma toLower_ascii:
  "\<forall>c\<in>set s. byte c < 0x80 \<Longrightarrow> toLower ulower s = map lower_byte s"
  by (induction s) (auto simp: toLower_def runes_ascii lower_rune_def)

end
