(* ===== verification/Supervisor.thy ===== *)
theory Supervisor
  imports GoUnicode GoStrconv GoErr RuntimeState Dns
begin

text \<open>
  internal/supervisorplugin/plugin.go (the plugin in MosDNS that receives the published state,
  serves the probes and the metrics) and cmd/veladns/healthcheck.go (the container's health
  check, its client). A datagram has type \<open>'d\<close>; the JSON decoder is an argument. A metric value
  in seconds is kept as its duration.
\<close>

section \<open>The plugin\<close>

record supervisor =
  su_snapshot :: snapshot
  su_receivedAt :: gotime
  su_socketPath :: string
  su_open :: bool
  su_registered :: bool

definition zero_snapshot :: snapshot where
  "zero_snapshot = \<lparr>sn_timestamp = 0, sn_components = Map.empty, sn_dohUpstreams = Map.empty\<rparr>"

text \<open>The outcomes of the library calls of \<open>initPlugin\<close>.\<close>

record supervisor_calls =
  sc_resolve :: "goerr option"
  sc_listen :: "goerr option"
  sc_chmod :: "goerr option"
  sc_register :: "goerr option"

definition supervisor_initPlugin :: "supervisor_calls \<Rightarrow> string \<Rightarrow> goerr + supervisor" where
  "supervisor_initPlugin calls socket =
     (if socket = [] then Inl (ErrNew ''socket is required'')
      else case sc_resolve calls of Some e \<Rightarrow> Inl e
      | None \<Rightarrow> (case sc_listen calls of Some e \<Rightarrow> Inl e
      | None \<Rightarrow> (case sc_chmod calls of Some e \<Rightarrow> Inl e
      | None \<Rightarrow> (case sc_register calls of Some e \<Rightarrow> Inl e
      | None \<Rightarrow> Inr \<lparr>su_snapshot = zero_snapshot, su_receivedAt = zero_time, su_socketPath = socket,
                     su_open = True, su_registered = True\<rparr>))))"

text \<open>One turn of \<open>readLoop\<close>: a datagram and the time at which it is stored; the loop ends at
  the first read error, so it is a fold over the datagrams before it.\<close>

definition receive :: "('d \<Rightarrow> snapshot option) \<Rightarrow> 'd \<times> gotime \<Rightarrow> supervisor \<Rightarrow> supervisor" where
  "receive decode dt p =
     (case decode (fst dt) of
        None \<Rightarrow> p
      | Some sn \<Rightarrow> p\<lparr>su_snapshot := sn, su_receivedAt := snd dt\<rparr>)"

definition readLoop :: "('d \<Rightarrow> snapshot option) \<Rightarrow> ('d \<times> gotime) list \<Rightarrow> supervisor \<Rightarrow> supervisor" where
  "readLoop decode dts p = fold (receive decode) dts p"

definition currentSnapshot :: "gotime \<Rightarrow> supervisor \<Rightarrow> snapshot \<times> duration" where
  "currentSnapshot now p = (su_snapshot p, time_sub now (su_receivedAt p))"

abbreviation (input) StatusOK :: int where "StatusOK \<equiv> 200"
abbreviation (input) StatusServiceUnavailable :: int where "StatusServiceUnavailable \<equiv> 503"

definition down :: "snapshot \<Rightarrow> string \<Rightarrow> bool" where
  "down sn name = (case sn_components sn name of None \<Rightarrow> False | Some c \<Rightarrow> cp_enabled c \<and> \<not> cp_up c)"

definition liveStatus :: "snapshot \<Rightarrow> duration \<Rightarrow> int \<times> string" where
  "liveStatus sn age =
     (if sn_timestamp sn = 0 \<or> 5 * second < age
      then (StatusServiceUnavailable, ''unhealthy: supervisor state is stale'')
      else if down sn ''mosdns'' then (StatusServiceUnavailable, ''unhealthy: mosdns is restarting'')
      else (StatusOK, ''ok''))"

definition readyStatus :: "snapshot \<Rightarrow> duration \<Rightarrow> int \<times> string" where
  "readyStatus sn age =
     (case liveStatus sn age of (status, message) \<Rightarrow>
        if status \<noteq> StatusOK then (status, message)
        else if down sn ''doh_bridge''
        then (StatusServiceUnavailable, ''unhealthy: encrypted DNS bridge is unavailable'')
        else if down sn ''unbound'' then (StatusOK, ''degraded: unbound is restarting'')
        else if down sn ''unbound_recursive''
        then (StatusOK, ''degraded: CN classification resolver is restarting'')
        else (StatusOK, ''ok''))"

definition writeStatus :: "int \<times> string \<Rightarrow> int \<times> string" where
  "writeStatus sm = (fst sm, snd sm @ [char_of (10::nat)])"

definition live :: "gotime \<Rightarrow> supervisor \<Rightarrow> int \<times> string" where
  "live now p = (case currentSnapshot now p of (sn, age) \<Rightarrow> writeStatus (liveStatus sn age))"

definition ready :: "gotime \<Rightarrow> supervisor \<Rightarrow> int \<times> string" where
  "ready now p = (case currentSnapshot now p of (sn, age) \<Rightarrow> writeStatus (readyStatus sn age))"

record dependencyReport =
  dr_status :: string
  dr_message :: string
  dr_timestamp :: int
  dr_stateAge :: duration
  dr_components :: "string \<rightharpoonup> component"
  dr_dohUpstreams :: "string \<rightharpoonup> dohStats"

definition dependencies :: "gotime \<Rightarrow> supervisor \<Rightarrow> dependencyReport" where
  "dependencies now p =
     (case currentSnapshot now p of (sn, age) \<Rightarrow>
        let message = snd (readyStatus sn age)
        in \<lparr>dr_status = (if hasPrefix message ''unhealthy'' then ''unhealthy''
                         else if hasPrefix message ''degraded'' then ''degraded'' else ''ready''),
            dr_message = message, dr_timestamp = sn_timestamp sn, dr_stateAge = age,
            dr_components = sn_components sn, dr_dohUpstreams = sn_dohUpstreams sn\<rparr>)"

section \<open>Metrics\<close>

datatype metric_value = Flag bool | Counted uint | Seconds duration | Microseconds uint | Unix int

record metric =
  mt_name :: string
  mt_value :: metric_value
  mt_label :: string

definition remainingBackoffSeconds :: "dohStats \<Rightarrow> gotime \<Rightarrow> duration" where
  "remainingBackoffSeconds u now =
     (if ds_retryAtUnixMilli u = 0 then 0
      else let remaining = time_sub (of_unix_milli (ds_retryAtUnixMilli u)) now
           in if remaining < 0 then 0 else remaining)"

definition component_metrics :: "string \<Rightarrow> component \<Rightarrow> metric list" where
  "component_metrics name c =
     [\<lparr>mt_name = ''veladns_component_up'', mt_value = Flag (cp_up c), mt_label = name\<rparr>,
      \<lparr>mt_name = ''veladns_component_enabled'', mt_value = Flag (cp_enabled c), mt_label = name\<rparr>,
      \<lparr>mt_name = ''veladns_component_restarts_total'', mt_value = Counted (cp_restarts c), mt_label = name\<rparr>,
      \<lparr>mt_name = ''veladns_component_backoff_seconds'', mt_value = Seconds (cp_backoff c), mt_label = name\<rparr>]"

definition dohMetricDescriptions :: "string list" where
  "dohMetricDescriptions =
     [''veladns_doh_upstream_requests_total'', ''veladns_doh_upstream_successes_total'',
      ''veladns_doh_upstream_failures_total'', ''veladns_doh_upstream_backoff_skips_total'',
      ''veladns_doh_upstream_request_duration_seconds_total'', ''veladns_doh_upstream_backoff_seconds'',
      ''veladns_doh_upstream_last_success_timestamp_seconds'',
      ''veladns_doh_upstream_last_failure_timestamp_seconds'']"

definition doh_metrics :: "gotime \<Rightarrow> string \<Rightarrow> dohStats \<Rightarrow> metric list" where
  "doh_metrics now name u =
     map2 (\<lambda>desc v. \<lparr>mt_name = desc, mt_value = v, mt_label = name\<rparr>) dohMetricDescriptions
       [Counted (ds_requests u), Counted (ds_successes u), Counted (ds_failures u),
        Counted (ds_backoffSkips u), Microseconds (ds_durationMicroseconds u),
        Seconds (remainingBackoffSeconds u now), Unix (ds_lastSuccessUnix u), Unix (ds_lastFailureUnix u)]"

text \<open>\<open>Collect\<close> ranges over the two maps; \<open>names\<close> and \<open>upstreams\<close> are the orders in which Go
  visits their keys.\<close>

definition entries :: "(string \<rightharpoonup> 'a) \<Rightarrow> string list \<Rightarrow> (string \<times> 'a) list" where
  "entries m names = concat (map (\<lambda>n. case m n of None \<Rightarrow> [] | Some v \<Rightarrow> [(n, v)]) names)"

definition supervisor_collect ::
  "string list \<Rightarrow> string list \<Rightarrow> gotime \<Rightarrow> gotime \<Rightarrow> supervisor \<Rightarrow> metric list" where
  "supervisor_collect names upstreams t1 t2 p =
     concat (map (\<lambda>(n, c). component_metrics n c) (entries (sn_components (su_snapshot p)) names)) @
     [\<lparr>mt_name = ''veladns_supervisor_state_age_seconds'',
       mt_value = Seconds (if su_receivedAt p = zero_time then 0 else time_sub t1 (su_receivedAt p)),
       mt_label = []\<rparr>] @
     concat (map (\<lambda>(n, u). doh_metrics t2 n u) (entries (sn_dohUpstreams (su_snapshot p)) upstreams))"

definition supervisor_describe :: "string list" where
  "supervisor_describe =
     [''veladns_component_up'', ''veladns_component_enabled'', ''veladns_component_restarts_total'',
      ''veladns_component_backoff_seconds'', ''veladns_supervisor_state_age_seconds''] @
     dohMetricDescriptions"

definition supervisor_close :: "goerr option \<Rightarrow> supervisor \<Rightarrow> goerr option \<times> supervisor" where
  "supervisor_close closeErr p = (closeErr, p\<lparr>su_registered := False, su_open := False\<rparr>)"

section \<open>The health check\<close>

datatype health_error =
    EndpointFailed goerr
  | ResponseFailed goerr
  | NotReady int string
  | QueryFailed goerr
  | NoResponse
  | BadRcode string
  | NoARecord

text \<open>\<open>get\<close> is the outcome of the HTTP request: an error, or the status, the body and the error
  of reading it.\<close>

definition checkSupervisorHealth :: "goerr + int \<times> string \<times> goerr option \<Rightarrow> health_error option" where
  "checkSupervisorHealth get =
     (case get of
        Inl e \<Rightarrow> Some (EndpointFailed e)
      | Inr (code, body, Some e) \<Rightarrow> Some (ResponseFailed e)
      | Inr (code, body, None) \<Rightarrow>
          let status = trimSpace (take 256 body)
          in if code \<noteq> StatusOK \<or> (\<not> hasPrefix status ''ok'' \<and> \<not> hasPrefix status ''degraded'')
             then Some (NotReady code status) else None)"

definition checkSecureDNS :: "(int \<Rightarrow> string) \<Rightarrow> goerr + dnsmsg option \<Rightarrow> health_error option" where
  "checkSecureDNS rcodeToString exchanged =
     (case exchanged of
        Inl e \<Rightarrow> Some (QueryFailed e)
      | Inr None \<Rightarrow> Some NoResponse
      | Inr (Some response) \<Rightarrow>
          if msg_rcode response \<noteq> RcodeSuccess then Some (BadRcode (rcodeToString (msg_rcode response)))
          else if list_ex (\<lambda>a. rr_type a = TypeA) (msg_answer response) then None
          else Some NoARecord)"

definition runHealthcheck ::
  "(int \<Rightarrow> string) \<Rightarrow> goerr + int \<times> string \<times> goerr option \<Rightarrow> goerr + dnsmsg option \<Rightarrow> health_error option" where
  "runHealthcheck rcodeToString get exchanged =
     (case checkSupervisorHealth get of
        Some e \<Rightarrow> Some e
      | None \<Rightarrow> checkSecureDNS rcodeToString exchanged)"

end
