(* ===== verification/Machine.thy ===== *)
theory Machine
  imports Main
begin

text \<open>
  Machines. A goroutine with its environment is a function from a state and an event to the
  next state, or \<open>None\<close> when the event cannot happen there; its histories are the sequences of
  events it can go through from its initial state. The locale is what every such machine of the
  development has in common: \<open>hist es s\<close> tells that the events \<open>es\<close> lead to \<open>s\<close>.
\<close>

fun run_steps :: "('s \<Rightarrow> 'e \<Rightarrow> 's option) \<Rightarrow> 's \<Rightarrow> 'e list \<Rightarrow> 's option" where
  "run_steps step s [] = Some s"
| "run_steps step s (e # es) = (case step s e of None \<Rightarrow> None | Some s' \<Rightarrow> run_steps step s' es)"

lemma run_steps_append:
  "run_steps step s (es @ fs) = (case run_steps step s es of None \<Rightarrow> None | Some m \<Rightarrow> run_steps step m fs)"
  by (induction es arbitrary: s) (simp_all split: option.split)

lemma run_steps_snoc:
  "run_steps step s (es @ [e]) = Some s' \<longleftrightarrow> (\<exists>m. run_steps step s es = Some m \<and> step m e = Some s')"
  by (auto simp: run_steps_append split: option.splits)

lemma run_steps_invariant:
  assumes "run_steps step s es = Some s'" and "P s"
    and "\<And>m e m'. e \<in> set es \<Longrightarrow> P m \<Longrightarrow> step m e = Some m' \<Longrightarrow> P m'"
  shows "P s'"
  using assms
proof (induction es arbitrary: s)
  case (Cons e es)
  then obtain m where "step s e = Some m" and m: "run_steps step m es = Some s'"
    by (auto split: option.splits)
  with Cons.prems(2) Cons.prems(3) [of e s m] have "P m" by simp
  with m show ?case by (rule Cons.IH) (rule Cons.prems(3), simp_all)
qed simp

locale machine =
  fixes step :: "'s \<Rightarrow> 'e \<Rightarrow> 's option"
    and init :: "'s"
    and hist :: "'e list \<Rightarrow> 's \<Rightarrow> bool"
  assumes hist_Nil: "hist [] s \<longleftrightarrow> s = init"
    and hist_snoc: "hist (es @ [e]) s' \<longleftrightarrow> (\<exists>s. hist es s \<and> step s e = Some s')"
begin

lemma hist_run: "hist es s \<longleftrightarrow> run_steps step init es = Some s"
proof (induction es arbitrary: s rule: rev_induct)
  case Nil
  show ?case by (auto simp: hist_Nil)
next
  case (snoc e es)
  then show ?case by (simp add: hist_snoc run_steps_snoc)
qed

lemma invariant [consumes 1, case_names start event]:
  assumes "hist es s" and "P [] init"
    and "\<And>es s e s'. hist es s \<Longrightarrow> P es s \<Longrightarrow> step s e = Some s' \<Longrightarrow> P (es @ [e]) s'"
  shows "P es s"
  using assms(1)
proof (induction es arbitrary: s rule: rev_induct)
  case Nil
  then show ?case using assms(2) by (simp add: hist_Nil)
next
  case (snoc e es)
  then show ?case using assms(3) by (auto simp: hist_snoc)
qed

lemma hist_append: "hist (es @ fs) s \<longleftrightarrow> (\<exists>m. hist es m \<and> run_steps step m fs = Some s)"
  by (auto simp: hist_run run_steps_append split: option.splits)

lemma hist_at:
  assumes "hist (es @ e # fs) s"
  shows "\<exists>m m'. hist es m \<and> step m e = Some m' \<and> hist (es @ [e]) m' \<and> run_steps step m' fs = Some s"
proof -
  from assms obtain m where m: "hist es m" and r: "run_steps step m (e # fs) = Some s"
    by (auto simp: hist_append)
  then obtain m' where "step m e = Some m'" and "run_steps step m' fs = Some s"
    by (auto split: option.splits)
  with m show ?thesis by (auto simp: hist_snoc)
qed

lemma deterministic: "hist es s \<Longrightarrow> hist es s' \<Longrightarrow> s = s'"
  by (simp add: hist_run)

end

end
