(* ===== verification/DoHConcurrent.thy ===== *)
theory DoHConcurrent
  imports DoHSafety Supervisor Machine
begin

text \<open>
  The exchanges of one DoH provider under concurrency (cmd/veladns/dohbridge.go). The bridge
  serves every query in a goroutine of its own, and the HTTP transport dials in further ones;
  they share the provider's backoff, its address cache and the runtime state, each under its own
  mutex. Every critical section is one event here, so the exchanges interleave between
  \<open>acquire\<close>, \<open>invalidateDialIPs\<close>, \<open>fail\<close> or \<open>succeed\<close>, the reading of the retry time in \<open>record\<close>
  and the observation, and the dials between the look at the cache and the store.
\<close>

section \<open>The critical sections of the address cache\<close>

definition cache_look :: "gotime \<Rightarrow> dialAddressCache \<Rightarrow> string list option" where
  "cache_look now c =
     (if dc_addresses c \<noteq> [] \<and> now < dc_expiresAt c then Some (dc_addresses c) else None)"

definition cache_store :: "gotime \<Rightarrow> string list \<Rightarrow> dialAddressCache \<Rightarrow> dialAddressCache" where
  "cache_store now addresses c = c\<lparr>dc_addresses := addresses, dc_expiresAt := now + dialAddressTTL\<rparr>"

lemma cache_get_sections:
  "cache_get t1 t2 resolved c =
     (case cache_look t1 c of
        Some addresses \<Rightarrow> (Inr addresses, c)
      | None \<Rightarrow> (case resolved of Inl e \<Rightarrow> (Inl e, c) | Inr addresses \<Rightarrow> (Inr addresses, cache_store t2 addresses c)))"
  by (simp add: cache_get_def cache_look_def cache_store_def split: sum.split)

section \<open>The machine\<close>

datatype xphase =
    XBegun gotime
  | XRunning gotime dohPermit
  | XFailed gotime dohPermit
  | XInvalidated gotime dohPermit
  | XOk gotime
  | XSettled gotime dohObservation
  | XRead duration dohObservation gotime

record provider =
  pv_up :: dohUpstream
  pv_state :: runtimeState
  pv_exchanges :: "nat \<rightharpoonup> xphase"
  pv_resolving :: "nat set"

text \<open>The exchange or dial is the first argument of an event.\<close>

datatype xevent =
    XBegin nat gotime
  | XAcquire nat gotime
  | XOutcome nat "goerr option" "http_request \<Rightarrow> goerr + http_response" dnsmsg
  | XInvalidate nat
  | XFail nat nat gotime
  | XSucceed nat
  | XReadRetry nat gotime
  | XObserve nat gotime
  | DLook nat gotime
  | DResolved nat gotime "goerr + string list"

definition set_phase :: "nat \<Rightarrow> xphase \<Rightarrow> provider \<Rightarrow> provider" where
  "set_phase i ph p = p\<lparr>pv_exchanges := (pv_exchanges p)(i \<mapsto> ph)\<rparr>"

text \<open>The tail of \<open>DialContext\<close>: an address list that is not empty advances the counter.\<close>

definition count_dial :: "string list \<Rightarrow> dohUpstream \<Rightarrow> dohUpstream" where
  "count_dial addresses u = (if addresses = [] then u else u\<lparr>u_next := u_next u + 1\<rparr>)"

definition dial_step :: "provider \<Rightarrow> xevent \<Rightarrow> provider option" where
  "dial_step p e =
     (case e of
        DLook k now \<Rightarrow>
          if k \<in> pv_resolving p then None
          else (case u_cache (pv_up p) of
            None \<Rightarrow> Some (p\<lparr>pv_up := count_dial (u_dialIPs (pv_up p)) (pv_up p)\<rparr>)
          | Some c \<Rightarrow>
              (case cache_look now c of
                 Some addresses \<Rightarrow> Some (p\<lparr>pv_up := count_dial addresses (pv_up p)\<rparr>)
               | None \<Rightarrow> Some (p\<lparr>pv_resolving := insert k (pv_resolving p)\<rparr>)))
      | DResolved k now resolved \<Rightarrow>
          if k \<notin> pv_resolving p then None
          else (case resolved of
            Inl err \<Rightarrow> Some (p\<lparr>pv_resolving := pv_resolving p - {k}\<rparr>)
          | Inr addresses \<Rightarrow>
              Some (p\<lparr>pv_up := count_dial addresses
                       ((pv_up p)\<lparr>u_cache := map_option (cache_store now addresses) (u_cache (pv_up p))\<rparr>),
                     pv_resolving := pv_resolving p - {k}\<rparr>))
      | _ \<Rightarrow> None)"

definition exchange_step :: "codec \<Rightarrow> provider \<Rightarrow> nat \<Rightarrow> xevent \<Rightarrow> provider option" where
  "exchange_step cd p i e =
     (case (pv_exchanges p i, e) of
        (None, XBegin j t) \<Rightarrow> Some (set_phase i (XBegun t) p)
      | (Some (XBegun t), XAcquire j now) \<Rightarrow>
          (case doh_acquire now (pv_up p) of ((permit, allowed), u) \<Rightarrow>
             Some (set_phase i (if allowed then XRunning t permit else XSettled t DohBackoffSkip) (p\<lparr>pv_up := u\<rparr>)))
      | (Some (XRunning t permit), XOutcome j newRequest roundTrip query) \<Rightarrow>
          (case exchangeOnce cd newRequest roundTrip query (pv_up p) of
             Inl err \<Rightarrow> Some (set_phase i (XFailed t permit) p)
           | Inr answer \<Rightarrow> Some (set_phase i (XOk t) p))
      | (Some (XFailed t permit), XInvalidate j) \<Rightarrow>
          Some (set_phase i (XInvalidated t permit) (p\<lparr>pv_up := invalidateDialIPs (pv_up p)\<rparr>))
      | (Some (XInvalidated t permit), XFail j raw now) \<Rightarrow>
          Some (set_phase i (XSettled t DohFailure) (p\<lparr>pv_up := doh_fail raw now permit (pv_up p)\<rparr>))
      | (Some (XOk t), XSucceed j) \<Rightarrow>
          Some (set_phase i (XSettled t DohSuccess) (p\<lparr>pv_up := doh_succeed (pv_up p)\<rparr>))
      | (Some (XSettled t result), XReadRetry j now) \<Rightarrow>
          Some (set_phase i (XRead (time_sub now t) result (u_retryAt (pv_up p))) p)
      | (Some (XRead d result retryAt), XObserve j now) \<Rightarrow>
          Some (p\<lparr>pv_exchanges := (pv_exchanges p)(i := None),
                  pv_state := (if u_observed (pv_up p)
                    then observeDoHUpstream now (u_tag (pv_up p)) result d retryAt (pv_state p) else pv_state p)\<rparr>)
      | _ \<Rightarrow> None)"

definition xevent_thread :: "xevent \<Rightarrow> nat option" where
  "xevent_thread e =
     (case e of XBegin i t \<Rightarrow> Some i | XAcquire i t \<Rightarrow> Some i | XOutcome i nr rt q \<Rightarrow> Some i
      | XInvalidate i \<Rightarrow> Some i | XFail i raw t \<Rightarrow> Some i | XSucceed i \<Rightarrow> Some i | XReadRetry i t \<Rightarrow> Some i
      | XObserve i t \<Rightarrow> Some i | DLook k t \<Rightarrow> None | DResolved k t r \<Rightarrow> None)"

definition conc_step :: "codec \<Rightarrow> provider \<Rightarrow> xevent \<Rightarrow> provider option" where
  "conc_step cd p e =
     (case xevent_thread e of Some i \<Rightarrow> exchange_step cd p i e | None \<Rightarrow> dial_step p e)"

definition conc_start :: "dohUpstream \<Rightarrow> runtimeState \<Rightarrow> provider" where
  "conc_start u s = \<lparr>pv_up = u, pv_state = s, pv_exchanges = Map.empty, pv_resolving = {}\<rparr>"

definition conc_history :: "codec \<Rightarrow> dohUpstream \<Rightarrow> runtimeState \<Rightarrow> xevent list \<Rightarrow> provider \<Rightarrow> bool" where
  "conc_history cd u s es p \<longleftrightarrow> run_steps (conc_step cd) (conc_start u s) es = Some p"

interpretation conc: machine "conc_step cd" "conc_start u s" "conc_history cd u s" for cd u s
  by unfold_locales (auto simp: conc_history_def run_steps_snoc)

section \<open>Without interleaving it is \<open>exchange\<close>\<close>

text \<open>The events of one exchange that nothing interrupts, with the dials of its environment.\<close>

fun dial_script :: "(gotime \<times> gotime \<times> (goerr + string list)) list \<Rightarrow> dohUpstream \<Rightarrow> nat \<Rightarrow> xevent list" where
  "dial_script [] u W = []"
| "dial_script ((t1, t2, r) # ds) u W =
     (case u_cache u of
        None \<Rightarrow> [DLook 0 t1]
      | Some c \<Rightarrow> if cache_look t1 c = None then [DLook 0 t1, DResolved 0 t2 r] else [DLook 0 t1]) @
     dial_script ds (snd (dialContext W t1 t2 r u)) W"

definition exchange_script :: "nat \<Rightarrow> codec \<Rightarrow> exchange_env \<Rightarrow> dnsmsg \<Rightarrow> nat \<Rightarrow> dohUpstream \<Rightarrow> xevent list" where
  "exchange_script W cd env query i u =
     (case doh_acquire (xe_acquire env) u of ((permit, allowed), u1) \<Rightarrow>
        [XBegin i (xe_start env), XAcquire i (xe_acquire env)] @
        (if \<not> allowed then []
         else dial_script (xe_dials env) u1 W @
           [XOutcome i (xe_newRequest env) (xe_roundTrip env) query] @
           (case exchangeOnce cd (xe_newRequest env) (xe_roundTrip env) query (run_dials W env u1) of
              Inl e \<Rightarrow> [XInvalidate i, XFail i (xe_raw env) (xe_report env)]
            | Inr answer \<Rightarrow> [XSucceed i])) @
        [XReadRetry i (xe_end env), XObserve i (xe_end env)])"

lemma dialContext_count:
  "snd (dialContext W t1 t2 r u) =
     (case u_cache u of
        None \<Rightarrow> count_dial (u_dialIPs u) u
      | Some c \<Rightarrow>
          (case cache_look t1 c of
             Some addresses \<Rightarrow> count_dial addresses u
           | None \<Rightarrow>
               (case r of
                  Inl e \<Rightarrow> u
                | Inr addresses \<Rightarrow> count_dial addresses (u\<lparr>u_cache := Some (cache_store t2 addresses c)\<rparr>))))"
  by (auto simp: dialContext_def resolveDialIPs_def cache_get_sections count_dial_def Let_def
      split: option.split sum.split)

lemma dial_one:
  assumes "pv_resolving p = {}" and "ds = (t1, t2, r) # rest" and "pv_up p = u"
  shows "run_steps (conc_step cd) p (dial_script ds u W) =
    run_steps (conc_step cd) (p\<lparr>pv_up := snd (dialContext W t1 t2 r u)\<rparr>)
      (dial_script rest (snd (dialContext W t1 t2 r u)) W)"
proof (cases "u_cache u")
  case None
  with assms show ?thesis
    by (simp add: conc_step_def xevent_thread_def dial_step_def dialContext_count)
next
  case (Some c)
  with assms show ?thesis
    by (cases p; cases "cache_look t1 c"; cases r)
      (simp_all add: conc_step_def xevent_thread_def dial_step_def dialContext_count)
qed

lemma dials_run:
  "pv_resolving p = {} \<Longrightarrow> pv_up p = u \<Longrightarrow>
   run_steps (conc_step cd) p (dial_script ds u W) =
     Some (p\<lparr>pv_up := fold (\<lambda>(t1, t2, r) v. snd (dialContext W t1 t2 r v)) ds u\<rparr>)"
proof (induction ds arbitrary: p u)
  case (Cons x ds)
  obtain t1 t2 r where x: "x = (t1, t2, r)" by (metis prod.exhaust)
  with Cons.prems dial_one [of p "x # ds" t1 t2 r ds u cd W]
    Cons.IH [of "p\<lparr>pv_up := snd (dialContext W t1 t2 r u)\<rparr>" "snd (dialContext W t1 t2 r u)"]
  show ?case by simp
qed simp


definition sample_provider :: dohUpstream where
  "sample_provider = (newDoHUpstream ''cloudflare'' ''https://cloudflare-dns.com/dns-query'' ''cloudflare-dns.com''
     [''104.16.248.249''])\<lparr>u_observed := True\<rparr>"

section \<open>Accounts\<close>

text \<open>The identity of a provider never changes.\<close>

lemma count_dial_frame [simp]:
  "u_tag (count_dial addresses u) = u_tag u" "u_observed (count_dial addresses u) = u_observed u"
  by (simp_all add: count_dial_def)

lemma acquire_frame:
  "doh_acquire now u = (pa, u') \<Longrightarrow> u_tag u' = u_tag u \<and> u_observed u' = u_observed u"
  by (auto simp: doh_acquire_def split: if_splits)

lemma dial_step_frame:
  assumes "dial_step p e = Some p'"
  shows "u_tag (pv_up p') = u_tag (pv_up p) \<and> u_observed (pv_up p') = u_observed (pv_up p) \<and>
    pv_state p' = pv_state p \<and> pv_exchanges p' = pv_exchanges p"
  using assms by (auto simp: dial_step_def split: xevent.splits option.splits sum.splits if_splits)

text \<open>The transitions of an exchange, one case each.\<close>

lemma exchange_step_cases [consumes 1, case_names begun acquired outcome invalidated failed succeeded recorded observed]:
  assumes "exchange_step cd p i e = Some p'"
  obtains j t where "e = XBegin j t" and "pv_exchanges p i = None" and "p' = set_phase i (XBegun t) p"
  | j now t permit allowed u where "e = XAcquire j now" and "pv_exchanges p i = Some (XBegun t)"
      and "doh_acquire now (pv_up p) = ((permit, allowed), u)"
      and "p' = set_phase i (if allowed then XRunning t permit else XSettled t DohBackoffSkip) (p\<lparr>pv_up := u\<rparr>)"
  | j nr rt query t permit ph where "e = XOutcome j nr rt query" and "pv_exchanges p i = Some (XRunning t permit)"
      and "ph = XFailed t permit \<or> ph = XOk t" and "p' = set_phase i ph p"
  | j t permit where "e = XInvalidate j" and "pv_exchanges p i = Some (XFailed t permit)"
      and "p' = set_phase i (XInvalidated t permit) (p\<lparr>pv_up := invalidateDialIPs (pv_up p)\<rparr>)"
  | j raw now t permit where "e = XFail j raw now" and "pv_exchanges p i = Some (XInvalidated t permit)"
      and "p' = set_phase i (XSettled t DohFailure) (p\<lparr>pv_up := doh_fail raw now permit (pv_up p)\<rparr>)"
  | j t where "e = XSucceed j" and "pv_exchanges p i = Some (XOk t)"
      and "p' = set_phase i (XSettled t DohSuccess) (p\<lparr>pv_up := doh_succeed (pv_up p)\<rparr>)"
  | j now t result where "e = XReadRetry j now" and "pv_exchanges p i = Some (XSettled t result)"
      and "p' = set_phase i (XRead (time_sub now t) result (u_retryAt (pv_up p))) p"
  | j now d result retryAt where "e = XObserve j now" and "pv_exchanges p i = Some (XRead d result retryAt)"
      and "p' = p\<lparr>pv_exchanges := (pv_exchanges p)(i := None),
        pv_state := (if u_observed (pv_up p)
          then observeDoHUpstream now (u_tag (pv_up p)) result d retryAt (pv_state p) else pv_state p)\<rparr>"
proof (cases "pv_exchanges p i")
  case None
  with assms that(1) show ?thesis by (cases e) (auto simp: exchange_step_def)
next
  case (Some ph)
  note step = assms [unfolded exchange_step_def Some]
  show ?thesis
  proof (cases ph)
    case (XBegun t)
    with step Some that(2) show ?thesis by (cases e) (auto split: prod.splits sum.splits)
  next
    case (XRunning t permit)
    with step Some that(3) show ?thesis by (cases e) (auto split: prod.splits sum.splits)
  next
    case (XFailed t permit)
    with step Some that(4) show ?thesis by (cases e) (auto split: prod.splits sum.splits)
  next
    case (XInvalidated t permit)
    with step Some that(5) show ?thesis by (cases e) (auto split: prod.splits sum.splits)
  next
    case (XOk t)
    with step Some that(6) show ?thesis by (cases e) (auto split: prod.splits sum.splits)
  next
    case (XSettled t result)
    with step Some that(7) show ?thesis by (cases e) (auto split: prod.splits sum.splits)
  next
    case (XRead d result retryAt)
    with step Some that(8) show ?thesis by (cases e) (auto split: prod.splits sum.splits)
  qed
qed

fun begins :: "xevent \<Rightarrow> bool" where
  "begins (XBegin i t) = True"
| "begins e = False"

fun observes :: "xevent \<Rightarrow> bool" where
  "observes (XObserve i t) = True"
| "observes e = False"

definition accounted :: "runtimeState \<Rightarrow> dohUpstream \<Rightarrow> xevent list \<Rightarrow> provider \<Rightarrow> bool" where
  "accounted s u es p \<longleftrightarrow> accounts_balanced (pv_state p) \<and>
     u_tag (pv_up p) = u_tag u \<and> u_observed (pv_up p) = u_observed u \<and>
     ds_requests (stats_of (pv_state p) (u_tag u)) = ds_requests (stats_of s (u_tag u)) + of_nat (length (filter observes es)) \<and>
     finite (dom (pv_exchanges p)) \<and>
     length (filter begins es) = length (filter observes es) + card (dom (pv_exchanges p)) \<and>
     (\<forall>other. other \<noteq> u_tag u \<longrightarrow> stats_of (pv_state p) other = stats_of s other)"

lemma dom_set_phase: "pv_exchanges p i \<noteq> None \<Longrightarrow> dom (pv_exchanges (set_phase i ph p)) = dom (pv_exchanges p)"
  by (auto simp: set_phase_def)

lemma set_phase_frame [simp]:
  "pv_up (set_phase i ph p) = pv_up p" "pv_state (set_phase i ph p) = pv_state p"
  "pv_resolving (set_phase i ph p) = pv_resolving p"
  by (simp_all add: set_phase_def)

lemma conc_step_accounted:
  assumes "conc_step cd p e = Some p'" and "accounted s u es p" and "u_observed u"
  shows "accounted s u (es @ [e]) p'"
proof (cases "xevent_thread e")
  case None
  with assms(1) have "dial_step p e = Some p'" by (simp add: conc_step_def)
  from dial_step_frame [OF this] assms(2) None show ?thesis
    by (cases e) (simp_all add: accounted_def xevent_thread_def)
next
  case (Some i)
  with assms(1) have "exchange_step cd p i e = Some p'" by (simp add: conc_step_def)
  then show ?thesis
  proof (cases rule: exchange_step_cases)
    case (begun j t)
    then have "dom (pv_exchanges p') = insert i (dom (pv_exchanges p))" "i \<notin> dom (pv_exchanges p)"
      by (auto simp: set_phase_def)
    with begun assms(2) show ?thesis by (simp add: accounted_def)
  next
    case (acquired j now t permit allowed u1)
    with assms(2) acquire_frame [OF acquired(3)] show ?thesis
      by (simp add: accounted_def dom_set_phase)
  next
    case (observed j now d result retryAt)
    then have p': "pv_up p' = pv_up p" "dom (pv_exchanges p') = dom (pv_exchanges p) - {i}"
      "pv_state p' = observeDoHUpstream now (u_tag u) result d retryAt (pv_state p)"
      using assms(2,3) by (auto simp: accounted_def)
    from observed have i: "i \<in> dom (pv_exchanges p)" by blast
    from assms(2) have fin: "finite (dom (pv_exchanges p))" by (simp add: accounted_def)
    then have "finite (dom (pv_exchanges p'))" by (simp add: p'(2))
    moreover from card.remove [OF fin i] have "card (dom (pv_exchanges p)) = Suc (card (dom (pv_exchanges p')))"
      by (simp only: p'(2))
    moreover have "ds_requests (stats_of (pv_state p') (u_tag u)) = ds_requests (stats_of (pv_state p) (u_tag u)) + 1"
      using observe_counted [of result "pv_state p" "u_tag u" now d retryAt] by (simp add: p'(3) counted_def)
    ultimately show ?thesis
      using assms(2) by (simp add: accounted_def observed(1) p'(1,3) observe_frame)
  qed (use assms(2) in \<open>simp_all add: accounted_def dom_set_phase\<close>)
qed

lemma conc_accounted:
  assumes "conc_history cd u s es p" and "u_observed u" and "accounts_balanced s"
  shows "accounted s u es p"
  using assms(1)
proof (induction rule: conc.invariant)
  case start
  show ?case using assms(3) by (simp add: accounted_def conc_start_def)
next
  case (event es p e p')
  from conc_step_accounted [OF event(2,3) assms(2)] show ?case .
qed

text \<open>C15. The accounts of a provider are exact under every interleaving of its exchanges: the
  requests counted are the exchanges that have finished, every exchange begun is finished or
  still in flight, requests are successes, failures and skips, and no other provider's numbers
  are touched.\<close>

theorem concurrent_accounts:
  assumes "conc_history cd u s es p" and "u_observed u" and "accounts_balanced s"
  shows "accounts_balanced (pv_state p) \<and>
    ds_requests (stats_of (pv_state p) (u_tag u)) =
      ds_requests (stats_of s (u_tag u)) + of_nat (length (filter observes es)) \<and>
    length (filter begins es) = length (filter observes es) + card (dom (pv_exchanges p)) \<and>
    (\<forall>other. other \<noteq> u_tag u \<longrightarrow> stats_of (pv_state p) other = stats_of s other)"
  using conc_accounted [OF assms] by (simp add: accounted_def)

lemma conc_tag:
  assumes "conc_history cd u s es p" and "u_observed u" and "accounts_balanced s"
  shows "u_tag (pv_up p) = u_tag u"
  using conc_accounted [OF assms] by (simp add: accounted_def)

text \<open>Two exchanges in flight while the provider is parked: \<open>late\<close> reports a success after the
  failure of \<open>early\<close> has been reported, but before it is observed.\<close>

abbreviation (input) no_answer :: "http_request \<Rightarrow> goerr + http_response" where
  "no_answer \<equiv> (\<lambda>_. Inl CtxDeadlineExceeded)"

definition epoch_2026 :: gotime where "epoch_2026 = 63902908800 * second"

definition crossing :: "xevent list" where
  "crossing =
     [XBegin 0 epoch_2026, XAcquire 0 epoch_2026, XOutcome 0 None no_answer sample_query, XInvalidate 0,
      XFail 0 0 epoch_2026, XReadRetry 0 epoch_2026, XObserve 0 epoch_2026,
      XBegin 1 epoch_2026, XAcquire 1 epoch_2026, XBegin 2 epoch_2026, XAcquire 2 epoch_2026,
      XOutcome 1 None no_answer sample_query, XInvalidate 1, XFail 1 0 epoch_2026, XReadRetry 1 epoch_2026,
      XOutcome 2 None (\<lambda>_. Inr \<lparr>hr_status = 200, hr_body = [], hr_readErr = None\<rparr>) sample_query,
      XSucceed 2, XReadRetry 2 epoch_2026, XObserve 2 epoch_2026, XObserve 1 epoch_2026]"

lemma sample_backoff: "jitterDoHBackoff 0 1 = 800 * millisecond"
  by (simp add: jitterDoHBackoff_def jitterDoHBackoff_loop.simps int63n_def Let_def)

lemma crossing_run:
  "\<exists>p. conc_history sample_codec sample_provider newRuntimeState crossing p \<and>
     pv_exchanges p = Map.empty \<and> u_backoffStep (pv_up p) = 0 \<and> u_retryAt (pv_up p) = zero_time \<and>
     stats_of (pv_state p) ''cloudflare'' =
       \<lparr>ds_requests = 3, ds_successes = 1, ds_failures = 2, ds_backoffSkips = 0, ds_durationMicroseconds = 0,
        ds_retryAtUnixMilli = time_unix_milli (epoch_2026 + 800 * millisecond),
        ds_lastSuccessUnix = time_unix epoch_2026, ds_lastFailureUnix = time_unix epoch_2026\<rparr>"
  by (simp add: conc_history_def conc_start_def crossing_def conc_step_def xevent_thread_def exchange_step_def
      set_phase_def sample_provider_def newDoHUpstream_def newDoHUpstreamWithResolver_def doh_defs
      exchangeOnce_def sample_codec_def sample_query_def sample_reply_def invalidateDialIPs_def
      sample_backoff observeDoHUpstream_def stats_of_def newRuntimeState_def zero_dohStats_def epoch_2026_def
      time_sub_def Let_def fun_upd_idem fun_eq_iff)

theorem concurrent_accounts_witness:
  "\<exists>p. conc_history sample_codec sample_provider newRuntimeState crossing p \<and> accounts_balanced (pv_state p)"
proof -
  obtain p where p: "conc_history sample_codec sample_provider newRuntimeState crossing p"
    using crossing_run by blast
  with concurrent_accounts [OF p] show ?thesis by (auto simp: sample_provider_def)
qed

text \<open>C29. The published backoff of a provider can be wrong: two exchanges that cross leave a
  provider that is not in backoff, lets every request through and has nothing in flight, while
  the state published for it, and the backoff gauge computed from it, still say that it is
  parked. The retry time is read under one lock and published under another.\<close>

theorem stale_backoff_published:
  "\<exists>p. conc_history sample_codec sample_provider newRuntimeState crossing p \<and>
     pv_exchanges p = Map.empty \<and> snd (fst (doh_acquire epoch_2026 (pv_up p))) \<and>
     u_retryAt (pv_up p) = zero_time \<and>
     remainingBackoffSeconds (stats_of (pv_state p) (u_tag (pv_up p))) epoch_2026 = 800 * millisecond"
proof -
  obtain p where p: "conc_history sample_codec sample_provider newRuntimeState crossing p"
    "pv_exchanges p = Map.empty" "u_backoffStep (pv_up p) = 0" "u_retryAt (pv_up p) = zero_time"
    "ds_retryAtUnixMilli (stats_of (pv_state p) ''cloudflare'') = time_unix_milli (epoch_2026 + 800 * millisecond)"
    using crossing_run by auto
  have "u_tag (pv_up p) = ''cloudflare''"
    using conc_tag [OF p(1)] by (simp add: sample_provider_def newDoHUpstream_def newDoHUpstreamWithResolver_def)
  with p show ?thesis
    by (intro exI [of _ p]) (simp add: doh_acquire_def remainingBackoffSeconds_def epoch_2026_def time_unix_milli_def
      of_unix_milli_def time_sub_def)
qed

section \<open>Freshness of the addresses\<close>

text \<open>What the cache holds was the answer of a lookup, stored when its term began.\<close>

definition cache_stored :: "xevent list \<Rightarrow> dialAddressCache option \<Rightarrow> bool" where
  "cache_stored es c \<longleftrightarrow>
     (case c of None \<Rightarrow> True
      | Some c \<Rightarrow> dc_addresses c \<noteq> [] \<longrightarrow>
          (\<exists>k t. DResolved k t (Inr (dc_addresses c)) \<in> set es \<and> dc_expiresAt c = t + dialAddressTTL))"

lemma cache_stored_snoc: "cache_stored es c \<Longrightarrow> cache_stored (es @ [e]) c"
  by (auto simp: cache_stored_def split: option.splits)

lemma cache_frame [simp]:
  "u_cache (doh_fail raw now permit u) = u_cache u" "u_cache (doh_succeed u) = u_cache u"
  "u_cache (count_dial addresses u) = u_cache u"
  by (simp_all add: doh_defs count_dial_def Let_def)

lemma acquire_cache: "doh_acquire now u = (pa, u') \<Longrightarrow> u_cache u' = u_cache u"
  by (auto simp: doh_acquire_def split: if_splits)

lemma conc_step_cache:
  assumes "conc_step cd p e = Some p'" and "cache_stored es (u_cache (pv_up p))"
  shows "cache_stored (es @ [e]) (u_cache (pv_up p'))"
proof (cases "xevent_thread e")
  case (Some i)
  with assms(1) have "exchange_step cd p i e = Some p'" by (simp add: conc_step_def)
  then show ?thesis using cache_stored_snoc [OF assms(2), of e]
  proof (cases rule: exchange_step_cases)
    case (acquired j now t permit allowed u)
    with acquire_cache [OF acquired(3)] cache_stored_snoc [OF assms(2), of e] show ?thesis by simp
  qed (auto simp: invalidateDialIPs_def cache_invalidate_def cache_stored_def split: option.splits)
next
  case None
  with assms(1) have d: "dial_step p e = Some p'" by (simp add: conc_step_def)
  show ?thesis
  proof (cases e)
    case (DResolved k t r)
    with d cache_stored_snoc [OF assms(2), of e] show ?thesis
      by (cases r; cases "u_cache (pv_up p)")
        (auto simp: dial_step_def cache_stored_def cache_store_def split: if_splits)
  next
    case (DLook k t)
    with d cache_stored_snoc [OF assms(2), of e] show ?thesis
      by (auto simp: dial_step_def split: option.splits if_splits)
  qed (use None in \<open>simp_all add: xevent_thread_def\<close>)
qed

text \<open>C30. A provider is dialled at fresh addresses only, under every interleaving of dials,
  lookups and invalidations: an address list taken from the cache at \<open>now\<close> is the answer of a
  lookup of this provider that was stored less than a minute before.\<close>

theorem dialled_addresses_fresh:
  assumes "conc_history cd u s es p" and "case u_cache u of None \<Rightarrow> True | Some c \<Rightarrow> dc_addresses c = []"
    and "u_cache (pv_up p) = Some c" and "cache_look now c = Some addresses"
  shows "\<exists>k t. DResolved k t (Inr addresses) \<in> set es \<and> now < t + minute"
proof -
  from assms(1) have "cache_stored es (u_cache (pv_up p))"
  proof (induction rule: conc.invariant)
    case start
    show ?case using assms(2) by (auto simp: conc_start_def cache_stored_def split: option.splits)
  next
    case (event es p e p')
    from conc_step_cache [OF event(2,3)] show ?case .
  qed
  with assms(3,4) obtain k t where "DResolved k t (Inr addresses) \<in> set es" "now < t + dialAddressTTL"
    by (auto simp: cache_stored_def cache_look_def split: if_splits)
  then show ?thesis by blast
qed

definition sample_bootstrapped :: dohUpstream where
  "sample_bootstrapped = newBootstrappedDoHUpstream ''nextdns'' ''https://dns.nextdns.io'' ''dns.nextdns.io'' ''198.18.0.2''"

theorem dialled_addresses_fresh_witness:
  "\<exists>p. conc_history sample_codec sample_bootstrapped newRuntimeState
      [DLook 0 5, DResolved 0 7 (Inr [''198.18.0.9''])] p \<and>
     (\<exists>k t. DResolved k t (Inr [''198.18.0.9'']) \<in> set [DLook 0 5, DResolved 0 7 (Inr [''198.18.0.9''])] \<and> 8 < t + minute)"
proof -
  obtain p c where p: "conc_history sample_codec sample_bootstrapped newRuntimeState
      [DLook 0 5, DResolved 0 7 (Inr [''198.18.0.9''])] p" "u_cache (pv_up p) = Some c"
      "cache_look 8 c = Some [''198.18.0.9'']"
    by (simp add: conc_history_def conc_start_def conc_step_def xevent_thread_def dial_step_def count_dial_def
        sample_bootstrapped_def newBootstrappedDoHUpstream_def newDoHUpstreamWithResolver_def cache_look_def cache_store_def)
  from dialled_addresses_fresh [OF p(1) _ p(2,3)] p(1) show ?thesis
    by (auto simp: sample_bootstrapped_def newBootstrappedDoHUpstream_def newDoHUpstreamWithResolver_def)
qed


end
