(* ===== verification/QueryPlugins.thy ===== *)
theory QueryPlugins
  imports GoUnicode Prometheus
begin

text \<open>
  The plugins on the path of a query inside MosDNS: internal/cancelclassify/cancel.go
  (\<open>Expected\<close>), internal/requestmetricsplugin/collector.go (\<open>collector\<close>),
  internal/decisionplugin/decision.go and internal/tcpserverplugin/server.go (the logger core
  that turns client disconnects into a counter). A Prometheus counter is a natural number, a
  gauge an integer. \<open>ulower\<close> is the lower-case table outside ASCII.
\<close>

section \<open>cancelclassify\<close>

definition expectedFragments :: "string list" where
  "expectedFragments =
     [''context canceled'', ''connection ctx canceled'', ''use of closed network connection'',
      ''broken pipe'', ''connection reset by peer'']"

definition Expected :: "(string \<Rightarrow> string) \<Rightarrow> goerr option \<Rightarrow> bool" where
  "Expected ulower err =
     (case err of
        None \<Rightarrow> False
      | Some e \<Rightarrow>
          if errors_is e CtxCanceled \<or> errors_is e NetErrClosed then True
          else list_ex (\<lambda>fragment. contains (toLower ulower (err_message e)) fragment) expectedFragments)"

lemma Expected_None [simp]: "\<not> Expected ulower None"
  by (simp add: Expected_def)

lemma Expected_wrapped:
  "c \<in> set es \<Longrightarrow> errors_is c CtxCanceled \<or> errors_is c NetErrClosed \<Longrightarrow> Expected ulower (Some (ErrWrap m es))"
  by (auto simp: Expected_def list_ex_iff)

lemma Expected_message:
  "\<forall>c\<in>set (err_message e). byte c < 0x80 \<Longrightarrow> f \<in> set expectedFragments \<Longrightarrow>
   contains (map lower_byte (err_message e)) f \<Longrightarrow> Expected ulower (Some e)"
  by (auto simp: Expected_def toLower_ascii list_ex_iff)

section \<open>veladns\_metrics\_collector\<close>

record collector =
  queryTotal :: nat
  errTotal :: nat
  canceledTotal :: nat
  thread :: int
  responseLatency :: "int list"

definition collector_metrics :: "string list" where
  "collector_metrics = [''query_total'', ''err_total'', ''canceled_total'', ''thread'', ''response_latency_millisecond'']"

text \<open>The registry distinguishes the collectors by metric name and constant label.\<close>

definition collector_metric :: "string \<Rightarrow> string \<Rightarrow> string" where
  "collector_metric name metric = metric @ ''{name='' @ name @ ''}''"

definition newCollector ::
  "(string list \<Rightarrow> string \<Rightarrow> goerr option) \<Rightarrow> string list \<Rightarrow> string \<Rightarrow> (goerr + collector) \<times> string list" where
  "newCollector reg held name =
     (if name = [] then (Inl (ErrNew ''collector name is required''), held)
      else case register_all reg held (map (collector_metric name) collector_metrics) of
        (Some e, held') \<Rightarrow> (Inl e, held')
      | (None, held') \<Rightarrow>
          (Inr \<lparr>queryTotal = 0, errTotal = 0, canceledTotal = 0, thread = 0, responseLatency = []\<rparr>, held'))"

text \<open>\<open>Exec\<close> around the call of the rest of the chain: what it does before, and after the
  call returned \<open>err\<close> (\<open>deferred\<close> included). Other queries run in between.\<close>

definition collector_enter :: "collector \<Rightarrow> collector" where
  "collector_enter c = c\<lparr>thread := thread c + 1, queryTotal := queryTotal c + 1\<rparr>"

definition collector_leave ::
  "(string \<Rightarrow> string) \<Rightarrow> gotime \<Rightarrow> gotime \<Rightarrow> goerr option \<Rightarrow> bool \<Rightarrow> collector \<Rightarrow> collector" where
  "collector_leave ulower startedAt now err hasResponse c0 =
     (let c1 = (if err = None then c0
                else if Expected ulower err then c0\<lparr>canceledTotal := canceledTotal c0 + 1\<rparr>
                else c0\<lparr>errTotal := errTotal c0 + 1\<rparr>);
          c2 = (if hasResponse
                then c1\<lparr>responseLatency := responseLatency c1 @ [time_sub now startedAt sdiv millisecond]\<rparr>
                else c1)
      in c2\<lparr>thread := thread c2 - 1\<rparr>)"

text \<open>One query on its own; \<open>next\<close> is the rest of the chain, which may run the collector for
  other queries and yields the error and whether the query has a response.\<close>

definition collector_exec ::
  "(string \<Rightarrow> string) \<Rightarrow> gotime \<Rightarrow> gotime \<Rightarrow> (collector \<Rightarrow> goerr option \<times> bool \<times> collector) \<Rightarrow>
   collector \<Rightarrow> goerr option \<times> collector" where
  "collector_exec ulower startedAt now next c =
     (case next (collector_enter c) of (err, hasResponse, c') \<Rightarrow>
        (err, collector_leave ulower startedAt now err hasResponse c'))"

text \<open>Queries run concurrently: a collector and the list of the start times of the queries in
  flight, changed by an arrival or by the end of any of them.\<close>

datatype collector_event = Arrive gotime | Finish nat gotime "goerr option" bool

inductive collector_step ::
  "(string \<Rightarrow> string) \<Rightarrow> collector \<times> gotime list \<Rightarrow> collector_event \<Rightarrow> collector \<times> gotime list \<Rightarrow> bool"
  for ulower where
  arrive: "collector_step ulower (c, fl) (Arrive t) (collector_enter c, fl @ [t])"
| finish: "i < length fl \<Longrightarrow>
    collector_step ulower (c, fl) (Finish i now err r)
      (collector_leave ulower (fl ! i) now err r c, take i fl @ drop (Suc i) fl)"

inductive collector_run ::
  "(string \<Rightarrow> string) \<Rightarrow> collector \<times> gotime list \<Rightarrow> collector_event list \<Rightarrow> collector \<times> gotime list \<Rightarrow> bool"
  for ulower where
  stop: "collector_run ulower s [] s"
| step: "collector_step ulower s e s' \<Longrightarrow> collector_run ulower s' es s'' \<Longrightarrow> collector_run ulower s (e # es) s''"

inductive_cases collector_stepE: "collector_step ulower (c, fl) e s'"

section \<open>veladns\_decision\<close>

definition decisionCounter :: "nat \<Rightarrow> register_verdict \<Rightarrow> goerr + nat" where
  "decisionCounter fresh verdict =
     (case verdict of
        Registered \<Rightarrow> Inr fresh
      | AlreadyRegistered (ExistingCounterVec v) \<Rightarrow> Inr v
      | AlreadyRegistered ExistingOther \<Rightarrow>
          Inl (ErrNew ''veladns decision metric has an incompatible collector'')
      | RegisterFailed e \<Rightarrow> Inl e)"

record executable =
  ex_vector :: nat
  ex_decision :: string

definition decision_quickSetup :: "nat \<Rightarrow> register_verdict \<Rightarrow> string \<Rightarrow> goerr + executable" where
  "decision_quickSetup fresh verdict raw =
     (let decision = trimSpace raw
      in if decision = [] then Inl (ErrNew ''decision name is required'')
         else case decisionCounter fresh verdict of
           Inl e \<Rightarrow> Inl e
         | Inr v \<Rightarrow> Inr \<lparr>ex_vector = v, ex_decision = decision\<rparr>)"

definition decision_exec :: "executable \<Rightarrow> series \<Rightarrow> goerr option \<times> series" where
  "decision_exec e m = (None, series_inc (ex_vector e) [ex_decision e] m)"

section \<open>veladns\_tcp\_server\<close>

definition cancellationCounter :: "nat \<Rightarrow> register_verdict \<Rightarrow> goerr + nat" where
  "cancellationCounter fresh verdict =
     (case verdict of
        Registered \<Rightarrow> Inr fresh
      | AlreadyRegistered (ExistingCounterVec v) \<Rightarrow> Inr v
      | AlreadyRegistered ExistingOther \<Rightarrow>
          Inl (ErrNew ''client cancellation metric has an incompatible collector'')
      | RegisterFailed e \<Rightarrow>
          Inl (ErrWrap (''register client cancellation metric: '' @ err_message e) [e]))"

text \<open>A log field: of type \<open>ErrorType\<close>, with the error its interface holds (\<open>None\<close> when
  that is not an error), or of another type.\<close>

datatype zfield = ErrorField "goerr option" | OtherField string

datatype zlevel = DebugLevel | InfoLevel | WarnLevel | ErrorLevel

record zentry =
  ze_level :: zlevel
  ze_message :: string

text \<open>The core that wraps another one: the level test of the wrapped core, the fields bound
  to it, what has been written to it, and the counters.\<close>

record cancellationCore =
  cc_enabled :: "zlevel \<Rightarrow> bool"
  cc_bound :: "zfield list"
  cc_events :: nat
  cc_listener :: string

definition cancellationStage :: "string \<Rightarrow> string" where
  "cancellationStage message =
     (if message = ''entry err'' then ''entry''
      else if message = ''failed to write response'' then ''write''
      else [])"

fun fieldsContainExpectedCancellation :: "(string \<Rightarrow> string) \<Rightarrow> zfield list \<Rightarrow> bool" where
  "fieldsContainExpectedCancellation ulower [] = False"
| "fieldsContainExpectedCancellation ulower (OtherField x # fs) = fieldsContainExpectedCancellation ulower fs"
| "fieldsContainExpectedCancellation ulower (ErrorField None # fs) = fieldsContainExpectedCancellation ulower fs"
| "fieldsContainExpectedCancellation ulower (ErrorField (Some e) # fs) =
     (if Expected ulower (Some e) then True else fieldsContainExpectedCancellation ulower fs)"

definition core_with :: "zfield list \<Rightarrow> cancellationCore \<Rightarrow> cancellationCore" where
  "core_with flds c = c\<lparr>cc_bound := cc_bound c @ flds\<rparr>"

text \<open>\<open>Check\<close> tells whether the core takes the entry; \<open>Write\<close> returns what the wrapped
  core is given, if anything, and the counters.\<close>

definition core_check :: "zentry \<Rightarrow> cancellationCore \<Rightarrow> bool" where
  "core_check entry c = cc_enabled c (ze_level entry)"

definition core_write ::
  "(string \<Rightarrow> string) \<Rightarrow> zentry \<Rightarrow> zfield list \<Rightarrow> cancellationCore \<Rightarrow> series \<Rightarrow>
   (zentry \<times> zfield list) option \<times> series" where
  "core_write ulower entry flds c m =
     (let stage = cancellationStage (ze_message entry)
      in if stage \<noteq> [] \<and> fieldsContainExpectedCancellation ulower flds
         then (None, series_inc (cc_events c) [cc_listener c, stage] m)
         else (Some (entry, cc_bound c @ flds), m))"

text \<open>A call of the logger: the entry is checked, then written.\<close>

definition core_log ::
  "(string \<Rightarrow> string) \<Rightarrow> zentry \<Rightarrow> zfield list \<Rightarrow> cancellationCore \<Rightarrow> series \<Rightarrow>
   (zentry \<times> zfield list) option \<times> series" where
  "core_log ulower entry flds c m =
     (if core_check entry c then core_write ulower entry flds c m else (None, m))"

definition cancellationLogger :: "(zlevel \<Rightarrow> bool) \<Rightarrow> nat \<Rightarrow> string \<Rightarrow> cancellationCore" where
  "cancellationLogger enabled vector listener =
     \<lparr>cc_enabled = enabled, cc_bound = [], cc_events = vector, cc_listener = listener\<rparr>"

text \<open>\<open>initPlugin\<close>: the outcome of each library call it makes is an argument.\<close>

record tcp_args =
  ta_entry :: string
  ta_listen :: string
  ta_cert :: string
  ta_key :: string
  ta_idleTimeout :: int

record tcp_server =
  ts_network :: string
  ts_listen :: string
  ts_tls :: bool
  ts_idleTimeout :: duration
  ts_core :: cancellationCore

datatype tcp_init_error = EntryNotFound string | CancelMetric goerr | ReadCertificate goerr | Listen goerr

definition tcp_initPlugin ::
  "string \<Rightarrow> (zlevel \<Rightarrow> bool) \<Rightarrow> (string \<Rightarrow> bool) \<Rightarrow> nat \<Rightarrow> register_verdict \<Rightarrow>
   (string \<Rightarrow> string \<Rightarrow> goerr option) \<Rightarrow> (string \<Rightarrow> string \<Rightarrow> goerr option) \<Rightarrow> tcp_args \<Rightarrow>
   tcp_init_error + tcp_server" where
  "tcp_initPlugin tag enabled hasExecutable fresh verdict loadCert listen args =
     (let address = (if ta_listen args = [] then ''127.0.0.1:53'' else ta_listen args);
          idle = (if ta_idleTimeout args \<le> 0 then 10 else ta_idleTimeout args);
          tls = ta_key args \<noteq> [] \<or> ta_cert args \<noteq> [];
          network = (if hasPrefix address ''@'' then ''unix'' else ''tcp'')
      in if \<not> hasExecutable (ta_entry args) then Inl (EntryNotFound (ta_entry args))
         else case cancellationCounter fresh verdict of
           Inl e \<Rightarrow> Inl (CancelMetric e)
         | Inr v \<Rightarrow>
             (case (if tls then loadCert (ta_cert args) (ta_key args) else None) of
                Some e \<Rightarrow> Inl (ReadCertificate e)
              | None \<Rightarrow>
                  (case listen network address of
                     Some e \<Rightarrow> Inl (Listen e)
                   | None \<Rightarrow>
                       Inr \<lparr>ts_network = network, ts_listen = address, ts_tls = tls,
                            ts_idleTimeout = wrap64 (idle * second),
                            ts_core = cancellationLogger enabled v tag\<rparr>)))"

end
