(* ===== verification/QueryPluginsSafety.thy ===== *)
theory QueryPluginsSafety
  imports QueryPlugins
begin

text \<open>
  What the query plugins guarantee: the metrics of the collector balance under every
  interleaving of queries, disconnects are quiet in the log exactly when they are counted,
  no log entry is lost, and decision counters count the decisions.
\<close>

section \<open>The collector under concurrent queries\<close>

definition is_arrival :: "collector_event \<Rightarrow> bool" where
  "is_arrival e = (case e of Arrive t \<Rightarrow> True | Finish i now err r \<Rightarrow> False)"

definition outcome :: "(goerr option \<Rightarrow> bool) \<Rightarrow> collector_event \<Rightarrow> bool" where
  "outcome P e = (case e of Arrive t \<Rightarrow> False | Finish i now err r \<Rightarrow> P err)"

definition failed_query :: "(string \<Rightarrow> string) \<Rightarrow> goerr option \<Rightarrow> bool" where
  "failed_query ulower err \<longleftrightarrow> err \<noteq> None \<and> \<not> Expected ulower err"

lemmas collector_defs = collector_enter_def is_arrival_def outcome_def failed_query_def

lemma collector_leave_sel [simp]:
  "queryTotal (collector_leave ulower t now err r c) = queryTotal c"
  "errTotal (collector_leave ulower t now err r c) = errTotal c + (if failed_query ulower err then 1 else 0)"
  "canceledTotal (collector_leave ulower t now err r c) = canceledTotal c + (if Expected ulower err then 1 else 0)"
  "thread (collector_leave ulower t now err r c) = thread c - 1"
  by (cases err; simp add: collector_leave_def failed_query_def Let_def)+

lemma collector_step_counts:
  assumes "collector_step ulower (c, fl) e (c', fl')"
  shows "queryTotal c' = queryTotal c + (if is_arrival e then 1 else 0)"
    and "errTotal c' = errTotal c + (if outcome (failed_query ulower) e then 1 else 0)"
    and "canceledTotal c' = canceledTotal c + (if outcome (Expected ulower) e then 1 else 0)"
    and "thread c' - int (length fl') = thread c - int (length fl)"
    and "length fl' + (if is_arrival e then 0 else 1) = length fl + (if is_arrival e then 1 else 0)"
  using assms by (auto elim!: collector_stepE simp: collector_defs)

definition events :: "(collector_event \<Rightarrow> bool) \<Rightarrow> collector_event list \<Rightarrow> nat" where
  "events P es = length (filter P es)"

lemma events_simps [simp]:
  "events P [] = 0" "events P (e # es) = (if P e then 1 else 0) + events P es"
  by (simp_all add: events_def)

lemma collector_run_counts:
  "collector_run ulower s es s' \<Longrightarrow>
   queryTotal (fst s') = queryTotal (fst s) + events is_arrival es \<and>
   errTotal (fst s') = errTotal (fst s) + events (outcome (failed_query ulower)) es \<and>
   canceledTotal (fst s') = canceledTotal (fst s) + events (outcome (Expected ulower)) es \<and>
   thread (fst s') - int (length (snd s')) = thread (fst s) - int (length (snd s)) \<and>
   length (snd s') + length es = length (snd s) + 2 * events is_arrival es"
proof (induction rule: collector_run.induct)
  case (step s e s' es s'')
  obtain c fl c' fl' where s: "s = (c, fl)" "s' = (c', fl')" by fastforce
  with collector_step_counts [of ulower c fl e c' fl'] step show ?case
    by (cases "is_arrival e") auto
qed simp

lemma events_split:
  "length es = events is_arrival es + events (outcome (\<lambda>err. err = None)) es +
     events (outcome (failed_query ulower)) es + events (outcome (Expected ulower)) es"
proof (induction es)
  case (Cons e es)
  then show ?case
    by (cases e) (auto simp: is_arrival_def outcome_def failed_query_def)
qed simp

text \<open>C22. However the queries of a collector interleave, its metrics balance: the queries
  counted are those that succeeded, those counted as failed, those counted as cancelled by the
  client and those in flight; \<open>err_total\<close> and \<open>canceled_total\<close> count exactly the queries that
  ended that way; and the \<open>thread\<close> gauge is the number of queries in flight.\<close>

theorem collector_accounts:
  assumes "newCollector reg held name = (Inr c0, held')"
    and "collector_run ulower (c0, []) es (c, fl)"
  shows "queryTotal c = events (outcome (\<lambda>err. err = None)) es + errTotal c + canceledTotal c + length fl \<and>
    errTotal c = events (outcome (failed_query ulower)) es \<and>
    canceledTotal c = events (outcome (Expected ulower)) es \<and>
    thread c = int (length fl)"
proof -
  have "queryTotal c0 = 0" "errTotal c0 = 0" "canceledTotal c0 = 0" "thread c0 = 0"
    using assms(1) by (auto simp: newCollector_def split: if_splits prod.splits option.splits)
  with collector_run_counts [OF assms(2)] events_split [of es ulower] show ?thesis by simp
qed

lemma canceled_expected: "Expected ulower (Some CtxCanceled)"
  by (simp add: Expected_def)

lemma arrive_iff:
  "collector_run ulower (collector_enter c, fl @ [t]) es s \<Longrightarrow> collector_run ulower (c, fl) (Arrive t # es) s"
  by (rule collector_run.step [OF collector_step.arrive])

lemma finish_first:
  "collector_run ulower (collector_leave ulower t now err r c, fl) es s \<Longrightarrow>
   collector_run ulower (c, t # fl) (Finish 0 now err r # es) s"
  using collector_run.step [OF collector_step.finish [of 0 "t # fl" ulower c now err r]] by simp

theorem collector_accounts_witness:
  "\<exists>c. collector_run id (\<lparr>queryTotal = 0, errTotal = 0, canceledTotal = 0, thread = 0, responseLatency = []\<rparr>, [])
      [Arrive 1, Arrive 2, Finish 0 9 (Some CtxCanceled) False] (c, [2]) \<and>
    queryTotal c = 2 \<and> canceledTotal c = 1 \<and> errTotal c = 0 \<and> thread c = 1"
proof -
  let ?c = "\<lparr>queryTotal = 0, errTotal = 0, canceledTotal = 0, thread = 0, responseLatency = []\<rparr>"
  let ?d = "collector_leave id 1 9 (Some CtxCanceled) False (collector_enter (collector_enter ?c))"
  have new: "newCollector (\<lambda>_ _. None) [] ''main'' =
      (Inr ?c, map (collector_metric ''main'') collector_metrics)"
    by (simp add: newCollector_def collector_metrics_def)
  have run: "collector_run id (?c, []) [Arrive 1, Arrive 2, Finish 0 9 (Some CtxCanceled) False] (?d, [2])"
    by (rule arrive_iff, simp, rule arrive_iff, simp, rule finish_first, rule collector_run.stop)
  from collector_accounts [OF new run] run show ?thesis
    by (intro exI [of _ ?d] conjI)
      (simp_all add: outcome_def failed_query_def canceled_expected)
qed

section \<open>The logger core\<close>

text \<open>A log entry of the TCP server is never lost and never reported twice: below the
  level it is not taken at all; otherwise it reaches the wrapped core unchanged, with the
  bound fields, and no counter moves, or it is suppressed and the counter of its listener and
  stage, and no other, grows by one.\<close>

theorem core_log_conserves:
  "(case core_log ulower entry flds c m of (written, m') \<Rightarrow>
     if \<not> cc_enabled c (ze_level entry) then written = None \<and> m' = m
     else written = Some (entry, cc_bound c @ flds) \<and> m' = m \<or>
       written = None \<and> (\<exists>stage\<in>{''entry'', ''write''}. cancellationStage (ze_message entry) = stage \<and>
         (\<forall>v labels. m' v labels = m v labels +
            (if v = cc_events c \<and> labels = [cc_listener c, stage] then 1 else 0))))"
  by (simp add: core_log_def core_check_def core_write_def cancellationStage_def)

lemma expected_field:
  "fieldsContainExpectedCancellation ulower fs \<longleftrightarrow> (\<exists>e. ErrorField (Some e) \<in> set fs \<and> Expected ulower (Some e))"
  by (induction ulower fs rule: fieldsContainExpectedCancellation.induct) auto

text \<open>The log and the metrics agree on what a client disconnect is: an error that ends a
  query is kept out of the warnings of the TCP server exactly when the collector counts it
  under \<open>canceled_total\<close>, and is logged exactly when it counts under \<open>err_total\<close>.\<close>

theorem disconnects_quiet:
  assumes "cc_enabled c WarnLevel" and "\<forall>f\<in>set flds. \<exists>x. f = OtherField x"
  shows "(fst (core_log ulower \<lparr>ze_level = WarnLevel, ze_message = ''entry err''\<rparr>
        (flds @ [ErrorField (Some e)]) c m) = None \<longleftrightarrow>
      canceledTotal (collector_leave ulower t now (Some e) r col) = canceledTotal col + 1) \<and>
    (fst (core_log ulower \<lparr>ze_level = WarnLevel, ze_message = ''entry err''\<rparr>
        (flds @ [ErrorField (Some e)]) c m) \<noteq> None \<longleftrightarrow>
      errTotal (collector_leave ulower t now (Some e) r col) = errTotal col + 1)"
proof -
  have "fieldsContainExpectedCancellation ulower (flds @ [ErrorField (Some e)]) \<longleftrightarrow> Expected ulower (Some e)"
    using assms(2) by (auto simp: expected_field)
  then show ?thesis using assms(1)
    by (simp add: core_log_def core_check_def core_write_def cancellationStage_def failed_query_def Let_def)
qed

definition sample_core :: cancellationCore where
  "sample_core = \<lparr>cc_enabled = (\<lambda>l. l = WarnLevel \<or> l = ErrorLevel), cc_bound = [], cc_events = 0,
     cc_listener = ''main_tcp''\<rparr>"

theorem disconnects_quiet_witness:
  "fst (core_log id \<lparr>ze_level = WarnLevel, ze_message = ''entry err''\<rparr>
     [OtherField ''query'', ErrorField (Some (ErrNew ''write: broken pipe''))] sample_core (\<lambda>_ _. 0)) = None"
proof -
  have "Expected id (Some (ErrNew ''write: broken pipe''))"
    by (rule Expected_message [of _ "''broken pipe''"])
      (simp_all add: expectedFragments_def lower_byte_def sublist_code)
  with disconnects_quiet [of sample_core "[OtherField ''query'']" id "ErrNew ''write: broken pipe''"
      "\<lambda>_ _. 0" 0 0 False "\<lparr>queryTotal = 1, errTotal = 0, canceledTotal = 0, thread = 1, responseLatency = []\<rparr>"]
  show ?thesis by (simp add: sample_core_def)
qed

text \<open>Cancellation survives wrapping, and a timeout is not a cancellation: an error that
  wraps \<open>context.Canceled\<close> or \<open>net.ErrClosed\<close> at any depth is expected whatever its message;
  \<open>context.DeadlineExceeded\<close> alone is not.\<close>

theorem expected_through_wrapping:
  "(errors_is e CtxCanceled \<or> errors_is e NetErrClosed \<longrightarrow>
      Expected ulower (Some e) \<and> Expected ulower (Some (ErrWrap msg (before @ e # after)))) \<and>
   \<not> Expected ulower (Some CtxDeadlineExceeded)"
proof -
  have "\<not> Expected ulower (Some CtxDeadlineExceeded)"
    by (simp add: Expected_def toLower_ascii expectedFragments_def lower_byte_def sublist_code)
  moreover have "errors_is e CtxCanceled \<or> errors_is e NetErrClosed \<Longrightarrow> Expected ulower (Some e)"
    by (simp add: Expected_def)
  ultimately show ?thesis using Expected_wrapped [of e "before @ e # after"] by auto
qed

theorem expected_through_wrapping_witness:
  "Expected id (Some (ErrWrap ''query failed'' [ErrNew ''x'', ErrWrap ''upstream'' [CtxCanceled]]))"
  using expected_through_wrapping [of "ErrWrap ''upstream'' [CtxCanceled]" id "''query failed''" "[ErrNew ''x'']" "[]"]
  by simp

section \<open>Decisions\<close>

text \<open>The plugins of one process share the registry: the first registration is accepted, the
  others find the vector of the first.\<close>

fun setup_decisions :: "nat \<Rightarrow> register_verdict \<Rightarrow> string list \<Rightarrow> (goerr + executable) list" where
  "setup_decisions v verdict [] = []"
| "setup_decisions v verdict (raw # raws) =
     decision_quickSetup v verdict raw #
     setup_decisions v (if trimSpace raw = [] then verdict else AlreadyRegistered (ExistingCounterVec v)) raws"

lemma setup_decisions_ok:
  "verdict = Registered \<or> verdict = AlreadyRegistered (ExistingCounterVec v) \<Longrightarrow>
   setup_decisions v verdict raws = map Inr exs \<Longrightarrow>
   exs = map (\<lambda>raw. \<lparr>ex_vector = v, ex_decision = trimSpace raw\<rparr>) raws"
  by (induction v verdict raws arbitrary: exs rule: setup_decisions.induct)
    (auto simp: decision_quickSetup_def decisionCounter_def Let_def split: if_splits)

fun run_decisions :: "executable list \<Rightarrow> series \<Rightarrow> series" where
  "run_decisions [] m = m"
| "run_decisions (e # es) m = run_decisions es (snd (decision_exec e m))"

lemma run_decisions_counts:
  "\<forall>e\<in>set es. ex_vector e = v \<Longrightarrow>
   run_decisions es m w labels = m w labels +
     (if w = v then length (filter (\<lambda>e. labels = [ex_decision e]) es) else 0)"
  by (induction es arbitrary: m) (auto simp: decision_exec_def)

text \<open>The decision plugins of a process share one counter vector, and each series counts
  exactly the queries routed to that decision: after the queries \<open>path\<close> (indices of the
  plugins they passed), the series of a decision has grown by the number of passes through
  plugins of that name.\<close>

theorem decisions_counted:
  assumes "setup_decisions v Registered raws = map Inr exs"
    and "\<forall>i\<in>set path. i < length raws"
  shows "run_decisions (map (\<lambda>i. exs ! i) path) m v [d] =
    m v [d] + length (filter (\<lambda>i. trimSpace (raws ! i) = d) path)"
proof -
  have exs: "exs = map (\<lambda>raw. \<lparr>ex_vector = v, ex_decision = trimSpace raw\<rparr>) raws"
    using setup_decisions_ok [OF _ assms(1)] by simp
  have "\<forall>e\<in>set (map (\<lambda>i. exs ! i) path). ex_vector e = v"
    using assms(2) by (auto simp: exs)
  note run_decisions_counts [OF this, of m v "[d]"]
  moreover have "filter ((\<lambda>e. [d] = [ex_decision e]) \<circ> (\<lambda>i. exs ! i)) path =
      filter (\<lambda>i. trimSpace (raws ! i) = d) path"
    using assms(2) by (intro filter_cong) (auto simp: exs)
  ultimately show ?thesis by (simp add: filter_map)
qed

lemma trimSpace_word: "\<forall>c\<in>set s. byte c < 0x80 \<and> \<not> isSpace [c] \<Longrightarrow> trimSpace s = s"
  by (intro trimSpace_id) (auto simp: validString_ascii hasSpace_def runes_all_ascii list_ex_iff)

theorem decisions_counted_witness:
  "run_decisions (map (\<lambda>i. [\<lparr>ex_vector = 3, ex_decision = ''cn''\<rparr>, \<lparr>ex_vector = 3, ex_decision = ''foreign''\<rparr>] ! i)
     [0, 1, 0]) (\<lambda>_ _. 0) 3 [''cn''] = 2"
proof -
  have t: "trimSpace ''cn'' = ''cn''" "trimSpace ''foreign'' = ''foreign''"
    by (rule trimSpace_word, simp add: isSpace_byte)+
  then have "setup_decisions 3 Registered [''cn'', ''foreign''] =
      map Inr [\<lparr>ex_vector = 3, ex_decision = ''cn''\<rparr>, \<lparr>ex_vector = 3, ex_decision = ''foreign''\<rparr>]"
    by (simp add: decision_quickSetup_def decisionCounter_def)
  from decisions_counted [OF this, of "[0, 1, 0]" "\<lambda>_ _. 0" "''cn''"] t show ?thesis by simp
qed

end
