(* ===== verification/TcpServing.thy ===== *)
theory TcpServing
  imports QueryPluginsSafety Machine
begin

text \<open>
  internal/tcpserverplugin/server.go, the life of a started TCP server: the goroutine that serves,
  the logger it and the entry handler share (\<open>cancellationLogger\<close>), and \<open>Close\<close>.
  \<open>server.ServeTCP\<close> is MosDNS: when and with what it returns, and what it logs, are events.
\<close>

section \<open>The machine\<close>

text \<open>Where the goroutine is: in \<open>ServeTCP\<close>, after it, after \<open>SendCloseSignal\<close>, at its end.\<close>

datatype tcp_phase = InServeTCP | ServeTCPReturned "goerr option" | CloseSignalled | GoroutineDone

record serving =
  sg_phase :: tcp_phase
  sg_listening :: bool
  sg_signals :: "goerr option list"
  sg_passed :: "(zentry \<times> zfield list) list"
  sg_series :: series

text \<open>\<open>GLog bound entry flds\<close>: a call of a logger derived from the plugin's one by
  \<open>With(bound)\<close>.\<close>

datatype serving_event =
    GLog "zfield list" zentry "zfield list"
  | GServeTCPReturns "goerr option"
  | GSignal
  | GDeferredClose
  | GClose

definition serving_start :: "series \<Rightarrow> serving" where
  "serving_start m =
     \<lparr>sg_phase = InServeTCP, sg_listening = True, sg_signals = [], sg_passed = [], sg_series = m\<rparr>"

definition tcp_close :: "serving \<Rightarrow> serving" where
  "tcp_close g = g\<lparr>sg_listening := False\<rparr>"

definition serving_step ::
  "(string \<Rightarrow> string) \<Rightarrow> cancellationCore \<Rightarrow> serving \<Rightarrow> serving_event \<Rightarrow> serving option" where
  "serving_step ulower core g e =
     (case e of
        GLog bound entry flds \<Rightarrow>
          (case core_log ulower entry flds (core_with bound core) (sg_series g) of
             (out, m) \<Rightarrow> Some (g\<lparr>sg_passed := sg_passed g @ (case out of None \<Rightarrow> [] | Some x \<Rightarrow> [x]), sg_series := m\<rparr>))
      | GServeTCPReturns err \<Rightarrow>
          if sg_phase g = InServeTCP then Some (g\<lparr>sg_phase := ServeTCPReturned err\<rparr>) else None
      | GSignal \<Rightarrow>
          (case sg_phase g of
             ServeTCPReturned err \<Rightarrow> Some (g\<lparr>sg_phase := CloseSignalled, sg_signals := sg_signals g @ [err]\<rparr>)
           | _ \<Rightarrow> None)
      | GDeferredClose \<Rightarrow>
          if sg_phase g = CloseSignalled then Some ((tcp_close g)\<lparr>sg_phase := GoroutineDone\<rparr>) else None
      | GClose \<Rightarrow> Some (tcp_close g))"

definition serving_history ::
  "(string \<Rightarrow> string) \<Rightarrow> cancellationCore \<Rightarrow> series \<Rightarrow> serving_event list \<Rightarrow> serving \<Rightarrow> bool" where
  "serving_history ulower core m es g \<longleftrightarrow> run_steps (serving_step ulower core) (serving_start m) es = Some g"

interpretation serving: machine "serving_step ulower core" "serving_start m" "serving_history ulower core m"
  for ulower core m
  by unfold_locales (auto simp: serving_history_def run_steps_snoc)

lemma initPlugin_logger:
  assumes "tcp_initPlugin tag enabled hasExecutable fresh verdict loadCert listen args = Inr server"
  shows "\<exists>v. cancellationCounter fresh verdict = Inr v \<and> ts_core server = cancellationLogger enabled v tag"
  using assms by (auto simp: tcp_initPlugin_def cancellationLogger_def Let_def split: if_splits sum.splits option.splits)

section \<open>What is logged and what is signalled\<close>

text \<open>The specification of the logger: a call is dropped by its level, counted at a stage, or
  passed on.\<close>

definition counted_at :: "(string \<Rightarrow> string) \<Rightarrow> cancellationCore \<Rightarrow> string \<Rightarrow> serving_event \<Rightarrow> bool" where
  "counted_at ulower core stage e \<longleftrightarrow>
     (case e of
        GLog bound entry flds \<Rightarrow> cc_enabled core (ze_level entry) \<and>
          (\<exists>err. ErrorField (Some err) \<in> set flds \<and> Expected ulower (Some err)) \<and>
          (stage = ''entry'' \<and> ze_message entry = ''entry err'' \<or>
           stage = ''write'' \<and> ze_message entry = ''failed to write response'')
      | _ \<Rightarrow> False)"

definition passed_on :: "(string \<Rightarrow> string) \<Rightarrow> cancellationCore \<Rightarrow> serving_event \<Rightarrow> (zentry \<times> zfield list) list" where
  "passed_on ulower core e =
     (case e of
        GLog bound entry flds \<Rightarrow>
          if cc_enabled core (ze_level entry) \<and> \<not> counted_at ulower core ''entry'' e \<and> \<not> counted_at ulower core ''write'' e
          then [(entry, cc_bound core @ bound @ flds)] else []
      | _ \<Rightarrow> [])"

lemma not_logged [simp]:
  "passed_on ulower core (GServeTCPReturns err) = []" "passed_on ulower core GSignal = []"
  "passed_on ulower core GDeferredClose = []" "passed_on ulower core GClose = []"
  "\<not> counted_at ulower core stage (GServeTCPReturns err)" "\<not> counted_at ulower core stage GSignal"
  "\<not> counted_at ulower core stage GDeferredClose" "\<not> counted_at ulower core stage GClose"
  by (simp_all add: passed_on_def counted_at_def)

lemma fields_expected:
  "fieldsContainExpectedCancellation ulower flds \<longleftrightarrow>
   (\<exists>err. ErrorField (Some err) \<in> set flds \<and> Expected ulower (Some err))"
  by (induction ulower flds rule: fieldsContainExpectedCancellation.induct) auto

lemma stage_cases:
  "cancellationStage msg = (if msg = ''entry err'' then ''entry'' else if msg = ''failed to write response'' then ''write'' else [])"
  by (rule cancellationStage_def)

lemma core_log_split:
  assumes "core_log ulower entry flds (core_with bound core) m = (out, m')"
  shows "(case out of None \<Rightarrow> [] | Some x \<Rightarrow> [x]) = passed_on ulower core (GLog bound entry flds)"
    and "m' v labels = m v labels +
      (if v = cc_events core \<and> (\<exists>stage. labels = [cc_listener core, stage] \<and> counted_at ulower core stage (GLog bound entry flds))
       then 1 else 0)"
  using assms
  by (auto simp: core_log_def core_check_def core_with_def core_write_def passed_on_def counted_at_def
      stage_cases fields_expected Let_def split: if_splits)

definition counts :: "(string \<Rightarrow> string) \<Rightarrow> cancellationCore \<Rightarrow> string \<Rightarrow> serving_event list \<Rightarrow> nat" where
  "counts ulower core stage es = length (filter (counted_at ulower core stage) es)"

text \<open>What the goroutine has done with the end of \<open>ServeTCP\<close>.\<close>

fun returned_with :: "serving_event list \<Rightarrow> goerr option list" where
  "returned_with [] = []"
| "returned_with (GServeTCPReturns err # es) = err # returned_with es"
| "returned_with (e # es) = returned_with es"

lemma returned_with_append [simp]: "returned_with (es @ fs) = returned_with es @ returned_with fs"
  by (induction es rule: returned_with.induct) simp_all

definition signals_ok :: "serving_event list \<Rightarrow> serving \<Rightarrow> bool" where
  "signals_ok es g \<longleftrightarrow>
     (case sg_phase g of
        InServeTCP \<Rightarrow> returned_with es = [] \<and> sg_signals g = []
      | ServeTCPReturned err \<Rightarrow> returned_with es = [err] \<and> sg_signals g = []
      | CloseSignalled \<Rightarrow> (\<exists>err. returned_with es = [err]) \<and> sg_signals g = returned_with es
      | GoroutineDone \<Rightarrow> (\<exists>err. returned_with es = [err]) \<and> sg_signals g = returned_with es \<and> \<not> sg_listening g)"

lemma serving_step_signals:
  assumes "serving_step ulower core g e = Some g'" and "signals_ok es g"
  shows "signals_ok (es @ [e]) g'"
  using assms
  by (cases e; cases "sg_phase g")
    (auto simp: serving_step_def signals_ok_def tcp_close_def split: prod.splits if_splits)

text \<open>C31. The TCP server keeps its accounts and reports its end. Every entry logged by the server
  and its handler, through any derived logger, whose level is enabled is either passed to the
  process log, in order and with all its fields, or counted once for its stage because it
  carries an expected client cancellation; nothing is lost and nothing both. And MosDNS is asked
  to shut down exactly once, with the error of the accept loop, after it has returned and before
  the listener is closed for good.\<close>

theorem serving_accounts:
  assumes "tcp_initPlugin tag enabled hasExecutable fresh verdict loadCert listen args = Inr server"
    and "serving_history ulower (ts_core server) m es g"
  shows "sg_passed g = concat (map (passed_on ulower (ts_core server)) es) \<and>
    (\<forall>stage. sg_series g (cc_events (ts_core server)) [tag, stage] =
       m (cc_events (ts_core server)) [tag, stage] + counts ulower (ts_core server) stage es) \<and>
    (case sg_phase g of
       InServeTCP \<Rightarrow> sg_signals g = []
     | ServeTCPReturned err \<Rightarrow> sg_signals g = []
     | CloseSignalled \<Rightarrow> (\<exists>err. sg_signals g = [err] \<and> returned_with es = [err])
     | GoroutineDone \<Rightarrow> \<not> sg_listening g \<and> (\<exists>err. sg_signals g = [err] \<and> returned_with es = [err]))"
proof -
  let ?core = "ts_core server"
  have tag: "cc_listener ?core = tag"
    using initPlugin_logger [OF assms(1)] by (auto simp: cancellationLogger_def)
  have "sg_passed g = concat (map (passed_on ulower ?core) es) \<and>
    (\<forall>stage. sg_series g (cc_events ?core) [tag, stage] = m (cc_events ?core) [tag, stage] + counts ulower ?core stage es) \<and>
    signals_ok es g"
    using assms(2)
  proof (induction rule: serving.invariant)
    case start
    show ?case by (simp add: serving_start_def counts_def signals_ok_def)
  next
    case (event es g e g')
    have "signals_ok (es @ [e]) g'" using serving_step_signals [OF event(2)] event(3) by blast
    moreover have "sg_passed g' = concat (map (passed_on ulower ?core) (es @ [e])) \<and>
      (\<forall>stage. sg_series g' (cc_events ?core) [tag, stage] = m (cc_events ?core) [tag, stage] + counts ulower ?core stage (es @ [e]))"
    proof (cases e)
      case (GLog bound entry flds)
      obtain out m' where l: "core_log ulower entry flds (core_with bound ?core) (sg_series g) = (out, m')" by fastforce
      with GLog event(2) have g': "g' = g\<lparr>sg_passed := sg_passed g @ (case out of None \<Rightarrow> [] | Some x \<Rightarrow> [x]), sg_series := m'\<rparr>"
        by (simp add: serving_step_def)
      show ?thesis
        using event(3) core_log_split [OF l] tag by (simp add: g' GLog counts_def)
    qed (use event(2,3) in \<open>auto simp: serving_step_def tcp_close_def counts_def
        split: if_splits tcp_phase.splits\<close>)
    ultimately show ?case by blast
  qed
  then show ?thesis by (auto simp: signals_ok_def split: tcp_phase.splits)
qed

definition sample_args :: tcp_args where
  "sample_args = \<lparr>ta_entry = ''main'', ta_listen = '':53'', ta_cert = [], ta_key = [], ta_idleTimeout = 0\<rparr>"

definition serving_sample :: "serving_event list" where
  "serving_sample =
     [GLog [] \<lparr>ze_level = WarnLevel, ze_message = ''entry err''\<rparr> [ErrorField (Some CtxCanceled)],
      GLog [OtherField ''client''] \<lparr>ze_level = WarnLevel, ze_message = ''entry err''\<rparr> [ErrorField (Some CtxDeadlineExceeded)],
      GServeTCPReturns (Some NetErrClosed), GSignal, GDeferredClose]"

lemma sample_server:
  "\<exists>server. tcp_initPlugin ''tcp'' (\<lambda>_. True) (\<lambda>_. True) 3 Registered (\<lambda>_ _. None) (\<lambda>_ _. None) sample_args = Inr server"
  by (simp add: tcp_initPlugin_def sample_args_def cancellationCounter_def Let_def)

lemma sample_serving: "\<exists>g. serving_history ulower core (\<lambda>_ _. 0) serving_sample g \<and> sg_phase g = GoroutineDone"
  by (simp add: serving.hist_run serving_sample_def serving_step_def serving_start_def tcp_close_def split: prod.split)

theorem serving_accounts_witness:
  "\<exists>server g. tcp_initPlugin ''tcp'' (\<lambda>_. True) (\<lambda>_. True) 3 Registered (\<lambda>_ _. None) (\<lambda>_ _. None) sample_args = Inr server \<and>
     serving_history id (ts_core server) (\<lambda>_ _. 0) serving_sample g \<and> sg_signals g = [Some NetErrClosed]"
proof -
  obtain server where s: "tcp_initPlugin ''tcp'' (\<lambda>_. True) (\<lambda>_. True) 3 Registered (\<lambda>_ _. None) (\<lambda>_ _. None) sample_args =
      Inr server" using sample_server by blast
  obtain g where g: "serving_history id (ts_core server) (\<lambda>_ _. 0) serving_sample g" "sg_phase g = GoroutineDone"
    using sample_serving by blast
  from serving_accounts [OF s g(1)] g s show ?thesis by (auto simp: serving_sample_def)
qed

end
