(* ===== verification/RuleSyntax.thy ===== *)
theory RuleSyntax
  imports GoUnicode GoStrconv GoErr
begin

text \<open>
  internal/rulesplugin/rulesplugin.go, the rule language: \<open>inlineCommentIndex\<close>,
  \<open>normalizeDomainPattern\<close>, \<open>normalizeRule\<close> and \<open>sanitizeRules\<close>, with
  \<open>net.ParseIP\<close>. Three functions of the libraries are arguments, gathered in the record
  \<open>rule_lib\<close>: the lower-case table outside ASCII, the parser of IPv6 literals and the
  verdict of \<open>regexp.Compile\<close>. An error is \<open>Inl\<close>.
\<close>

record rule_lib =
  rl_lower :: "string \<Rightarrow> string"
  rl_parseIPv6 :: "string \<Rightarrow> bool"
  rl_regexp :: "string \<Rightarrow> goerr option"

section \<open>IPv4 literals\<close>

text \<open>A field is one to three digits, at most 255, without a leading zero.\<close>

definition ipv4_field :: "string \<Rightarrow> bool" where
  "ipv4_field f \<longleftrightarrow> f \<noteq> [] \<and> list_all is_digit f \<and> digits_val f \<le> 255 \<and>
     (length f = 1 \<or> hd f \<noteq> CHR ''0'')"

definition parseIPv4 :: "string \<Rightarrow> bool" where
  "parseIPv4 s \<longleftrightarrow> (let fs = splitOn CHR ''.'' s in length fs = 4 \<and> list_all ipv4_field fs)"

text \<open>The first separator decides the family; a zone makes the address unacceptable.\<close>

definition parseIP :: "rule_lib \<Rightarrow> string \<Rightarrow> bool" where
  "parseIP lib s =
     (case List.find (\<lambda>c. c \<in> {CHR ''.'', CHR '':'', CHR ''%''}) s of
        None \<Rightarrow> False
      | Some c \<Rightarrow> if c = CHR ''.'' then parseIPv4 s
                  else if c = CHR '':'' then rl_parseIPv6 lib s else False)"

section \<open>One rule\<close>

abbreviation maxRuleFileBytes :: nat where "maxRuleFileBytes \<equiv> 1048576"
abbreviation maxRegexpRuleSize :: nat where "maxRegexpRuleSize \<equiv> 4096"

abbreviation MatcherDomain :: string where "MatcherDomain \<equiv> ''domain''"
abbreviation MatcherFull :: string where "MatcherFull \<equiv> ''full''"
abbreviation MatcherKeyword :: string where "MatcherKeyword \<equiv> ''keyword''"
abbreviation MatcherRegexp :: string where "MatcherRegexp \<equiv> ''regexp''"

datatype rule_error =
    NonSpaceExpression
  | EmptyPattern
  | InvalidDomainPattern
  | InvalidDomainLabel
  | RegexpTooLong
  | InvalidRegexp goerr
  | UnsupportedMatcher string

text \<open>The loop over the runes of a label: every rune must be one of the allowed ASCII ones.\<close>

definition label_rune :: "string \<Rightarrow> bool" where
  "label_rune r =
     (case r of
        [c] \<Rightarrow> (97 \<le> byte c \<and> byte c \<le> 122) \<or> is_digit c \<or> c = CHR ''-'' \<or> c = CHR ''_''
      | _ \<Rightarrow> False)"

definition check_label :: "string \<Rightarrow> bool" where
  "check_label label \<longleftrightarrow>
     \<not> (length label = 0 \<or> 63 < length label) \<and>
     list_all label_rune (runes label) \<and>
     \<not> (hd label = CHR ''-'' \<or> last label = CHR ''-'')"

definition normalizeDomainPattern :: "rule_lib \<Rightarrow> string \<Rightarrow> rule_error + string" where
  "normalizeDomainPattern lib pattern0 =
     (let pattern = trimSuffix (toLower (rl_lower lib) pattern0) ''.''
      in if pattern = [] \<or> 253 < length pattern \<or> parseIP lib pattern then Inl InvalidDomainPattern
         else if \<not> list_all check_label (splitOn CHR ''.'' pattern) then Inl InvalidDomainLabel
         else Inr pattern)"

definition normalizeRule :: "rule_lib \<Rightarrow> string \<Rightarrow> rule_error + string" where
  "normalizeRule lib line =
     (if \<not> validString line \<or> hasSpace line then Inl NonSpaceExpression
      else
        let (typ, pattern) = (case cut line CHR '':'' of (a, b, found) \<Rightarrow>
              if found then (a, b) else (MatcherDomain, line))
        in if pattern = [] then Inl EmptyPattern
           else if typ \<in> {MatcherDomain, MatcherFull, MatcherKeyword} then
             (case normalizeDomainPattern lib pattern of
                Inl e \<Rightarrow> Inl e
              | Inr p \<Rightarrow> Inr (typ @ CHR '':'' # p))
           else if typ = MatcherRegexp then
             (if maxRegexpRuleSize < length pattern then Inl RegexpTooLong
              else case rl_regexp lib pattern of
                Some e \<Rightarrow> Inl (InvalidRegexp e)
              | None \<Rightarrow> Inr (typ @ CHR '':'' # pattern))
           else Inl (UnsupportedMatcher typ))"

section \<open>A file of rules\<close>

text \<open>The loop from index \<open>i\<close> on.\<close>

function comment_from :: "nat \<Rightarrow> string \<Rightarrow> nat option" where
  "comment_from i line =
     (if i < length line
      then if line ! i = CHR ''#'' \<and> (line ! (i - 1) = CHR '' '' \<or> line ! (i - 1) = char_of (9::nat))
           then Some i else comment_from (Suc i) line
      else None)"
  by pat_completeness auto
termination
  by (relation "measure (\<lambda>(i, line). length line - i)") auto

declare comment_from.simps [simp del]

definition inlineCommentIndex :: "string \<Rightarrow> nat option" where
  "inlineCommentIndex line = comment_from 1 line"

record ruleStats =
  meaningful :: nat
  rejected :: nat

abbreviation newline :: char where "newline \<equiv> char_of (10::nat)"

text \<open>What the loop body makes of one line: nothing for a blank line or a comment, otherwise
  the text of the rule.\<close>

definition rule_text :: "string \<Rightarrow> string option" where
  "rule_text line0 =
     (let line = trimSpace (trimSuffix line0 [char_of (13::nat)])
      in if line = [] \<or> hasPrefix line ''#'' then None
         else Some (case inlineCommentIndex line of
                None \<Rightarrow> line
              | Some i \<Rightarrow> trimSpace (take i line)))"

fun sanitize_lines ::
  "rule_lib \<Rightarrow> string list \<Rightarrow> string list \<Rightarrow> ruleStats \<Rightarrow> string list \<times> ruleStats" where
  "sanitize_lines lib [] rules stats = (rules, stats)"
| "sanitize_lines lib (line # ls) rules stats =
     (case rule_text line of
        None \<Rightarrow> sanitize_lines lib ls rules stats
      | Some text \<Rightarrow>
          let stats' = stats\<lparr>meaningful := meaningful stats + 1\<rparr>
          in (case normalizeRule lib text of
                Inl e \<Rightarrow> sanitize_lines lib ls rules (stats'\<lparr>rejected := rejected stats' + 1\<rparr>)
              | Inr rule \<Rightarrow> sanitize_lines lib ls (rules @ [rule]) stats'))"

definition sanitizeRules ::
  "rule_lib \<Rightarrow> string \<Rightarrow> goerr + string list \<times> string \<times> ruleStats" where
  "sanitizeRules lib raw =
     (if maxRuleFileBytes < length raw then Inl (ErrNew ''rule file exceeds 1048576 bytes'')
      else case sanitize_lines lib (splitOn newline raw) [] \<lparr>meaningful = 0, rejected = 0\<rparr> of
        (rules, stats) \<Rightarrow>
          if rules = [] then Inr (rules, [], stats)
          else Inr (rules, joinWith newline rules @ [newline], stats))"

end
