(* ===== verification/RuleSyntaxSafety.thy ===== *)
theory RuleSyntaxSafety
  imports RuleSyntax
begin

text \<open>
  The rule language of internal/rulesplugin: the grammar of the accepted rules, the
  normaliser against it, and the sanitiser of a file (idempotence, and where it fails).
\<close>

section \<open>The grammar\<close>

definition label_byte :: "char \<Rightarrow> bool" where
  "label_byte c \<longleftrightarrow> (97 \<le> byte c \<and> byte c \<le> 122) \<or> is_digit c \<or> c = CHR ''-'' \<or> c = CHR ''_''"

definition label_ok :: "string \<Rightarrow> bool" where
  "label_ok l \<longleftrightarrow> l \<noteq> [] \<and> length l \<le> 63 \<and> list_all label_byte l \<and> hd l \<noteq> CHR ''-'' \<and> last l \<noteq> CHR ''-''"

definition domain_ok :: "string \<Rightarrow> bool" where
  "domain_ok p \<longleftrightarrow> length p \<le> 253 \<and> list_all label_ok (splitOn CHR ''.'' p) \<and> \<not> parseIPv4 p"

definition rule_ok :: "rule_lib \<Rightarrow> string \<Rightarrow> bool" where
  "rule_ok lib r \<longleftrightarrow>
     (case cut r CHR '':'' of (ty, pattern, found) \<Rightarrow>
        found \<and> (ty \<in> {MatcherDomain, MatcherFull, MatcherKeyword} \<and> domain_ok pattern \<or>
          ty = MatcherRegexp \<and> pattern \<noteq> [] \<and> length pattern \<le> maxRegexpRuleSize \<and>
          rl_regexp lib pattern = None \<and> validString r \<and> \<not> hasSpace r))"

section \<open>Domain patterns\<close>

lemma label_byte_cases:
  assumes "label_byte c"
  shows "(97 \<le> byte c \<and> byte c \<le> 122) \<or> (48 \<le> byte c \<and> byte c \<le> 57) \<or> byte c = 45 \<or> byte c = 95"
  using assms by (auto simp: label_byte_def is_digit_def)

lemma label_byte_ascii:
  assumes "label_byte c"
  shows "byte c < 0x80 \<and> lower_byte c = c \<and> \<not> isSpace [c] \<and>
    c \<noteq> CHR ''.'' \<and> c \<noteq> CHR '':'' \<and> c \<noteq> CHR ''%''"
proof -
  note b = label_byte_cases [OF assms]
  from b have "c \<noteq> CHR ''.''" "c \<noteq> CHR '':''" "c \<noteq> CHR ''%''" by auto
  moreover have "byte c < 0x80" "lower_byte c = c" using b by (auto simp: lower_byte_def)
  moreover have "\<not> isSpace [c]" using b unfolding isSpace_byte by auto
  ultimately show ?thesis by blast
qed

lemma label_rune_one: "label_rune [c] = label_byte c"
  by (simp add: label_rune_def label_byte_def)

lemma label_rune_byte: "label_rune r \<Longrightarrow> \<exists>c. r = [c] \<and> label_byte c"
  by (auto simp: label_rune_def label_byte_def split: list.splits)

lemma label_bytes: "list_all label_byte l \<Longrightarrow> list_all label_rune (runes l)"
  by (auto simp: runes_all_ascii label_byte_ascii label_rune_one list_all_iff)

lemma label_runes: "list_all label_rune (runes l) \<longleftrightarrow> list_all label_byte l"
proof
  assume runes: "list_all label_rune (runes l)"
  have "label_byte c" if "c \<in> set l" for c
  proof -
    from that obtain r where "r \<in> set (runes l)" "c \<in> set r"
      by (metis concat_runes UN_E set_concat)
    with runes label_rune_byte show ?thesis by (fastforce simp: list_all_iff)
  qed
  then show "list_all label_byte l" by (simp add: list_all_iff)
qed (rule label_bytes)

lemma check_label: "check_label = label_ok"
  by (rule ext) (auto simp: check_label_def label_ok_def label_runes)

lemma set_splitOn: "set s \<subseteq> insert c (\<Union> (set ` set (splitOn c s)))"
proof (induction s)
  case (Cons x xs)
  then show ?case by (cases "splitOn c xs") (auto split: if_splits)
qed simp

lemma splitOn_last_sep: "splitOn c (s @ [c]) = splitOn c s @ [[]]"
proof (induction s)
  case (Cons x xs)
  then show ?case by (cases "splitOn c xs") auto
qed simp

lemma labels_bytes:
  assumes "list_all label_ok (splitOn CHR ''.'' p)" and "c \<in> set p"
  shows "label_byte c \<or> c = CHR ''.''"
  using set_splitOn [of p "CHR ''.''"] assms by (fastforce simp: list_all_iff label_ok_def)

lemma labels_nonempty: "list_all label_ok (splitOn CHR ''.'' p) \<Longrightarrow> p \<noteq> []"
  by (auto simp: label_ok_def)

lemma dot_not_space: "byte c < 0x80 \<and> lower_byte c = c \<and> \<not> isSpace [c]" if "c = CHR ''.''"
  using that by (simp add: lower_byte_def isSpace_byte)

lemma labels_plain:
  assumes "list_all label_ok (splitOn CHR ''.'' p)"
  shows "\<forall>c\<in>set p. byte c < 0x80 \<and> lower_byte c = c \<and> \<not> isSpace [c]"
  using labels_bytes [OF assms] label_byte_ascii dot_not_space by blast

lemma labels_parseIP:
  assumes "list_all label_ok (splitOn CHR ''.'' p)"
  shows "parseIP lib p = parseIPv4 p"
proof (cases "CHR ''.'' \<in> set p")
  case True
  have "c = CHR ''.''" if "List.find (\<lambda>c. c \<in> {CHR ''.'', CHR '':'', CHR ''%''}) p = Some c" for c
  proof -
    from that have "c \<in> set p" "c \<in> {CHR ''.'', CHR '':'', CHR ''%''}"
      by (auto simp: find_Some_iff) (metis nth_mem)+
    then show ?thesis using labels_bytes [OF assms] label_byte_ascii by blast
  qed
  moreover have "List.find (\<lambda>c. c \<in> {CHR ''.'', CHR '':'', CHR ''%''}) p \<noteq> None"
    using True by (auto simp: find_None_iff)
  ultimately show ?thesis by (auto simp: parseIP_def)
next
  case False
  then have "List.find (\<lambda>c. c \<in> {CHR ''.'', CHR '':'', CHR ''%''}) p = None"
    using labels_bytes [OF assms] label_byte_ascii by (auto simp: find_None_iff)
  with False show ?thesis by (simp add: parseIP_def parseIPv4_def splitOn_single)
qed

lemma labels_trim: "list_all label_ok (splitOn CHR ''.'' p) \<Longrightarrow> trimSuffix p ''.'' = p"
  by (auto simp: trimSuffix_def suffix_def splitOn_last_sep label_ok_def)

lemma domain_fixed:
  assumes "domain_ok p"
  shows "normalizeDomainPattern lib p = Inr p"
proof -
  have l: "list_all label_ok (splitOn CHR ''.'' p)" using assms by (simp add: domain_ok_def)
  have "map lower_byte p = p"
    using labels_plain [OF l] by (simp add: map_idI)
  then have "toLower (rl_lower lib) p = p"
    using labels_plain [OF l] by (simp add: toLower_ascii)
  moreover have "list_all check_label (splitOn CHR ''.'' p)" using l by (simp add: check_label)
  ultimately show ?thesis
    using assms labels_trim [OF l] labels_nonempty [OF l] labels_parseIP [OF l, of lib]
    by (simp add: normalizeDomainPattern_def domain_ok_def)
qed

lemma domain_accepted: "normalizeDomainPattern lib p0 = Inr p \<Longrightarrow> domain_ok p"
proof -
  assume "normalizeDomainPattern lib p0 = Inr p"
  then have p: "length p \<le> 253" "\<not> parseIP lib p" "list_all check_label (splitOn CHR ''.'' p)"
    by (auto simp: normalizeDomainPattern_def Let_def split: if_splits)
  then have l: "list_all label_ok (splitOn CHR ''.'' p)" by (simp add: check_label)
  with p labels_parseIP [OF l, of lib] show ?thesis by (simp add: domain_ok_def)
qed

section \<open>Rules\<close>

lemma no_colon_types: "ty \<in> {MatcherDomain, MatcherFull, MatcherKeyword} \<or> ty = MatcherRegexp \<Longrightarrow>
   CHR '':'' \<notin> set ty \<and> (\<forall>c\<in>set ty. byte c < 0x80 \<and> \<not> isSpace [c]) \<and> ty \<noteq> [] \<and> hd ty \<noteq> CHR ''#''"
  by (auto simp: isSpace_byte)

lemma cut_rule: "CHR '':'' \<notin> set ty \<Longrightarrow> cut (ty @ CHR '':'' # p) CHR '':'' = (ty, p, True)"
  by (rule cut_found)

lemma plain_valid: "\<forall>c\<in>set s. byte c < 0x80 \<and> \<not> isSpace [c] \<Longrightarrow> validString s \<and> \<not> hasSpace s"
  by (auto simp: validString_ascii hasSpace_def runes_all_ascii list_ex_iff)

lemma rule_ok_shape:
  assumes "rule_ok lib r"
  obtains (domain) ty p where "r = ty @ CHR '':'' # p" "ty \<in> {MatcherDomain, MatcherFull, MatcherKeyword}" "domain_ok p"
  | (regexp) p where "r = MatcherRegexp @ CHR '':'' # p" "p \<noteq> []" "length p \<le> maxRegexpRuleSize"
      "rl_regexp lib p = None" "validString r" "\<not> hasSpace r"
proof -
  obtain ty p found where c: "cut r CHR '':'' = (ty, p, found)" by (metis prod.exhaust)
  with assms have found and k: "ty \<in> {MatcherDomain, MatcherFull, MatcherKeyword} \<and> domain_ok p \<or>
      ty = MatcherRegexp \<and> p \<noteq> [] \<and> length p \<le> maxRegexpRuleSize \<and> rl_regexp lib p = None \<and>
      validString r \<and> \<not> hasSpace r" by (simp_all add: rule_ok_def)
  with c have "r = ty @ CHR '':'' # p" using cut_parts(1) by simp
  with k that show ?thesis by blast
qed

lemma rule_plain:
  assumes "rule_ok lib r"
  shows "validString r \<and> \<not> hasSpace r \<and> r \<noteq> [] \<and> hd r \<noteq> CHR ''#''"
  using assms
proof (cases rule: rule_ok_shape)
  case (domain ty p)
  have "list_all label_ok (splitOn CHR ''.'' p)" using domain(3) by (simp add: domain_ok_def)
  then have "\<forall>c\<in>set r. byte c < 0x80 \<and> \<not> isSpace [c]"
    using domain no_colon_types [of ty] labels_plain by (auto simp: isSpace_byte)
  with plain_valid domain no_colon_types [of ty] show ?thesis by auto
qed auto

lemma rule_fixed:
  assumes "rule_ok lib r"
  shows "normalizeRule lib r = Inr r"
  using assms
proof (cases rule: rule_ok_shape)
  case (domain ty p)
  then have "p \<noteq> []" using labels_nonempty by (auto simp: domain_ok_def)
  with domain rule_plain [OF assms] no_colon_types [of ty] domain_fixed [of p lib] show ?thesis
    by (auto simp: normalizeRule_def cut_rule)
next
  case (regexp p)
  with no_colon_types [of MatcherRegexp] show ?thesis
    by (simp add: normalizeRule_def cut_rule [of MatcherRegexp p, simplified])
qed

lemma rule_accepted:
  assumes "normalizeRule lib line = Inr r"
  shows "rule_ok lib r"
proof -
  obtain ty p found where c: "cut line CHR '':'' = (ty, p, found)" by (metis prod.exhaust)
  define t where "t = (if found then ty else MatcherDomain)"
  define q where "q = (if found then p else line)"
  have eq: "normalizeRule lib line =
     (if \<not> validString line \<or> hasSpace line then Inl NonSpaceExpression
      else if q = [] then Inl EmptyPattern
      else if t \<in> {MatcherDomain, MatcherFull, MatcherKeyword} then
        (case normalizeDomainPattern lib q of Inl e \<Rightarrow> Inl e | Inr p \<Rightarrow> Inr (t @ CHR '':'' # p))
      else if t = MatcherRegexp then
        (if maxRegexpRuleSize < length q then Inl RegexpTooLong
         else case rl_regexp lib q of Some e \<Rightarrow> Inl (InvalidRegexp e) | None \<Rightarrow> Inr (t @ CHR '':'' # q))
      else Inl (UnsupportedMatcher t))"
    using c unfolding normalizeRule_def t_def q_def by (cases found) simp_all
  have v: "\<not> (\<not> validString line \<or> hasSpace line)"
    using assms unfolding eq by (rule contrapos_pn) simp
  have q: "q \<noteq> []"
    using assms unfolding eq if_not_P [OF v] by (rule contrapos_pn) simp
  note n = v q assms [unfolded eq if_not_P [OF v] if_not_P [OF q]]
  show ?thesis
  proof (cases "t \<in> {MatcherDomain, MatcherFull, MatcherKeyword}")
    case True
    with n obtain d where "normalizeDomainPattern lib q = Inr d" "r = t @ CHR '':'' # d"
      by (auto split: sum.splits)
    with True domain_accepted no_colon_types [of t] show ?thesis by (simp add: rule_ok_def cut_rule)
  next
    case False
    then have found by (auto simp: t_def split: if_splits)
    with c have "line = t @ CHR '':'' # q" using cut_parts(1) by (simp add: t_def q_def)
    moreover have "t = MatcherRegexp" "length q \<le> maxRegexpRuleSize" "rl_regexp lib q = None" "r = t @ CHR '':'' # q"
      using n False by (simp_all split: if_splits option.splits)
    ultimately show ?thesis using n cut_rule [of MatcherRegexp q] by (simp add: rule_ok_def)
  qed
qed

text \<open>C36. The normaliser accepts exactly the rule language: whatever it returns is a rule of
  the grammar (a type, a colon, and a lower-case domain of labels of 1 to 63 of the bytes
  \<open>a-z0-9-_\<close> that is no IP address, or a compilable regular expression of at most 4096
  bytes), the rules of the grammar are its fixed points, and it changes nothing twice.\<close>

theorem normalizeRule_grammar:
  "(normalizeRule lib r = Inr r \<longleftrightarrow> rule_ok lib r) \<and>
   (case normalizeRule lib line of Inl e \<Rightarrow> True | Inr rule \<Rightarrow> rule_ok lib rule \<and> normalizeRule lib rule = Inr rule)"
  using rule_fixed [of lib] rule_accepted [of lib] by (auto split: sum.splits)

section \<open>Lines\<close>

lemma no_comment: "CHR '' '' \<notin> set line \<Longrightarrow> char_of (9::nat) \<notin> set line \<Longrightarrow> 0 < i \<Longrightarrow> comment_from i line = None"
proof (induction i line rule: comment_from.induct)
  case (1 i line)
  have "line ! (i - 1) \<noteq> CHR '' '' \<and> line ! (i - 1) \<noteq> char_of (9::nat)" if "i < length line"
    using that "1.prems" by (metis less_imp_diff_less nth_mem)
  with 1 show ?case by (subst comment_from.simps) auto
qed

lemma rule_no_space_byte:
  assumes "rule_ok lib r" and "isSpace [c]"
  shows "c \<notin> set r"
  using rule_plain [OF assms(1)] no_space_byte [of r c] assms(2) by blast

lemma rule_text_plain:
  assumes p: "validString r" "\<not> hasSpace r" "r \<noteq> []" "hd r \<noteq> CHR ''#''"
  shows "rule_text r = Some r"
proof -
  have sp: "isSpace [c] \<Longrightarrow> c \<notin> set r" for c
    using no_space_byte [of r c] p by blast
  have "\<not> suffix [char_of (13::nat)] r"
    using sp [of "char_of (13::nat)"] by (auto simp: isSpace_byte suffix_def)
  then have "trimSpace (trimSuffix r [char_of (13::nat)]) = r"
    using p by (simp add: trimSuffix_id trimSpace_id)
  moreover have "\<not> hasPrefix r ''#''" using p by (cases r) auto
  moreover have "inlineCommentIndex r = None"
    unfolding inlineCommentIndex_def
    using sp [of "CHR '' ''"] sp [of "char_of (9::nat)"]
    by (intro no_comment) (simp_all add: isSpace_byte)
  ultimately show ?thesis using p by (simp add: rule_text_def)
qed

lemma rule_text_rule: "rule_ok lib r \<Longrightarrow> rule_text r = Some r"
  using rule_plain rule_text_plain by blast

lemma rule_text_blank: "rule_text [] = None"
  by (simp add: rule_text_def trimSuffix_id)

lemma sanitize_lines_append:
  "sanitize_lines lib (xs @ ys) rules stats =
     (case sanitize_lines lib xs rules stats of (rules', stats') \<Rightarrow> sanitize_lines lib ys rules' stats')"
  by (induction lib xs rules stats rule: sanitize_lines.induct)
    (simp_all add: Let_def split: option.split sum.split)

lemma sanitize_lines_rules:
  "\<forall>r\<in>set rs. rule_ok lib r \<Longrightarrow>
   sanitize_lines lib rs rules stats = (rules @ rs, stats\<lparr>meaningful := meaningful stats + length rs\<rparr>)"
proof (induction rs arbitrary: rules stats)
  case (Cons r rs)
  then have "rule_text r = Some r" "normalizeRule lib r = Inr r"
    using rule_text_rule [of lib r] rule_fixed [of lib r] by simp_all
  with Cons show ?case by simp
qed simp

lemma sanitize_lines_ok:
  "sanitize_lines lib ls rules stats = (rules', stats') \<Longrightarrow>
   \<forall>r\<in>set rules. rule_ok lib r \<Longrightarrow> meaningful stats = length rules + rejected stats \<Longrightarrow>
   (\<forall>r\<in>set rules'. rule_ok lib r) \<and> meaningful stats' = length rules' + rejected stats'"
proof (induction lib ls rules stats rule: sanitize_lines.induct)
  case (2 lib line ls rules stats)
  show ?case
  proof (cases "rule_text line")
    case (Some body)
    with 2 rule_accepted show ?thesis by (cases "normalizeRule lib body") (simp_all add: Let_def)
  qed (use "2" in simp)
qed simp

definition rules_file :: "string list \<Rightarrow> string" where
  "rules_file rules = concat (map (\<lambda>r. r @ [newline]) rules)"

lemma split_rules_file:
  assumes "\<forall>r\<in>set rules. newline \<notin> set r"
  shows "splitOn newline (rules_file rules) = rules @ [[]]"
  using assms by (induction rules) (simp_all add: rules_file_def splitOn_append)

lemma rule_no_newline: "rule_ok lib r \<Longrightarrow> newline \<notin> set r"
  using rule_no_space_byte [of lib r newline] by (simp add: isSpace_byte)

lemma sanitize_rules_file:
  assumes "\<forall>r\<in>set rules. rule_ok lib r" and "length (rules_file rules) \<le> maxRuleFileBytes"
  shows "sanitizeRules lib (rules_file rules) =
    Inr (rules, rules_file rules, \<lparr>meaningful = length rules, rejected = 0\<rparr>)"
proof -
  have "splitOn newline (rules_file rules) = rules @ [[]]"
    using assms(1) rule_no_newline by (intro split_rules_file) blast
  then have "sanitize_lines lib (splitOn newline (rules_file rules)) [] \<lparr>meaningful = 0, rejected = 0\<rparr> =
      (rules, \<lparr>meaningful = length rules, rejected = 0\<rparr>)"
    using assms(1) by (simp add: sanitize_lines_append sanitize_lines_rules rule_text_blank)
  then show ?thesis
    using assms(2) by (auto simp: sanitizeRules_def rules_file_def joinWith_snoc_sep)
qed

lemma sanitize_ok:
  assumes "sanitizeRules lib raw = Inr (rules, cleaned, stats)"
  shows "(\<forall>r\<in>set rules. rule_ok lib r) \<and> cleaned = rules_file rules \<and>
    meaningful stats = length rules + rejected stats \<and> length raw \<le> maxRuleFileBytes"
proof -
  obtain rs st where s: "sanitize_lines lib (splitOn newline raw) [] \<lparr>meaningful = 0, rejected = 0\<rparr> = (rs, st)"
    by fastforce
  with assms have "rules = rs" "stats = st" "cleaned = rules_file rules" "length raw \<le> maxRuleFileBytes"
    by (auto simp: sanitizeRules_def rules_file_def joinWith_snoc_sep split: if_splits)
  with sanitize_lines_ok [OF s] show ?thesis by simp
qed

text \<open>Sanitising is sound and settles: every rule kept is in the grammar, every line with
  content is kept or counted as rejected, the cleaned text is the kept rules one per line, and
  sanitising the cleaned text returns the same rules and the same text with nothing rejected,
  as long as the cleaned text is within the size limit.\<close>

theorem sanitize_idempotent:
  "(case sanitizeRules lib raw of
      Inl e \<Rightarrow> maxRuleFileBytes < length raw
    | Inr (rules, cleaned, stats) \<Rightarrow>
        (\<forall>r\<in>set rules. rule_ok lib r) \<and> cleaned = rules_file rules \<and>
        meaningful stats = length rules + rejected stats \<and>
        (length cleaned \<le> maxRuleFileBytes \<longrightarrow>
          sanitizeRules lib cleaned = Inr (rules, cleaned, \<lparr>meaningful = length rules, rejected = 0\<rparr>)))"
proof (cases "sanitizeRules lib raw")
  case (Inl e)
  then show ?thesis by (auto simp: sanitizeRules_def split: if_splits prod.splits)
next
  case (Inr x)
  obtain rules cleaned stats where x: "x = (rules, cleaned, stats)" by (metis prod.exhaust)
  from sanitize_ok [OF Inr [unfolded x]] sanitize_rules_file [of rules lib] show ?thesis
    by (simp add: Inr x)
qed

section \<open>The size limit\<close>

lemma domain_a: "rule_ok lib ''domain:a'' \<and> rule_text ''a'' = Some ''a'' \<and> normalizeRule lib ''a'' = Inr ''domain:a''"
proof -
  have p: "validString ''a'' \<and> \<not> hasSpace ''a''" by (rule plain_valid) (simp add: isSpace_byte)
  have d: "domain_ok ''a''"
    by (simp add: domain_ok_def label_ok_def label_byte_def is_digit_def parseIPv4_def)
  then have a: "rule_ok lib ''domain:a''" by (simp add: rule_ok_def cut_def)
  have "normalizeDomainPattern lib ''a'' = Inr ''a''" by (rule domain_fixed [OF d])
  with p a rule_text_plain [of "''a''"] show ?thesis
    by (simp add: normalizeRule_def cut_def)
qed

lemma sanitize_bare:
  "sanitize_lines lib (replicate n ''a'' @ [[]]) rules stats =
     (rules @ replicate n ''domain:a'', stats\<lparr>meaningful := meaningful stats + n\<rparr>)"
proof (induction n arbitrary: rules stats)
  case 0
  then show ?case by (simp add: rule_text_blank)
next
  case (Suc n)
  with domain_a [of lib] show ?case by simp
qed

lemma length_rules_file: "length (rules_file (replicate n r)) = n * (length r + 1)"
  by (induction n) (simp_all add: rules_file_def)

text \<open>A bare name grows by its \<open>domain:\<close> prefix: a file of bare names within the limit is
  accepted whole, and its cleaned text can be refused when it is read again.\<close>

lemma outgrows_limit:
  assumes "116508 < n" and "n \<le> 524288"
  shows "sanitizeRules lib (rules_file (replicate n ''a'')) =
      Inr (replicate n ''domain:a'', rules_file (replicate n ''domain:a''), \<lparr>meaningful = n, rejected = 0\<rparr>) \<and>
    sanitizeRules lib (rules_file (replicate n ''domain:a'')) =
      Inl (ErrNew ''rule file exceeds 1048576 bytes'')"
proof
  have "replicate n ''domain:a'' \<noteq> []" using assms by simp
  then have "joinWith newline (replicate n ''domain:a'') @ [newline] = rules_file (replicate n ''domain:a'')"
    unfolding rules_file_def by (rule joinWith_snoc_sep)
  moreover have "splitOn newline (rules_file (replicate n ''a'')) = replicate n ''a'' @ [[]]"
    by (rule split_rules_file) (auto simp: char_of_def)
  ultimately show "sanitizeRules lib (rules_file (replicate n ''a'')) =
      Inr (replicate n ''domain:a'', rules_file (replicate n ''domain:a''), \<lparr>meaningful = n, rejected = 0\<rparr>)"
    using assms by (simp add: sanitizeRules_def sanitize_bare length_rules_file)
  show "sanitizeRules lib (rules_file (replicate n ''domain:a'')) =
      Inl (ErrNew ''rule file exceeds 1048576 bytes'')"
    using assms by (simp add: sanitizeRules_def length_rules_file)
qed

lemma one_bare_rule:
  "sanitizeRules lib (rules_file [''a'']) =
     Inr ([''domain:a''], rules_file [''domain:a''], \<lparr>meaningful = 1, rejected = 0\<rparr>)"
proof -
  have "splitOn newline (rules_file [''a'']) = [''a''] @ [[]]"
    by (rule split_rules_file) (auto simp: char_of_def)
  moreover have "sanitize_lines lib ([''a''] @ [[]]) [] \<lparr>meaningful = 0, rejected = 0\<rparr> =
      ([''domain:a''], \<lparr>meaningful = 1, rejected = 0\<rparr>)"
    using sanitize_bare [of lib 1 "[]" "\<lparr>meaningful = 0, rejected = 0\<rparr>"] by simp
  ultimately show ?thesis by (simp add: sanitizeRules_def rules_file_def)
qed

theorem sanitize_idempotent_witness:
  "sanitizeRules \<lparr>rl_lower = id, rl_parseIPv6 = \<lambda>_. False, rl_regexp = \<lambda>_. None\<rparr> (rules_file [''domain:a'']) =
     Inr ([''domain:a''], rules_file [''domain:a''], \<lparr>meaningful = 1, rejected = 0\<rparr>)"
  using sanitize_idempotent [of "rules_file [''a'']" "\<lparr>rl_lower = id, rl_parseIPv6 = \<lambda>_. False, rl_regexp = \<lambda>_. None\<rparr>"]
  unfolding one_bare_rule by (simp add: rules_file_def)

end
