(* ===== verification/FileSys.thy ===== *)
theory FileSys
  imports GoErr
begin

text \<open>
  The part of package \<open>os\<close> the program uses on regular files: a file system maps a path to the
  content and the permission bits of a file. An operation of the model takes the faults of the
  calls it makes as arguments (\<open>None\<close> when the call succeeds).
\<close>

record regfile =
  f_data :: string
  f_mode :: nat

type_synonym fs = "string \<rightharpoonup> regfile"

datatype read_error = NotExist | ReadFailed goerr

definition readFile :: "(string \<Rightarrow> goerr option) \<Rightarrow> fs \<Rightarrow> string \<Rightarrow> read_error + string" where
  "readFile fault fs path =
     (case fault path of
        Some e \<Rightarrow> Inl (ReadFailed e)
      | None \<Rightarrow> (case fs path of None \<Rightarrow> Inl NotExist | Some f \<Rightarrow> Inr (f_data f)))"

text \<open>\<open>os.Rename\<close> replaces the target; \<open>os.Remove\<close> of a missing file does nothing here, its
  error being ignored by every caller.\<close>

definition rename :: "string \<Rightarrow> string \<Rightarrow> fs \<Rightarrow> fs" where
  "rename old new fs = fs(new := fs old, old := None)"

definition remove :: "string \<Rightarrow> fs \<Rightarrow> fs" where
  "remove path fs = fs(path := None)"

lemma rename_apply: "old \<noteq> new \<Longrightarrow> rename old new fs p = (if p = old then None else if p = new then fs old else fs p)"
  by (simp add: rename_def)

lemma remove_apply [simp]: "remove path fs p = (if p = path then None else fs p)"
  by (simp add: remove_def)

text \<open>What every atomic write promises: on success the target holds exactly the new content, on
  an error it holds what it held, and no other file but the temporary one is touched.\<close>

definition atomic_write :: "string \<Rightarrow> string \<Rightarrow> string \<Rightarrow> fs \<Rightarrow> goerr option \<Rightarrow> fs \<Rightarrow> bool" where
  "atomic_write tmp path data fs err fs' \<longleftrightarrow>
     (case err of
        None \<Rightarrow> (\<exists>mode. fs' path = Some \<lparr>f_data = data, f_mode = mode\<rparr>)
      | Some e \<Rightarrow> fs' path = fs path) \<and>
     (\<forall>p. p \<noteq> path \<and> p \<noteq> tmp \<longrightarrow> fs' p = fs p)"

lemma atomic_write_read:
  "atomic_write tmp path data fs None fs' \<Longrightarrow> fault path = None \<Longrightarrow> readFile fault fs' path = Inr data"
  by (auto simp: atomic_write_def readFile_def)

section \<open>The interface of an atomic write\<close>

text \<open>Both parts of the program that replace files, the rule plugin and the configuration, rely
  on this: a write through the environment \<open>e\<close> of its calls, by way of one temporary file.\<close>

locale atomic_writer =
  fixes wr :: "'e \<Rightarrow> string \<Rightarrow> string \<Rightarrow> fs \<Rightarrow> goerr option \<times> fs"
    and tmp :: "'e \<Rightarrow> string \<Rightarrow> string"
  assumes atomic: "tmp e path \<noteq> path \<Longrightarrow> wr e path data fs = (err, fs') \<Longrightarrow>
    atomic_write (tmp e path) path data fs err fs'"
begin

lemma ok: "wr e path data fs = (None, fs') \<Longrightarrow> tmp e path \<noteq> path \<Longrightarrow> map_option f_data (fs' path) = Some data"
  using atomic [of e path data fs None fs'] by (auto simp: atomic_write_def)

lemma error: "wr e path data fs = (Some x, fs') \<Longrightarrow> tmp e path \<noteq> path \<Longrightarrow> fs' path = fs path"
  using atomic [of e path data fs "Some x" fs'] by (simp add: atomic_write_def)

lemma other: "wr e path data fs = (err, fs') \<Longrightarrow> tmp e path \<noteq> path \<Longrightarrow> p \<noteq> path \<Longrightarrow> p \<noteq> tmp e path \<Longrightarrow> fs' p = fs p"
  using atomic [of e path data fs err fs'] by (simp add: atomic_write_def)

lemma read_back: "wr e path data fs = (None, fs') \<Longrightarrow> tmp e path \<noteq> path \<Longrightarrow> fault path = None \<Longrightarrow>
  readFile fault fs' path = Inr data"
  using atomic_write_read [OF atomic] by blast

text \<open>Whatever happened, a reader finds the old text or the new one.\<close>

lemma old_or_new: "wr e path data fs = (err, fs') \<Longrightarrow> tmp e path \<noteq> path \<Longrightarrow>
  map_option f_data (fs' path) \<in> {map_option f_data (fs path), Some data}"
  using ok [of e path data fs fs'] error [of e path data fs _ fs'] by (cases err) auto

end

end
