(* ===== verification/RuleFile.thy ===== *)
theory RuleFile
  imports RuleSyntaxSafety FileSys
begin

text \<open>
  internal/rulesplugin/rulesplugin.go, the plugin: \<open>writeFileAtomic\<close>, \<open>buildMatcher\<close>,
  \<open>reload\<close>, \<open>restoreOrClear\<close>, \<open>newRuleFile\<close>, \<open>Match\<close>, \<open>Close\<close> and the debouncing
  goroutine \<open>watch\<close>. The domain matcher of MosDNS is the record \<open>matcher_lib\<close> of its
  operations. A reload is one step: the operator does not write the file between the read and
  the write of a reload.
\<close>

section \<open>Atomic writes\<close>

text \<open>The faults of one call of \<open>writeFileAtomic\<close>, and the name \<open>CreateTemp\<close> picks; a failing
  write leaves a part of the data in the temporary file.\<close>

record write_env =
  we_tmp :: string
  we_stat :: "goerr option"
  we_create :: "goerr option"
  we_chmod :: "goerr option"
  we_write :: "(nat \<times> goerr) option"
  we_close :: "goerr option"
  we_rename :: "goerr option"
  we_removed :: bool

definition remove_tmp :: "write_env \<Rightarrow> fs \<Rightarrow> fs" where
  "remove_tmp env fs = (if we_removed env then remove (we_tmp env) fs else fs)"

definition rules_writeFileAtomic :: "write_env \<Rightarrow> string \<Rightarrow> string \<Rightarrow> fs \<Rightarrow> goerr option \<times> fs" where
  "rules_writeFileAtomic env path data fs =
     (if we_stat env \<noteq> None then (we_stat env, fs)
      else
        let mode = (case fs path of Some f \<Rightarrow> f_mode f | None \<Rightarrow> 420)
        in if we_create env \<noteq> None then (we_create env, fs)
           else
             let fs1 = fs(we_tmp env \<mapsto> \<lparr>f_data = [], f_mode = 384\<rparr>)
             in if we_chmod env \<noteq> None then (we_chmod env, remove_tmp env fs1)
                else (case we_write env of
                    Some (k, e) \<Rightarrow>
                      (Some e, remove_tmp env (fs(we_tmp env \<mapsto> \<lparr>f_data = take k data, f_mode = mode\<rparr>)))
                  | None \<Rightarrow>
                      let fs2 = fs(we_tmp env \<mapsto> \<lparr>f_data = data, f_mode = mode\<rparr>)
                      in if we_close env \<noteq> None then (we_close env, remove_tmp env fs2)
                         else if we_rename env \<noteq> None then (we_rename env, remove_tmp env fs2)
                         else (None, remove_tmp env (rename (we_tmp env) path fs2))))"

section \<open>The matcher\<close>

record 'm matcher_lib =
  ml_new :: 'm
  ml_add :: "string \<Rightarrow> 'm \<Rightarrow> goerr + 'm"
  ml_load :: "string \<Rightarrow> 'm \<Rightarrow> goerr + 'm"
  ml_match :: "'m \<Rightarrow> string \<Rightarrow> bool"

datatype rule_file_error =
    FileRequired
  | ResolvePath goerr
  | ReadRuleFile goerr
  | RestoreLast goerr
  | AddRule string goerr
  | ReadBundled string read_error
  | LoadBundled string goerr
  | WriteSanitized goerr
  | RestoreAfter rule_file_error goerr
  | ClearAfter rule_file_error goerr
  | WasRemoved
  | BadContent goerr
  | CreateWatcher goerr
  | WatchDirectory goerr

fun add_rules :: "'m matcher_lib \<Rightarrow> string list \<Rightarrow> 'm \<Rightarrow> rule_file_error + 'm" where
  "add_rules ml [] m = Inr m"
| "add_rules ml (rule # rules) m =
     (case ml_add ml rule m of Inl e \<Rightarrow> Inl (AddRule rule e) | Inr m' \<Rightarrow> add_rules ml rules m')"

fun load_includes ::
  "'m matcher_lib \<Rightarrow> (string \<Rightarrow> read_error + string) \<Rightarrow> string list \<Rightarrow> 'm \<Rightarrow> rule_file_error + 'm" where
  "load_includes ml read [] m = Inr m"
| "load_includes ml read (f # fs) m =
     (case read f of
        Inl e \<Rightarrow> Inl (ReadBundled f e)
      | Inr content \<Rightarrow>
          (case ml_load ml content m of
             Inl e \<Rightarrow> Inl (LoadBundled f e)
           | Inr m' \<Rightarrow> load_includes ml read fs m'))"

definition buildMatcher ::
  "'m matcher_lib \<Rightarrow> (string \<Rightarrow> read_error + string) \<Rightarrow> string list \<Rightarrow> string list \<Rightarrow> rule_file_error + 'm" where
  "buildMatcher ml read rules includes =
     (case add_rules ml rules (ml_new ml) of
        Inl e \<Rightarrow> Inl e
      | Inr m \<Rightarrow> load_includes ml read includes m)"

section \<open>The rule file\<close>

datatype rule_log =
    LogReloaded nat nat
  | LogAllInvalid nat
  | LogReplaced rule_file_error
  | LogCleared rule_file_error
  | LogRejected rule_file_error

record 'm ruleFile =
  rf_path :: string
  rf_includes :: "string list"
  rf_matcher :: "'m option"
  rf_lastGood :: string
  rf_loaded :: bool
  rf_log :: "rule_log list"

record reload_env =
  re_read :: "string \<Rightarrow> goerr option"
  re_write :: write_env

definition restoreOrClear ::
  "'m matcher_lib \<Rightarrow> reload_env \<Rightarrow> rule_file_error \<Rightarrow> 'm ruleFile \<Rightarrow> fs \<Rightarrow>
   rule_file_error option \<times> 'm ruleFile \<times> fs" where
  "restoreOrClear ml env cause r fs =
     (if rf_loaded r then
        (case rules_writeFileAtomic (re_write env) (rf_path r) (rf_lastGood r) fs of
           (Some e, fs') \<Rightarrow> (Some (RestoreAfter cause e), r, fs')
         | (None, fs') \<Rightarrow> (None, r\<lparr>rf_log := rf_log r @ [LogReplaced cause]\<rparr>, fs'))
      else
        (case rules_writeFileAtomic (re_write env) (rf_path r) [] fs of
           (Some e, fs') \<Rightarrow> (Some (ClearAfter cause e), r, fs')
         | (None, fs') \<Rightarrow>
             (case buildMatcher ml (readFile (re_read env) fs') [] (rf_includes r) of
                Inl e \<Rightarrow> (Some e, r, fs')
              | Inr m \<Rightarrow>
                  (None, r\<lparr>rf_matcher := Some m, rf_lastGood := [], rf_loaded := True,
                     rf_log := rf_log r @ [LogCleared cause]\<rparr>, fs'))))"

text \<open>\<open>reload\<close> reads the file and then acts on what it read; \<open>reload_from\<close> is the second
  part.\<close>

definition reload_from ::
  "rule_lib \<Rightarrow> 'm matcher_lib \<Rightarrow> reload_env \<Rightarrow> read_error + string \<Rightarrow> 'm ruleFile \<Rightarrow> fs \<Rightarrow>
   rule_file_error option \<times> 'm ruleFile \<times> fs" where
  "reload_from lib ml env content r fs =
     (case content of
        Inl NotExist \<Rightarrow> restoreOrClear ml env WasRemoved r fs
      | Inl (ReadFailed e) \<Rightarrow> (Some (ReadRuleFile e), r, fs)
      | Inr raw \<Rightarrow>
          (case sanitizeRules lib raw of
             Inl e \<Rightarrow> restoreOrClear ml env (BadContent e) r fs
           | Inr (rules, cleaned, stats) \<Rightarrow>
               if 0 < meaningful stats \<and> length rules = 0 \<and> rf_loaded r then
                 (case rules_writeFileAtomic (re_write env) (rf_path r) (rf_lastGood r) fs of
                    (Some e, fs') \<Rightarrow> (Some (RestoreLast e), r, fs')
                  | (None, fs') \<Rightarrow> (None, r\<lparr>rf_log := rf_log r @ [LogAllInvalid (rejected stats)]\<rparr>, fs'))
               else
                 (case buildMatcher ml (readFile (re_read env) fs) rules (rf_includes r) of
                    Inl e \<Rightarrow> (Some e, r, fs)
                  | Inr m \<Rightarrow>
                      (case (if raw = cleaned then (None, fs)
                             else rules_writeFileAtomic (re_write env) (rf_path r) cleaned fs) of
                         (Some e, fs') \<Rightarrow> (Some (WriteSanitized e), r, fs')
                       | (None, fs') \<Rightarrow>
                           let unchanged = (rf_loaded r \<and> rf_lastGood r = cleaned)
                           in (None, r\<lparr>rf_matcher := Some m, rf_lastGood := cleaned, rf_loaded := True,
                                 rf_log := (if unchanged then rf_log r
                                   else rf_log r @ [LogReloaded (length rules) (rejected stats)])\<rparr>, fs')))))"

definition reload ::
  "rule_lib \<Rightarrow> 'm matcher_lib \<Rightarrow> reload_env \<Rightarrow> 'm ruleFile \<Rightarrow> fs \<Rightarrow>
   rule_file_error option \<times> 'm ruleFile \<times> fs" where
  "reload lib ml env r fs =
     reload_from lib ml env (readFile (re_read env) fs (rf_path r)) r fs"

lemmas reload_unfold = reload_def [unfolded reload_from_def]

definition rf_match :: "'m matcher_lib \<Rightarrow> 'm ruleFile \<Rightarrow> string \<Rightarrow> bool" where
  "rf_match ml r name = (case rf_matcher r of None \<Rightarrow> False | Some m \<Rightarrow> ml_match ml m name)"

text \<open>\<open>newRuleFile\<close>: \<open>absPath\<close> is the outcome of \<open>filepath.Abs\<close>, \<open>watcher\<close> the fault of creating
  the watcher or of watching the directory.\<close>

definition newRuleFile ::
  "rule_lib \<Rightarrow> 'm matcher_lib \<Rightarrow> reload_env \<Rightarrow> (string \<Rightarrow> goerr + string) \<Rightarrow> rule_file_error option \<Rightarrow>
   string \<Rightarrow> string list \<Rightarrow> bool \<Rightarrow> fs \<Rightarrow> (rule_file_error + 'm ruleFile) \<times> fs" where
  "newRuleFile lib ml env absPath watcher file includes watch fs =
     (if file = [] then (Inl FileRequired, fs)
      else case absPath file of
        Inl e \<Rightarrow> (Inl (ResolvePath e), fs)
      | Inr path \<Rightarrow>
          (case reload lib ml env
             \<lparr>rf_path = path, rf_includes = includes, rf_matcher = None, rf_lastGood = [],
              rf_loaded = False, rf_log = []\<rparr> fs of
             (Some e, r, fs') \<Rightarrow> (Inl e, fs')
           | (None, r, fs') \<Rightarrow>
               if \<not> watch then (Inr r, fs')
               else (case watcher of Some e \<Rightarrow> (Inl e, fs') | None \<Rightarrow> (Inr r, fs'))))"

definition NewRuleFile ::
  "rule_lib \<Rightarrow> 'm matcher_lib \<Rightarrow> reload_env \<Rightarrow> (string \<Rightarrow> goerr + string) \<Rightarrow> rule_file_error option \<Rightarrow>
   (string \<times> string list) option \<Rightarrow> fs \<Rightarrow> (rule_file_error + 'm ruleFile) \<times> fs" where
  "NewRuleFile lib ml env absPath watcher args fs =
     (case args of
        None \<Rightarrow> (Inl FileRequired, fs)
      | Some (file, includes) \<Rightarrow> newRuleFile lib ml env absPath watcher file includes True fs)"

text \<open>What \<open>Close\<close> acts on: the channel \<open>done\<close>, the watcher if there is one, and the \<open>sync.Once\<close>.
  \<open>None\<close>: closing a closed channel panics.\<close>

record rule_handles =
  rh_once :: bool
  rh_doneClosed :: bool
  rh_watcherOpen :: "bool option"

definition ruleFile_handles :: "bool \<Rightarrow> rule_handles" where
  "ruleFile_handles watch =
     \<lparr>rh_once = False, rh_doneClosed = False, rh_watcherOpen = (if watch then Some True else None)\<rparr>"

definition ruleFile_Close :: "rule_handles \<Rightarrow> rule_handles option" where
  "ruleFile_Close h =
     (if rh_once h then Some h
      else if rh_doneClosed h then None
      else Some (h\<lparr>rh_once := True, rh_doneClosed := True,
                   rh_watcherOpen := map_option (\<lambda>_. False) (rh_watcherOpen h)\<rparr>))"

fun close_times :: "nat \<Rightarrow> rule_handles \<Rightarrow> rule_handles option" where
  "close_times 0 h = Some h"
| "close_times (Suc n) h = (case ruleFile_Close h of None \<Rightarrow> None | Some h' \<Rightarrow> close_times n h')"

lemma close_again: "rh_once h \<Longrightarrow> close_times n h = Some h"
  by (induction n) (simp_all add: ruleFile_Close_def)

text \<open>Closing any number of times does what closing once does, and never panics.\<close>

lemma close_idempotent:
  "close_times (Suc n) (ruleFile_handles watch) =
     Some \<lparr>rh_once = True, rh_doneClosed = True, rh_watcherOpen = (if watch then Some False else None)\<rparr>"
  using close_again by (simp add: ruleFile_Close_def ruleFile_handles_def)

section \<open>The watcher\<close>

text \<open>
  The state of the loop of \<open>watch\<close>: the timer (\<open>None\<close> for \<open>nil\<close>) with the instant at which
  it fires while it runs, and whether a tick waits in its channel; whether the loop listens on
  that channel (\<open>timerC\<close>); whether it has returned. \<open>clean\<close> is \<open>filepath.Clean\<close>.
\<close>

datatype fsop = OpCreate | OpWrite | OpRemove | OpRename | OpChmod

record go_timer =
  gt_expiry :: "gotime option"
  gt_tick :: bool

record watch_state =
  ws_timer :: "go_timer option"
  ws_listening :: bool
  ws_returned :: bool

abbreviation (input) reloadDebounce :: duration where "reloadDebounce \<equiv> 200 * millisecond"

definition relevant :: "(string \<Rightarrow> string) \<Rightarrow> string \<Rightarrow> string \<Rightarrow> fsop set \<Rightarrow> bool" where
  "relevant clean path name ops \<longleftrightarrow>
     \<not> (clean name \<noteq> path \<or> ops \<inter> {OpWrite, OpCreate, OpRename, OpRemove} = {})"

text \<open>One choice of the \<open>select\<close>, or the runtime firing the timer.\<close>

datatype watch_event =
    WDone
  | WEvents gotime string "fsop set"
  | WEventsClosed
  | WError
  | WErrorsClosed
  | WTimerFires gotime
  | WTimerC gotime

definition watch_init :: watch_state where
  "watch_init = \<lparr>ws_timer = None, ws_listening = False, ws_returned = False\<rparr>"

text \<open>The next state, and whether \<open>reload\<close> is called; \<open>None\<close> when the event cannot happen.\<close>

definition watch_step ::
  "(string \<Rightarrow> string) \<Rightarrow> string \<Rightarrow> watch_state \<Rightarrow> watch_event \<Rightarrow> (watch_state \<times> bool) option" where
  "watch_step clean path w e =
     (if ws_returned w then None
      else case e of
        WDone \<Rightarrow> Some (w\<lparr>ws_timer := map_option (\<lambda>t. t\<lparr>gt_expiry := None\<rparr>) (ws_timer w), ws_returned := True\<rparr>, False)
      | WEventsClosed \<Rightarrow> Some (w\<lparr>ws_timer := map_option (\<lambda>t. t\<lparr>gt_expiry := None\<rparr>) (ws_timer w), ws_returned := True\<rparr>, False)
      | WErrorsClosed \<Rightarrow> Some (w\<lparr>ws_timer := map_option (\<lambda>t. t\<lparr>gt_expiry := None\<rparr>) (ws_timer w), ws_returned := True\<rparr>, False)
      | WError \<Rightarrow> Some (w, False)
      | WEvents now name ops \<Rightarrow>
          if \<not> relevant clean path name ops then Some (w, False)
          else (case ws_timer w of
              None \<Rightarrow> Some (w\<lparr>ws_timer := Some \<lparr>gt_expiry = Some (now + reloadDebounce), gt_tick = False\<rparr>,
                           ws_listening := True\<rparr>, False)
            | Some t \<Rightarrow>
                let drained = (if gt_expiry t = None then t\<lparr>gt_tick := False\<rparr> else t)
                in Some (w\<lparr>ws_timer := Some (drained\<lparr>gt_expiry := Some (now + reloadDebounce)\<rparr>),
                           ws_listening := True\<rparr>, False))
      | WTimerFires now \<Rightarrow>
          (case ws_timer w of
             None \<Rightarrow> None
           | Some t \<Rightarrow>
               (case gt_expiry t of
                  None \<Rightarrow> None
                | Some x \<Rightarrow> if x \<le> now then Some (w\<lparr>ws_timer := Some \<lparr>gt_expiry = None, gt_tick = True\<rparr>\<rparr>, False)
                            else None))
      | WTimerC now \<Rightarrow>
          (case ws_timer w of
             None \<Rightarrow> None
           | Some t \<Rightarrow>
               if ws_listening w \<and> gt_tick t
               then Some (w\<lparr>ws_timer := Some (t\<lparr>gt_tick := False\<rparr>), ws_listening := False\<rparr>, True)
               else None))"

text \<open>What the loop does with the timer's tick: \<open>reload\<close>, and a warning when it fails.\<close>

definition watch_reload ::
  "rule_lib \<Rightarrow> 'm matcher_lib \<Rightarrow> reload_env \<Rightarrow> 'm ruleFile \<Rightarrow> fs \<Rightarrow> 'm ruleFile \<times> fs" where
  "watch_reload lib ml env r fs =
     (case reload lib ml env r fs of
        (None, r', fs') \<Rightarrow> (r', fs')
      | (Some e, r', fs') \<Rightarrow> (r'\<lparr>rf_log := rf_log r' @ [LogRejected e]\<rparr>, fs'))"

end
