(* ===== verification/RuleFileSafety.thy ===== *)
theory RuleFileSafety
  imports RuleFile
begin

text \<open>
  What the rule file plugin guarantees: atomic replacement on disk, a matcher that always
  belongs to the last accepted rules, the disk and the memory in agreement after a reload, a
  debouncer that reloads after every burst and never early, and the case where the size limit
  loses the operator's rules.
\<close>

section \<open>Writing\<close>

text \<open>Replacing a rule file is atomic whatever call fails: on success the file holds exactly
  the new text with its old permissions (0644 for a new file), on an error it is untouched, no
  other file changes, and the temporary file is gone once it could be removed.\<close>

theorem rules_write_atomic:
  assumes "we_tmp env \<noteq> path" and "fs (we_tmp env) = None"
  shows "(case rules_writeFileAtomic env path data fs of (err, fs') \<Rightarrow>
    atomic_write (we_tmp env) path data fs err fs' \<and>
    (we_removed env \<longrightarrow> fs' (we_tmp env) = None) \<and>
    (err = None \<longrightarrow> fs' path =
       Some \<lparr>f_data = data, f_mode = (case fs path of Some f \<Rightarrow> f_mode f | None \<Rightarrow> 420)\<rparr>))"
proof (cases "we_stat env \<noteq> None \<or> we_create env \<noteq> None \<or> we_chmod env \<noteq> None \<or> we_write env \<noteq> None")
  case True
  then show ?thesis using assms
    by (cases "we_write env"; cases "we_stat env"; cases "we_create env"; cases "we_chmod env")
      (simp_all add: rules_writeFileAtomic_def atomic_write_def remove_tmp_def Let_def split: prod.split)
next
  case False
  then have "we_stat env = None" "we_create env = None" "we_chmod env = None" "we_write env = None" by blast+
  then show ?thesis using assms
    by (cases "we_close env"; cases "we_rename env")
      (simp_all add: rules_writeFileAtomic_def atomic_write_def remove_tmp_def rename_def Let_def)
qed

definition sample_write :: write_env where
  "sample_write = \<lparr>we_tmp = ''/data/.direct.txt.tmp-1'', we_stat = None, we_create = None, we_chmod = None,
     we_write = Some (3, ErrNew ''no space left on device''), we_close = None, we_rename = None, we_removed = True\<rparr>"

theorem rules_write_atomic_witness:
  "snd (rules_writeFileAtomic sample_write ''/data/direct.txt'' ''full:b'' [''/data/direct.txt'' \<mapsto> \<lparr>f_data = ''full:a'', f_mode = 420\<rparr>])
     ''/data/direct.txt'' = Some \<lparr>f_data = ''full:a'', f_mode = 420\<rparr>"
  using rules_write_atomic [of sample_write "''/data/direct.txt''"
      "[''/data/direct.txt'' \<mapsto> \<lparr>f_data = ''full:a'', f_mode = 420\<rparr>]" "''full:b''"]
  by (simp add: sample_write_def atomic_write_def rules_writeFileAtomic_def)

interpretation rw: atomic_writer rules_writeFileAtomic "\<lambda>env path. we_tmp env"
proof (unfold_locales, cases)
  fix env path data fs err fs'
  assume "we_write env = None" and "we_tmp env \<noteq> path" and "rules_writeFileAtomic env path data fs = (err, fs')"
  then show "atomic_write (we_tmp env) path data fs err fs'"
    by (auto simp: rules_writeFileAtomic_def atomic_write_def remove_tmp_def rename_def Let_def
        split: if_splits option.split)
next
  fix env path data fs err fs'
  assume "we_write env \<noteq> None" and "we_tmp env \<noteq> path" and "rules_writeFileAtomic env path data fs = (err, fs')"
  then show "atomic_write (we_tmp env) path data fs err fs'"
    by (auto simp: rules_writeFileAtomic_def atomic_write_def remove_tmp_def Let_def
        split: if_splits option.split)
qed

section \<open>One reload\<close>

text \<open>The reload as an operator reads it: the rules in force after the file holds
  \<open>content\<close> (\<open>None\<close>: it was removed).\<close>

definition policy_spec :: "rule_lib \<Rightarrow> string option \<Rightarrow> string list \<Rightarrow> string list" where
  "policy_spec lib content old =
     (case content of
        None \<Rightarrow> old
      | Some raw \<Rightarrow>
          (case sanitizeRules lib raw of
             Inl e \<Rightarrow> old
           | Inr (rules, cleaned, stats) \<Rightarrow> if rules = [] \<and> 0 < meaningful stats then old else rules))"

definition same_policy :: "'m ruleFile \<Rightarrow> 'm ruleFile \<Rightarrow> bool" where
  "same_policy r r' \<longleftrightarrow> rf_path r' = rf_path r \<and> rf_includes r' = rf_includes r \<and>
     rf_matcher r' = rf_matcher r \<and> rf_lastGood r' = rf_lastGood r \<and> rf_loaded r' = rf_loaded r"

lemma same_policy_log [simp]: "same_policy r (r\<lparr>rf_log := l\<rparr>)" "same_policy r r"
  by (simp_all add: same_policy_def)

lemma restore_loaded:
  assumes "rf_loaded r" and "we_tmp (re_write env) \<noteq> rf_path r"
    and "restoreOrClear ml env cause r fs = (err, r', fs')"
  shows "same_policy r r' \<and>
    (case err of Some e \<Rightarrow> r' = r \<and> fs' (rf_path r) = fs (rf_path r)
               | None \<Rightarrow> map_option f_data (fs' (rf_path r)) = Some (rf_lastGood r))"
  using assms rw.ok [OF _ assms(2)] rw.error [OF _ assms(2)]
  by (auto simp: restoreOrClear_def split: prod.splits option.splits)

lemma reload_loaded:
  assumes loaded: "rf_loaded r" and tmp: "we_tmp (re_write env) \<noteq> rf_path r"
    and run: "reload lib ml env r fs = (err, r', fs')"
  obtains (rejected) e where "err = Some e" "r' = r" "fs' (rf_path r) = fs (rf_path r)"
  | (restored) "err = None" "same_policy r r'" "map_option f_data (fs' (rf_path r)) = Some (rf_lastGood r)"
      "re_read env (rf_path r) = None"
      "policy_spec lib (map_option f_data (fs (rf_path r))) old = old"
  | (accepted) rules m where "err = None" "re_read env (rf_path r) = None"
      "policy_spec lib (map_option f_data (fs (rf_path r))) old = rules" "\<forall>x\<in>set rules. rule_ok lib x"
      "buildMatcher ml (readFile (re_read env) fs) rules (rf_includes r) = Inr m"
      "rf_matcher r' = Some m" "rf_lastGood r' = rules_file rules" "rf_loaded r'"
      "rf_path r' = rf_path r" "rf_includes r' = rf_includes r"
      "map_option f_data (fs' (rf_path r)) = Some (rules_file rules)"
proof (cases "readFile (re_read env) fs (rf_path r)")
  case (Inl e)
  show ?thesis
  proof (cases e)
    case NotExist
    with Inl have gone: "re_read env (rf_path r) = None" "fs (rf_path r) = None"
      by (auto simp: readFile_def split: option.splits)
    from Inl NotExist run have "restoreOrClear ml env WasRemoved r fs = (err, r', fs')" by (simp add: reload_unfold)
    from restore_loaded [OF loaded tmp this] gone show ?thesis
      by (cases err) (auto intro: rejected restored simp: policy_spec_def)
  next
    case (ReadFailed x)
    with Inl run show ?thesis by (auto simp: reload_unfold intro: rejected)
  qed
next
  case (Inr raw)
  then have raw: "re_read env (rf_path r) = None" "map_option f_data (fs (rf_path r)) = Some raw"
    by (auto simp: readFile_def split: option.splits)
  show ?thesis
  proof (cases "sanitizeRules lib raw")
    case (Inl e)
    with Inr run have "restoreOrClear ml env (BadContent e) r fs = (err, r', fs')" by (simp add: reload_unfold)
    from restore_loaded [OF loaded tmp this] raw Inl show ?thesis
      by (cases err) (auto intro: rejected restored simp: policy_spec_def)
  next
    case (Inr x)
    obtain rules cleaned stats where "x = (rules, cleaned, stats)" by (metis prod.exhaust)
    with Inr have san: "sanitizeRules lib raw = Inr (rules, cleaned, stats)" by simp
    note ok = sanitize_ok [OF san]
    show ?thesis
    proof (cases "0 < meaningful stats \<and> rules = []")
      case True
      with san raw have pol: "policy_spec lib (map_option f_data (fs (rf_path r))) old = old"
        unfolding raw(2) by (simp add: policy_spec_def)
      obtain werr fs1 where w: "rules_writeFileAtomic (re_write env) (rf_path r) (rf_lastGood r) fs = (werr, fs1)"
        by fastforce
      note run = run [unfolded reload_unfold \<open>readFile (re_read env) fs (rf_path r) = Inr raw\<close>, simplified,
        unfolded san, simplified True loaded w, simplified]
      show ?thesis
      proof (cases werr)
        case None
        with run True loaded w raw pol rw.ok [OF _ tmp] show ?thesis by (intro restored) auto
      next
        case (Some e)
        with run True loaded w rw.error [OF _ tmp] show ?thesis by (intro rejected [of "RestoreLast e"]) auto
      qed
    next
      case False
      then have pol: "policy_spec lib (map_option f_data (fs (rf_path r))) old = rules"
        unfolding raw(2) using san by (auto simp: policy_spec_def)
      show ?thesis
      proof (cases "buildMatcher ml (readFile (re_read env) fs) rules (rf_includes r)")
        case (Inl e)
        with False san run \<open>readFile (re_read env) fs (rf_path r) = Inr raw\<close> show ?thesis
          by (auto simp: reload_unfold intro: rejected)
      next
        case (Inr m)
        obtain werr fs1 where w: "(if raw = cleaned then (None, fs)
            else rules_writeFileAtomic (re_write env) (rf_path r) cleaned fs) = (werr, fs1)" by fastforce
        show ?thesis
        proof (cases werr)
          case None
          have "map_option f_data (fs1 (rf_path r)) = Some cleaned"
            using w raw None rw.ok [OF _ tmp] by (auto split: if_splits)
          with False san run Inr w None ok pol raw \<open>readFile (re_read env) fs (rf_path r) = Inr raw\<close>
          show ?thesis by (intro accepted [of rules m]) (auto simp: reload_unfold Let_def)
        next
          case (Some e)
          have "fs1 (rf_path r) = fs (rf_path r)"
            using w Some rw.error [OF _ tmp] by (auto split: if_splits)
          with False san run Inr w Some \<open>readFile (re_read env) fs (rf_path r) = Inr raw\<close>
          show ?thesis by (intro rejected [of "WriteSanitized e"]) (auto simp: reload_unfold)
        qed
      qed
    qed
  qed
qed

text \<open>C3. A reload implements the policy the operator is promised: a loaded rule file with the
  rules \<open>old\<close> either fails and stays exactly as it was, on disk and in memory, or ends with
  the rules of the file if some are valid or none were written, and with \<open>old\<close> if the file is
  gone, too large or holds invalid rules only; then the disk holds exactly the rules in force.\<close>

theorem reload_refines:
  assumes "rf_loaded r" and "we_tmp (re_write env) \<noteq> rf_path r" and "rf_lastGood r = rules_file old"
  shows "(case reload lib ml env r fs of
      (Some e, r', fs') \<Rightarrow> r' = r \<and> fs' (rf_path r) = fs (rf_path r)
    | (None, r', fs') \<Rightarrow> rf_loaded r' \<and>
        rf_lastGood r' = rules_file (policy_spec lib (map_option f_data (fs (rf_path r))) old) \<and>
        map_option f_data (fs' (rf_path r)) = Some (rf_lastGood r'))"
proof -
  obtain err r' fs' where run: "reload lib ml env r fs = (err, r', fs')" by (metis prod.exhaust)
  from assms(1,2) run show ?thesis
  proof (cases rule: reload_loaded [where old = old])
    case (rejected e)
    with run show ?thesis by simp
  next
    case restored
    with run assms show ?thesis by (simp add: same_policy_def)
  next
    case (accepted rules m)
    with run show ?thesis by simp
  qed
qed

text \<open>Inputs of the witnesses: a matcher that collects the rules and takes every include, no
  faults, and a rule library that compiles every expression.\<close>

definition list_matcher :: "string list matcher_lib" where
  "list_matcher = \<lparr>ml_new = [], ml_add = (\<lambda>rule m. Inr (m @ [rule])), ml_load = (\<lambda>c m. Inr (m @ [c])),
     ml_match = (\<lambda>m name. name \<in> set m)\<rparr>"

definition plain_lib :: rule_lib where
  "plain_lib = \<lparr>rl_lower = id, rl_parseIPv6 = (\<lambda>_. False), rl_regexp = (\<lambda>_. None)\<rparr>"

definition no_faults :: reload_env where
  "no_faults = \<lparr>re_read = (\<lambda>_. None),
     re_write = \<lparr>we_tmp = ''/data/.direct.txt.tmp-1'', we_stat = None, we_create = None, we_chmod = None,
       we_write = None, we_close = None, we_rename = None, we_removed = True\<rparr>\<rparr>"

definition direct_txt :: "string \<Rightarrow> fs" where
  "direct_txt content = [''/data/direct.txt'' \<mapsto> \<lparr>f_data = content, f_mode = 420\<rparr>]"

definition direct_rules :: "string list \<Rightarrow> string list ruleFile" where
  "direct_rules rules = \<lparr>rf_path = ''/data/direct.txt'', rf_includes = [], rf_matcher = Some rules,
     rf_lastGood = rules_file rules, rf_loaded = True, rf_log = []\<rparr>"

lemmas sample_rule_defs = no_faults_def direct_txt_def direct_rules_def

theorem reload_refines_witness:
  "rf_lastGood (fst (snd (reload plain_lib list_matcher no_faults (direct_rules [''domain:a'']) Map.empty))) =
     rules_file [''domain:a'']"
proof -
  have "fst (reload plain_lib list_matcher no_faults (direct_rules [''domain:a'']) Map.empty) = None"
    by (simp add: reload_unfold readFile_def restoreOrClear_def rules_writeFileAtomic_def sample_rule_defs)
  with reload_refines [where r = "direct_rules [''domain:a'']" and env = no_faults and old = "[''domain:a'']"
      and lib = plain_lib and ml = list_matcher and fs = Map.empty]
  show ?thesis by (auto simp: sample_rule_defs policy_spec_def split: prod.splits)
qed

section \<open>The matcher in force\<close>

fun load_contents :: "'m matcher_lib \<Rightarrow> string list \<Rightarrow> 'm \<Rightarrow> goerr + 'm" where
  "load_contents ml [] m = Inr m"
| "load_contents ml (c # cs) m =
     (case ml_load ml c m of Inl e \<Rightarrow> Inl e | Inr m' \<Rightarrow> load_contents ml cs m')"

lemma load_includes_contents:
  "load_includes ml read incl m = Inr m' \<Longrightarrow>
   \<exists>contents. map read incl = map Inr contents \<and> load_contents ml contents m = Inr m'"
proof (induction incl arbitrary: m)
  case (Cons f fs)
  then obtain c m1 where c: "read f = Inr c" "ml_load ml c m = Inr m1" "load_includes ml read fs m1 = Inr m'"
    by (auto split: sum.splits)
  from Cons.IH [OF c(3)] obtain cs where "map read fs = map Inr cs" "load_contents ml cs m1 = Inr m'" by blast
  with c show ?case by (intro exI [of _ "c # cs"]) simp
qed simp

text \<open>The matcher is built from the rules last accepted and one content of each include.\<close>

definition coherent :: "rule_lib \<Rightarrow> 'm matcher_lib \<Rightarrow> 'm ruleFile \<Rightarrow> bool" where
  "coherent lib ml r \<longleftrightarrow> rf_loaded r \<and>
     (\<exists>rules contents m0 m. rf_lastGood r = rules_file rules \<and> (\<forall>x\<in>set rules. rule_ok lib x) \<and>
        add_rules ml rules (ml_new ml) = Inr m0 \<and> load_contents ml contents m0 = Inr m \<and>
        length contents = length (rf_includes r) \<and> rf_matcher r = Some m)"

lemma coherentI:
  assumes "buildMatcher ml read rules (rf_includes r) = Inr m" and "\<forall>x\<in>set rules. rule_ok lib x"
    and "rf_lastGood r = rules_file rules" and "rf_loaded r" and "rf_matcher r = Some m"
  shows "coherent lib ml r"
proof -
  obtain m0 where m0: "add_rules ml rules (ml_new ml) = Inr m0" "load_includes ml read (rf_includes r) m0 = Inr m"
    using assms(1) by (auto simp: buildMatcher_def split: sum.splits)
  from load_includes_contents [OF m0(2)] obtain contents where
    "map read (rf_includes r) = map Inr contents" "load_contents ml contents m0 = Inr m" by blast
  then have "length contents = length (rf_includes r)" by (metis length_map)
  with m0 \<open>load_contents ml contents m0 = Inr m\<close> assms show ?thesis by (auto simp: coherent_def)
qed

lemma coherent_same: "same_policy r r' \<Longrightarrow> coherent lib ml r \<Longrightarrow> coherent lib ml r'"
  by (simp add: coherent_def same_policy_def)

lemma watch_reload_coherent:
  assumes "coherent lib ml r" and "we_tmp (re_write env) \<noteq> rf_path r"
    and "watch_reload lib ml env r fs = (r', fs')"
  shows "coherent lib ml r' \<and> rf_path r' = rf_path r"
proof -
  have l: "rf_loaded r" using assms(1) by (simp add: coherent_def)
  obtain err r1 fs1 where run: "reload lib ml env r fs = (err, r1, fs1)" by (metis prod.exhaust)
  with assms(3) have r': "same_policy r1 r'" by (auto simp: watch_reload_def split: option.splits)
  from l assms(2) run have "coherent lib ml r1 \<and> rf_path r1 = rf_path r"
  proof (cases rule: reload_loaded [where old = "[]"])
    case (rejected e)
    with assms(1) show ?thesis by simp
  next
    case restored
    with assms(1) coherent_same show ?thesis by (auto simp: same_policy_def coherent_def)
  next
    case (accepted rules m)
    then show ?thesis
      using coherentI [of ml "readFile (re_read env) fs" rules r1 m lib] by simp
  qed
  with r' coherent_same show ?thesis by (auto simp: same_policy_def coherent_def)
qed

lemma new_coherent:
  assumes "newRuleFile lib ml env absPath watcher path includes watch fs = (Inr r, fs1)"
  shows "coherent lib ml r \<and> Inr (rf_path r) = absPath path"
proof -
  obtain p where p: "absPath path = Inr p"
    using assms by (auto simp: newRuleFile_def split: if_splits sum.splits)
  define r0 where "r0 = \<lparr>rf_path = p, rf_includes = includes, rf_matcher = None :: 'a option, rf_lastGood = [],
    rf_loaded = False, rf_log = []\<rparr>"
  have "reload lib ml env r0 fs = (None, r, fs1)"
    using assms p by (auto simp: newRuleFile_def r0_def split: if_splits prod.splits option.splits)
  moreover have "restoreOrClear ml env cause r0 fs = (None, r, fs1) \<Longrightarrow> coherent lib ml r \<and> rf_path r = p" for cause
    by (auto simp: restoreOrClear_def r0_def rules_file_def split: prod.splits option.splits sum.splits
        intro!: coherentI [where rules = "[]"])
  ultimately have "coherent lib ml r \<and> rf_path r = p"
    by (auto simp: reload_unfold r0_def Let_def dest: sanitize_ok
        split: sum.splits read_error.splits prod.splits option.splits if_splits intro!: coherentI)
  with p show ?thesis by simp
qed

text \<open>The life of a rule file: edits of the file system, each followed by a reload.\<close>

fun watch_reloads ::
  "rule_lib \<Rightarrow> 'm matcher_lib \<Rightarrow> ((fs \<Rightarrow> fs) \<times> reload_env) list \<Rightarrow> 'm ruleFile \<times> fs \<Rightarrow> 'm ruleFile \<times> fs" where
  "watch_reloads lib ml [] s = s"
| "watch_reloads lib ml ((edit, env) # items) (r, fs) =
     watch_reloads lib ml items (watch_reload lib ml env r (edit fs))"


lemma add_rules_list: "add_rules list_matcher rules m = Inr (m @ rules)"
  by (induction rules arbitrary: m) (simp_all add: list_matcher_def)

lemma build_list: "buildMatcher list_matcher read rules [] = Inr rules"
  by (simp add: buildMatcher_def add_rules_list) (simp add: list_matcher_def)

definition loaded_direct :: "string list \<Rightarrow> rule_log list \<Rightarrow> string list ruleFile" where
  "loaded_direct rules l = (direct_rules rules)\<lparr>rf_log := l\<rparr>"

lemma new_direct:
  assumes "sanitizeRules plain_lib raw = Inr (rules, rules_file rules, stats)"
  shows "newRuleFile plain_lib list_matcher no_faults Inr None ''/data/direct.txt'' [] False (direct_txt raw) =
    (Inr (loaded_direct rules [LogReloaded (length rules) (rejected stats)]), direct_txt (rules_file rules))"
  using assms
  by (simp add: newRuleFile_def reload_unfold readFile_def build_list loaded_direct_def sample_rule_defs
      rules_writeFileAtomic_def rename_def remove_tmp_def remove_def fun_eq_iff Let_def)


section \<open>Settling\<close>

lemma reload_clean:
  assumes "rf_loaded r" and "rf_lastGood r = rules_file rules" and "\<forall>x\<in>set rules. rule_ok lib x"
    and "length (rf_lastGood r) \<le> maxRuleFileBytes"
    and "map_option f_data (fs (rf_path r)) = Some (rf_lastGood r)" and "re_read env (rf_path r) = None"
    and "reload lib ml env r fs = (err, r', fs')"
  shows "fs' = fs \<and> rf_lastGood r' = rf_lastGood r \<and> rf_log r' = rf_log r"
proof -
  have san: "sanitizeRules lib (rules_file rules) = Inr (rules, rules_file rules, \<lparr>meaningful = length rules, rejected = 0\<rparr>)"
    using assms by (intro sanitize_rules_file) simp_all
  have "readFile (re_read env) fs (rf_path r) = Inr (rules_file rules)"
    using assms by (auto simp: readFile_def)
  with assms san show ?thesis
    by (cases "buildMatcher ml (readFile (re_read env) fs) rules (rf_includes r)")
      (auto simp: reload_unfold Let_def split: if_splits)
qed

text \<open>A reload settles: when it succeeded and the text it left is within the size limit, the
  reload its own write triggers finds nothing to do; it writes nothing, logs nothing and keeps
  the rules.\<close>

theorem reload_settles:
  assumes "coherent lib ml r" and "we_tmp (re_write env) \<noteq> rf_path r"
    and "reload lib ml env r fs = (None, r', fs')"
    and "length (rf_lastGood r') \<le> maxRuleFileBytes" and "re_read env' (rf_path r) = None"
  shows "(case reload lib ml env' r' fs' of (err, r'', fs'') \<Rightarrow>
    fs'' = fs' \<and> rf_lastGood r'' = rf_lastGood r' \<and> rf_log r'' = rf_log r')"
proof -
  have l: "rf_loaded r" using assms(1) by (simp add: coherent_def)
  obtain err r'' fs'' where run: "reload lib ml env' r' fs' = (err, r'', fs'')" by (metis prod.exhaust)
  from l assms(2,3) have "\<exists>rules. rf_loaded r' \<and> rf_lastGood r' = rules_file rules \<and>
      (\<forall>x\<in>set rules. rule_ok lib x) \<and> rf_path r' = rf_path r \<and>
      map_option f_data (fs' (rf_path r)) = Some (rf_lastGood r')"
  proof (cases rule: reload_loaded [where old = "[]"])
    case restored
    with assms(1) show ?thesis by (auto simp: coherent_def same_policy_def)
  qed auto
  with reload_clean [OF _ _ _ assms(4) _ _ run] assms(5) have
    "fs'' = fs' \<and> rf_lastGood r'' = rf_lastGood r' \<and> rf_log r'' = rf_log r'" by auto
  with run show ?thesis by simp
qed

theorem reload_settles_witness:
  "snd (snd (reload plain_lib list_matcher no_faults (loaded_direct [''domain:a''] [])
     (direct_txt (rules_file [''domain:a''])))) = direct_txt (rules_file [''domain:a''])"
proof -
  have san: "sanitizeRules plain_lib (rules_file [''domain:a'']) =
      Inr ([''domain:a''], rules_file [''domain:a''], \<lparr>meaningful = 1, rejected = 0\<rparr>)"
    using sanitize_rules_file [of "[''domain:a'']" plain_lib] domain_a [of plain_lib] by (simp add: rules_file_def)
  have "coherent plain_lib list_matcher (loaded_direct [''domain:a''] [])"
    by (rule coherentI [where read = "\<lambda>_. Inl NotExist" and rules = "[''domain:a'']" and m = "[''domain:a'']"])
      (use domain_a [of plain_lib] in \<open>simp_all add: loaded_direct_def direct_rules_def build_list\<close>)
  from reload_settles [OF this, of no_faults "direct_txt (rules_file [''domain:a''])"
      "loaded_direct [''domain:a''] []" "direct_txt (rules_file [''domain:a''])" no_faults] san
  show ?thesis
    by (simp add: reload_unfold readFile_def build_list loaded_direct_def sample_rule_defs rules_file_def Let_def)
qed

text \<open>C19. The size limit can lose the operator's rules. A file of bare names within the limit is
  accepted, put in force and rewritten with the \<open>domain:\<close> prefixes; if that text exceeds the
  limit, the next reload (its own write triggers one) refuses it and writes it again, and a
  restart clears the file and serves no rule at all.\<close>

theorem oversize_rules_lost:
  assumes "116508 < n" and "n \<le> 524288"
  shows "newRuleFile plain_lib list_matcher no_faults Inr None ''/data/direct.txt'' [] False
      (direct_txt (rules_file (replicate n ''a''))) =
      (Inr (loaded_direct (replicate n ''domain:a'') [LogReloaded n 0]),
       direct_txt (rules_file (replicate n ''domain:a''))) \<and>
    reload plain_lib list_matcher no_faults (loaded_direct (replicate n ''domain:a'') l)
      (direct_txt (rules_file (replicate n ''domain:a''))) =
      (None, loaded_direct (replicate n ''domain:a'')
         (l @ [LogReplaced (BadContent (ErrNew ''rule file exceeds 1048576 bytes''))]),
       direct_txt (rules_file (replicate n ''domain:a''))) \<and>
    newRuleFile plain_lib list_matcher no_faults Inr None ''/data/direct.txt'' [] False
      (direct_txt (rules_file (replicate n ''domain:a''))) =
      (Inr (loaded_direct [] [LogCleared (BadContent (ErrNew ''rule file exceeds 1048576 bytes''))]),
       direct_txt [])"
proof -
  have grown: "sanitizeRules plain_lib (rules_file (replicate n ''a'')) =
      Inr (replicate n ''domain:a'', rules_file (replicate n ''domain:a''), \<lparr>meaningful = n, rejected = 0\<rparr>)"
    "sanitizeRules plain_lib (rules_file (replicate n ''domain:a'')) =
      Inl (ErrNew ''rule file exceeds 1048576 bytes'')"
    using outgrows_limit [OF assms, of plain_lib] by simp_all
  from new_direct [OF grown(1)] have first: "newRuleFile plain_lib list_matcher no_faults Inr None
      ''/data/direct.txt'' [] False (direct_txt (rules_file (replicate n ''a''))) =
      (Inr (loaded_direct (replicate n ''domain:a'') [LogReloaded n 0]),
       direct_txt (rules_file (replicate n ''domain:a'')))" by simp
  define big where "big = rules_file (replicate n ''domain:a'')"
  note g = grown(2) [folded big_def]
  have again: "reload plain_lib list_matcher no_faults (loaded_direct (replicate n ''domain:a'') l) (direct_txt big) =
      (None, loaded_direct (replicate n ''domain:a'')
         (l @ [LogReplaced (BadContent (ErrNew ''rule file exceeds 1048576 bytes''))]), direct_txt big)"
    by (simp add: reload_unfold readFile_def g restoreOrClear_def loaded_direct_def sample_rule_defs big_def [symmetric]
        rules_writeFileAtomic_def rename_def remove_tmp_def remove_def fun_eq_iff Let_def)
  have "newRuleFile plain_lib list_matcher no_faults Inr None ''/data/direct.txt'' [] False (direct_txt big) =
      (Inr (loaded_direct [] [LogCleared (BadContent (ErrNew ''rule file exceeds 1048576 bytes''))]), direct_txt [])"
    by (simp add: newRuleFile_def reload_unfold readFile_def g restoreOrClear_def loaded_direct_def sample_rule_defs
        build_list rules_writeFileAtomic_def rename_def remove_tmp_def remove_def fun_eq_iff rules_file_def Let_def)
  with first again show ?thesis by (simp add: big_def)
qed

theorem oversize_rules_lost_witness:
  "snd (newRuleFile plain_lib list_matcher no_faults Inr None ''/data/direct.txt'' [] False
      (direct_txt (rules_file (replicate 200000 ''domain:a'')))) = direct_txt []"
  using oversize_rules_lost [of 200000 "[]"] by simp

section \<open>The debouncer\<close>

definition event_time :: "watch_event \<Rightarrow> gotime option" where
  "event_time e = (case e of WEvents t name ops \<Rightarrow> Some t | WTimerFires t \<Rightarrow> Some t | WTimerC t \<Rightarrow> Some t | _ \<Rightarrow> None)"

text \<open>The histories of the loop, with the time read last; time does not run backwards.\<close>

inductive watch_history ::
  "(string \<Rightarrow> string) \<Rightarrow> string \<Rightarrow> watch_event list \<Rightarrow> gotime \<Rightarrow> watch_state \<Rightarrow> bool"
  for clean path where
  start: "watch_history clean path [] now watch_init"
| event: "watch_history clean path es now w \<Longrightarrow> watch_step clean path w e = Some (w', b) \<Longrightarrow>
    (case event_time e of None \<Rightarrow> now' = now | Some t \<Rightarrow> now \<le> t \<and> now' = t) \<Longrightarrow>
    watch_history clean path (es @ [e]) now' w'"

text \<open>The specification: the time of the last relevant event that no reload has answered.\<close>

definition unanswered_step :: "(string \<Rightarrow> string) \<Rightarrow> string \<Rightarrow> gotime option \<Rightarrow> watch_event \<Rightarrow> gotime option" where
  "unanswered_step clean path p e =
     (case e of
        WEvents t name ops \<Rightarrow> if relevant clean path name ops then Some t else p
      | WTimerC t \<Rightarrow> None
      | _ \<Rightarrow> p)"

definition unanswered :: "(string \<Rightarrow> string) \<Rightarrow> string \<Rightarrow> watch_event list \<Rightarrow> gotime option" where
  "unanswered clean path es = foldl (unanswered_step clean path) None es"

lemma unanswered_snoc: "unanswered clean path (es @ [e]) = unanswered_step clean path (unanswered clean path es) e"
  by (simp add: unanswered_def)

text \<open>The timer waits for the unanswered event, or its tick waits in the channel.\<close>

definition timer_matches :: "gotime \<Rightarrow> watch_state \<Rightarrow> gotime option \<Rightarrow> bool" where
  "timer_matches now w p \<longleftrightarrow>
     (case p of
        None \<Rightarrow> \<not> ws_listening w \<and>
          (case ws_timer w of None \<Rightarrow> True | Some t \<Rightarrow> gt_expiry t = None \<and> \<not> gt_tick t)
      | Some u \<Rightarrow> ws_listening w \<and>
          (case ws_timer w of None \<Rightarrow> False
           | Some t \<Rightarrow> gt_expiry t = Some (u + reloadDebounce) \<and> \<not> gt_tick t \<or>
               gt_expiry t = None \<and> gt_tick t \<and> u + reloadDebounce \<le> now))"

lemma timer_matches_mono: "timer_matches now w p \<Longrightarrow> now \<le> now' \<Longrightarrow> timer_matches now' w p"
  by (auto simp: timer_matches_def split: option.splits)

lemma watch_step_matches:
  assumes "timer_matches now w p" and "watch_step clean path w e = Some (w', b)"
    and "case event_time e of None \<Rightarrow> now' = now | Some t \<Rightarrow> now \<le> t \<and> now' = t" and "\<not> ws_returned w'"
  shows "timer_matches now' w' (unanswered_step clean path p e)"
proof (cases e)
  case (WEvents t name ops)
  then have m: "timer_matches t w p" "now' = t" using assms timer_matches_mono by (auto simp: event_time_def)
  with WEvents assms(2) show ?thesis
    by (cases "ws_timer w"; cases p)
      (auto simp: watch_step_def unanswered_step_def timer_matches_def Let_def split: if_splits)
next
  case (WTimerFires t)
  then have m: "timer_matches t w p" "now' = t" using assms timer_matches_mono by (auto simp: event_time_def)
  with WTimerFires assms(2) show ?thesis
    by (cases p) (auto simp: watch_step_def unanswered_step_def timer_matches_def split: if_splits option.splits)
next
  case (WTimerC t)
  then have m: "timer_matches t w p" "now' = t" using assms timer_matches_mono by (auto simp: event_time_def)
  with WTimerC assms(2) show ?thesis
    by (cases p) (auto simp: watch_step_def unanswered_step_def timer_matches_def split: if_splits option.splits)
qed (use assms in \<open>auto simp: watch_step_def unanswered_step_def event_time_def split: if_splits\<close>)

lemma watch_history_matches:
  "watch_history clean path es now w \<Longrightarrow> \<not> ws_returned w \<Longrightarrow> timer_matches now w (unanswered clean path es)"
proof (induction rule: watch_history.induct)
  case (start now)
  then show ?case by (simp add: timer_matches_def watch_init_def unanswered_def)
next
  case (event es now w e w' b now')
  have "\<not> ws_returned w" using event.hyps(2) by (auto simp: watch_step_def)
  with event watch_step_matches [OF _ event.hyps(2,3)] show ?case by (simp add: unanswered_snoc)
qed

text \<open>C32. The debouncer reloads after every change and never in the middle of a burst. In every
  history: a reload happens only when a relevant event is unanswered and at least 200 ms have
  passed since the last one; and while one is unanswered a reload is under way: the tick is
  there to be received, or the timer runs and fires as soon as 200 ms after that event.\<close>

theorem watch_debounces:
  assumes "watch_history clean path es now w" and "\<not> ws_returned w"
  shows "(\<forall>t w' b. now \<le> t \<and> watch_step clean path w (WTimerC t) = Some (w', b) \<longrightarrow>
      b \<and> (\<exists>u. unanswered clean path es = Some u \<and> u + reloadDebounce \<le> t)) \<and>
    (\<forall>u. unanswered clean path es = Some u \<longrightarrow>
      (\<forall>t. watch_step clean path w (WTimerC t) \<noteq> None) \<or>
      (\<forall>t\<ge>u + reloadDebounce. watch_step clean path w (WTimerFires t) \<noteq> None))"
  using watch_history_matches [OF assms] assms(2)
  by (cases "unanswered clean path es"; cases "ws_timer w")
    (auto simp: timer_matches_def watch_step_def split: if_splits)

lemma watch_history_one:
  "watch_history id ''d'' [WEvents 5 ''d'' {OpWrite}] 5
     \<lparr>ws_timer = Some \<lparr>gt_expiry = Some (5 + reloadDebounce), gt_tick = False\<rparr>, ws_listening = True, ws_returned = False\<rparr>"
proof -
  have "watch_history id ''d'' ([] @ [WEvents 5 ''d'' {OpWrite}]) 5
     \<lparr>ws_timer = Some \<lparr>gt_expiry = Some (5 + reloadDebounce), gt_tick = False\<rparr>, ws_listening = True, ws_returned = False\<rparr>"
    by (rule watch_history.event [OF watch_history.start [of id "''d''" 0], where b = False])
      (simp_all add: watch_step_def watch_init_def relevant_def event_time_def)
  then show ?thesis by simp
qed

theorem watch_debounces_witness:
  "watch_step id ''d'' \<lparr>ws_timer = Some \<lparr>gt_expiry = Some (5 + reloadDebounce), gt_tick = False\<rparr>,
     ws_listening = True, ws_returned = False\<rparr> (WTimerFires (5 + reloadDebounce)) \<noteq> None"
proof -
  have "unanswered id ''d'' [WEvents 5 ''d'' {OpWrite}] = Some 5"
    by (simp add: unanswered_def unanswered_step_def relevant_def)
  with watch_debounces [OF watch_history_one] show ?thesis by (auto simp: watch_step_def)
qed

end
