(* ===== verification/RuleService.thy ===== *)
theory RuleService
  imports RuleFileSafety Machine
begin

text \<open>
  The rule file plugin as a whole (internal/rulesplugin/rulesplugin.go): the file on disk that an
  operator edits at any moment, the kernel's queue of change events, the loop of \<open>watch\<close> with its
  timer, and the reload, whose read of the file and whose writing are separate steps, so that an
  edit can fall between them. \<open>newRuleFile\<close> has loaded the file; \<open>RAdd\<close> is the moment at which
  \<open>w.Add\<close> takes effect, before which the kernel queues nothing.
\<close>

section \<open>The machine\<close>

record 'm service =
  rs_file :: "'m ruleFile"
  rs_fs :: fs
  rs_watching :: bool
  rs_queue :: nat
  rs_loop :: watch_state
  rs_reading :: "(read_error + string) option"
  rs_err :: "rule_file_error option"

datatype service_event =
    RAdd
  | REdit "string option"
  | REvent gotime "fsop set"
  | RFires gotime
  | RTick gotime reload_env
  | RCommit reload_env
  | RDone

definition service_start :: "'m ruleFile \<Rightarrow> fs \<Rightarrow> 'm service" where
  "service_start r fs =
     \<lparr>rs_file = r, rs_fs = fs, rs_watching = False, rs_queue = 0, rs_loop = watch_init,
      rs_reading = None, rs_err = None\<rparr>"

definition data_of :: "'m service \<Rightarrow> string option" where
  "data_of s = map_option f_data (rs_fs s (rf_path (rs_file s)))"

text \<open>A change of the file is one event in the queue (fsnotify may split it; more events only
  prolong the debouncing).\<close>

definition notify :: "'m service \<Rightarrow> 'm service" where
  "notify s = (if rs_watching s then s\<lparr>rs_queue := Suc (rs_queue s)\<rparr> else s)"

definition service_step ::
  "rule_lib \<Rightarrow> 'm matcher_lib \<Rightarrow> (string \<Rightarrow> string) \<Rightarrow> 'm service \<Rightarrow> service_event \<Rightarrow> 'm service option" where
  "service_step lib ml clean s e =
     (let path = rf_path (rs_file s) in
      case e of
        RAdd \<Rightarrow> if rs_watching s then None else Some (s\<lparr>rs_watching := True\<rparr>)
      | REdit content \<Rightarrow>
          Some (notify (s\<lparr>rs_fs := (rs_fs s)(path := map_option (\<lambda>d. \<lparr>f_data = d, f_mode = 420\<rparr>) content)\<rparr>))
      | REvent now ops \<Rightarrow>
          if rs_queue s = 0 \<or> rs_reading s \<noteq> None \<or> \<not> relevant clean path path ops then None
          else map_option (\<lambda>(w, b). s\<lparr>rs_loop := w, rs_queue := rs_queue s - 1\<rparr>)
                 (watch_step clean path (rs_loop s) (WEvents now path ops))
      | RFires now \<Rightarrow>
          map_option (\<lambda>(w, b). s\<lparr>rs_loop := w\<rparr>) (watch_step clean path (rs_loop s) (WTimerFires now))
      | RTick now env \<Rightarrow>
          if rs_reading s \<noteq> None \<or> \<not> rs_watching s then None
          else map_option (\<lambda>(w, b). s\<lparr>rs_loop := w, rs_reading := Some (readFile (re_read env) (rs_fs s) path)\<rparr>)
                 (watch_step clean path (rs_loop s) (WTimerC now))
      | RCommit env \<Rightarrow>
          (case rs_reading s of
             None \<Rightarrow> None
           | Some content \<Rightarrow>
               (case reload_from lib ml env content (rs_file s) (rs_fs s) of (err, r, fs') \<Rightarrow>
                  let r' = (case err of None \<Rightarrow> r | Some e \<Rightarrow> r\<lparr>rf_log := rf_log r @ [LogRejected e]\<rparr>);
                      s' = s\<lparr>rs_file := r', rs_fs := fs', rs_reading := None, rs_err := err\<rparr>
                  in Some (if fs' path = rs_fs s path then s' else notify s')))
      | RDone \<Rightarrow>
          if rs_reading s \<noteq> None then None
          else map_option (\<lambda>(w, b). s\<lparr>rs_loop := w\<rparr>) (watch_step clean path (rs_loop s) WDone))"

definition service_history ::
  "rule_lib \<Rightarrow> 'm matcher_lib \<Rightarrow> (string \<Rightarrow> string) \<Rightarrow> 'm service \<Rightarrow> service_event list \<Rightarrow> 'm service \<Rightarrow> bool" where
  "service_history lib ml clean s0 es s \<longleftrightarrow> run_steps (service_step lib ml clean) s0 es = Some s"

interpretation serv: machine "service_step lib ml clean" s0 "service_history lib ml clean s0" for lib ml clean s0
  by unfold_locales (auto simp: service_history_def run_steps_snoc)

section \<open>No edit is missed\<close>

text \<open>A reload is on its way: a change waits in the queue, or the timer runs, or its tick waits.\<close>

definition armed :: "watch_state \<Rightarrow> bool" where
  "armed w \<longleftrightarrow> ws_listening w \<and> (case ws_timer w of None \<Rightarrow> False | Some t \<Rightarrow> gt_expiry t \<noteq> None \<or> gt_tick t)"

definition pending :: "'m service \<Rightarrow> bool" where
  "pending s \<longleftrightarrow> rs_queue s \<noteq> 0 \<or> armed (rs_loop s)"

lemma event_arms:
  "watch_step clean path w (WEvents now path ops) = Some (w', b) \<Longrightarrow> relevant clean path path ops \<Longrightarrow> armed w'"
  by (cases "ws_timer w") (auto simp: watch_step_def armed_def Let_def split: if_splits)

lemma fires_armed: "watch_step clean path w (WTimerFires now) = Some (w', b) \<Longrightarrow> armed w \<Longrightarrow> armed w'"
  by (cases "ws_timer w") (auto simp: watch_step_def armed_def split: if_splits option.splits)

lemma reload_from_ok:
  assumes "rf_loaded r" and "we_tmp (re_write env) \<noteq> rf_path r"
    and "reload_from lib ml env content r fs = (err, r', fs')"
  shows "rf_loaded r' \<and> rf_path r' = rf_path r \<and>
    (err = None \<longrightarrow> map_option f_data (fs' (rf_path r)) = Some (rf_lastGood r') \<or>
       fs' = fs \<and> content = Inr (rf_lastGood r')) \<and>
    (err \<noteq> None \<longrightarrow> fs' (rf_path r) = fs (rf_path r))"
proof (cases content)
  case (Inl e)
  with assms show ?thesis
    by (cases e) (auto simp: reload_from_def dest!: restore_loaded [OF assms(1,2)] split: option.splits
      simp: same_policy_def)
next
  case (Inr raw)
  show ?thesis
  proof (cases "sanitizeRules lib raw")
    case (Inl e)
    with Inr assms show ?thesis
      by (auto simp: reload_from_def dest!: restore_loaded [OF assms(1,2)] split: option.splits simp: same_policy_def)
  next
    case (Inr x)
    obtain rules cleaned stats where x: "x = (rules, cleaned, stats)" by (metis prod.exhaust)
    with \<open>content = Inr raw\<close> Inr assms rw.ok [OF _ assms(2)] rw.error [OF _ assms(2)] show ?thesis
      by (auto simp: reload_from_def Let_def split: if_splits prod.splits option.splits sum.splits)
  qed
qed

text \<open>The invariant: what is in memory is what is on disk, or a reload is on its way, or the last
  one failed; and a read that is out of date has its event in the queue.\<close>

definition up_to_date :: "read_error + string \<Rightarrow> 'm service \<Rightarrow> bool" where
  "up_to_date content s \<longleftrightarrow> (\<forall>raw. content = Inr raw \<longrightarrow> data_of s = Some raw \<or> rs_queue s \<noteq> 0)"

definition tracked :: "string \<Rightarrow> 'm service \<Rightarrow> bool" where
  "tracked path s \<longleftrightarrow> rf_loaded (rs_file s) \<and> rf_path (rs_file s) = path \<and> rs_watching s \<and>
     (case rs_reading s of
        None \<Rightarrow> rs_err s \<noteq> None \<or> ws_returned (rs_loop s) \<or>
          data_of s = Some (rf_lastGood (rs_file s)) \<or> pending s
      | Some content \<Rightarrow> up_to_date content s)"

fun write_tmp :: "service_event \<Rightarrow> string option" where
  "write_tmp (RTick now env) = Some (we_tmp (re_write env))"
| "write_tmp (RCommit env) = Some (we_tmp (re_write env))"
| "write_tmp e = None"

lemma data_of_simps [simp]:
  "data_of (s\<lparr>rs_loop := w\<rparr>) = data_of s" "data_of (s\<lparr>rs_queue := n\<rparr>) = data_of s"
  "data_of (s\<lparr>rs_reading := x\<rparr>) = data_of s" "data_of (s\<lparr>rs_err := er\<rparr>) = data_of s"
  by (simp_all add: data_of_def)

lemma readFile_data:
  "readFile fault fs path = Inr raw \<Longrightarrow> map_option f_data (fs path) = Some raw"
  by (auto simp: readFile_def split: option.splits)

lemma commit_tracked:
  assumes "tracked path s" and "rs_reading s = Some content" and "we_tmp (re_write env) \<noteq> path"
    and "service_step lib ml clean s (RCommit env) = Some s'"
  shows "tracked path s'"
proof -
  from assms(1) have s: "rf_loaded (rs_file s)" "rf_path (rs_file s) = path" "rs_watching s"
    by (auto simp: tracked_def)
  obtain err r fs' where c: "reload_from lib ml env content (rs_file s) (rs_fs s) = (err, r, fs')"
    by (metis prod.exhaust)
  from reload_from_ok [OF s(1) _ c] s(2) assms(3) have ok: "rf_loaded r" "rf_path r = path"
    "err = None \<longrightarrow> map_option f_data (fs' path) = Some (rf_lastGood r) \<or> fs' = rs_fs s \<and> content = Inr (rf_lastGood r)"
    by auto
  have "data_of s = Some (rf_lastGood r) \<or> rs_queue s \<noteq> 0" if "content = Inr (rf_lastGood r)"
    using assms(1,2) that by (simp add: tracked_def up_to_date_def)
  with ok s c assms(2,4) show ?thesis
    by (auto simp: service_step_def tracked_def notify_def data_of_def pending_def Let_def split: option.splits if_splits)
qed

lemma service_step_tracked:
  assumes "tracked path s" and "service_step lib ml clean s e = Some s'" and "write_tmp e \<noteq> Some path"
  shows "tracked path s'"
proof (cases e)
  case RAdd
  with assms show ?thesis by (auto simp: service_step_def tracked_def)
next
  case (REdit content)
  with assms show ?thesis
    by (auto simp: service_step_def tracked_def notify_def pending_def up_to_date_def Let_def split: option.splits)
next
  case (REvent now ops)
  with assms obtain w b where w: "watch_step clean path (rs_loop s) (WEvents now path ops) = Some (w, b)"
    "relevant clean path path ops" "rs_reading s = None" "s' = s\<lparr>rs_loop := w, rs_queue := rs_queue s - 1\<rparr>"
    by (auto simp: service_step_def tracked_def Let_def split: if_splits)
  with event_arms [OF w(1,2)] assms(1) show ?thesis by (simp add: tracked_def pending_def)
next
  case (RFires now)
  with assms obtain w b where w: "watch_step clean path (rs_loop s) (WTimerFires now) = Some (w, b)"
    "s' = s\<lparr>rs_loop := w\<rparr>"
    by (auto simp: service_step_def tracked_def Let_def)
  then have "\<not> ws_returned (rs_loop s)" by (auto simp: watch_step_def)
  with w fires_armed [OF w(1)] assms(1) show ?thesis
    by (auto simp: tracked_def pending_def up_to_date_def split: option.splits)
next
  case (RTick now env)
  with assms obtain w where "s' = s\<lparr>rs_loop := w, rs_reading := Some (readFile (re_read env) (rs_fs s) path)\<rparr>"
    by (auto simp: service_step_def tracked_def Let_def split: if_splits)
  with assms(1) readFile_data [of "re_read env" "rs_fs s" path] show ?thesis
    by (auto simp: tracked_def up_to_date_def data_of_def)
next
  case (RCommit env)
  with assms(2) obtain content where "rs_reading s = Some content"
    by (cases "rs_reading s") (auto simp: service_step_def)
  with commit_tracked assms RCommit show ?thesis by auto
next
  case RDone
  with assms(2) obtain w b where "watch_step clean (rf_path (rs_file s)) (rs_loop s) WDone = Some (w, b)"
    "s' = s\<lparr>rs_loop := w\<rparr>" "rs_reading s = None"
    by (auto simp: service_step_def Let_def split: if_splits)
  with assms(1) show ?thesis by (auto simp: watch_step_def tracked_def split: if_splits)
qed

lemma run_tracked:
  assumes "run_steps (service_step lib ml clean) s es = Some s'" and "tracked path s"
    and "\<forall>e\<in>set es. write_tmp e \<noteq> Some path"
  shows "tracked path s'"
  using assms(1,2)
proof (rule run_steps_invariant [where P = "tracked path"])
  fix m e m'
  assume "e \<in> set es" and "tracked path m" and "service_step lib ml clean m e = Some m'"
  with assms(3) show "tracked path m'" by (blast intro: service_step_tracked)
qed

text \<open>The matcher stays coherent with the rules in memory, as in the uninterrupted reload.\<close>

lemma reload_from_coherent:
  assumes "coherent lib ml r" and "we_tmp (re_write env) \<noteq> rf_path r"
    and "reload_from lib ml env content r fs = (err, r', fs')"
  shows "coherent lib ml r'"
proof -
  have l: "rf_loaded r" using assms(1) by (simp add: coherent_def)
  have same: "coherent lib ml r'" if "restoreOrClear ml env cause r fs = (err, r', fs')" for cause
    using restore_loaded [OF l assms(2) that] assms(1) by (auto intro: coherent_same split: option.splits)
  have logged: "coherent lib ml (r\<lparr>rf_log := ls\<rparr>)" for ls
    by (rule coherent_same [OF _ assms(1)]) simp
  show ?thesis
  proof (cases content)
    case (Inl e)
    with assms same show ?thesis by (cases e) (auto simp: reload_from_def)
  next
    case (Inr raw)
    show ?thesis
    proof (cases "sanitizeRules lib raw")
      case (Inl e)
      with assms(3) \<open>content = Inr raw\<close> same [of "BadContent e"] show ?thesis by (simp add: reload_from_def)
    next
      case (Inr x)
      obtain rules cleaned stats where x: "x = (rules, cleaned, stats)" by (metis prod.exhaust)
      with Inr have san: "sanitizeRules lib raw = Inr (rules, cleaned, stats)" by simp
      note ok = sanitize_ok [OF san]
      show ?thesis
      proof (cases "0 < meaningful stats \<and> length rules = 0")
        case True
        with \<open>content = Inr raw\<close> san assms(1,3) logged l show ?thesis
          by (auto simp: reload_from_def split: prod.splits option.splits)
      next
        case False
        with ok \<open>content = Inr raw\<close> san assms(1,3) l show ?thesis
          by (auto simp: reload_from_def Let_def intro!: coherentI [where rules = rules]
              split: if_splits prod.splits option.splits sum.splits)
      qed
    qed
  qed
qed

lemma service_step_coherent:
  assumes "coherent lib ml (rs_file s)" and "rf_path (rs_file s) = path"
    and "service_step lib ml clean s e = Some s'" and "write_tmp e \<noteq> Some path"
  shows "coherent lib ml (rs_file s') \<and> rf_path (rs_file s') = path"
proof (cases e)
  case (RCommit env)
  with assms(3) obtain content where c: "rs_reading s = Some content"
    by (cases "rs_reading s") (auto simp: service_step_def)
  obtain err r fs' where r: "reload_from lib ml env content (rs_file s) (rs_fs s) = (err, r, fs')"
    by (metis prod.exhaust)
  have tmp: "we_tmp (re_write env) \<noteq> rf_path (rs_file s)" using assms(2,4) RCommit by simp
  have "rf_loaded (rs_file s)" using assms(1) by (simp add: coherent_def)
  from reload_from_coherent [OF assms(1) tmp r] reload_from_ok [OF this tmp r] assms(2)
  have "coherent lib ml r" "rf_path r = path" by auto
  moreover from RCommit assms(3) c r have "same_policy r (rs_file s')"
    by (auto simp: service_step_def notify_def Let_def split: option.splits if_splits)
  ultimately show ?thesis by (auto intro: coherent_same simp: same_policy_def)
next
  case (REdit content)
  with assms show ?thesis by (auto simp: service_step_def notify_def Let_def)
qed (use assms in \<open>auto simp: service_step_def Let_def split: if_splits\<close>)

lemma new_on_disk:
  assumes "newRuleFile lib ml env absPath watcher file includes watch fs = (Inr r, fs1)"
    and "Inr (we_tmp (re_write env)) \<noteq> absPath file"
  shows "map_option f_data (fs1 (rf_path r)) = Some (rf_lastGood r)"
proof -
  obtain p where p: "absPath file = Inr p"
    using assms by (auto simp: newRuleFile_def split: if_splits sum.splits)
  define r0 where "r0 = \<lparr>rf_path = p, rf_includes = includes, rf_matcher = None :: 'a option, rf_lastGood = [],
    rf_loaded = False, rf_log = []\<rparr>"
  have tmp: "we_tmp (re_write env) \<noteq> p" using assms(2) p by simp
  have "reload lib ml env r0 fs = (None, r, fs1)"
    using assms(1) p by (auto simp: newRuleFile_def r0_def split: if_splits prod.splits option.splits)
  moreover have clear: "map_option f_data (fs1 (rf_path r)) = Some (rf_lastGood r)"
    if "restoreOrClear ml env cause r0 fs = (None, r, fs1)" for cause
    using that rw.ok [OF _ tmp] by (auto simp: restoreOrClear_def r0_def split: prod.splits option.splits sum.splits)
  ultimately show ?thesis using rw.ok [OF _ tmp]
    by (auto simp: reload_unfold r0_def readFile_def Let_def
        split: sum.splits read_error.splits prod.splits option.splits if_splits)
qed

text \<open>The steps the loop can take by itself, once time has passed.\<close>

definition loop_event :: "service_event \<Rightarrow> bool" where
  "loop_event e \<longleftrightarrow> (case e of REvent now ops \<Rightarrow> True | RFires now \<Rightarrow> True | RTick now env \<Rightarrow> True
     | RCommit env \<Rightarrow> True | _ \<Rightarrow> False)"

lemma loop_can_go:
  assumes "rs_reading s \<noteq> None \<or> pending s" and "\<not> ws_returned (rs_loop s)" and "rs_watching s"
    and "clean (rf_path (rs_file s)) = rf_path (rs_file s)"
  shows "\<exists>e. loop_event e \<and> service_step lib ml clean s e \<noteq> None"
proof (cases "rs_reading s")
  case (Some content)
  have "service_step lib ml clean s (RCommit env) \<noteq> None" for env
    using Some by (simp add: service_step_def Let_def split: prod.split)
  then show ?thesis by (intro exI [of _ "RCommit env" for env]) (simp add: loop_event_def)
next
  case None
  show ?thesis
  proof (cases "rs_queue s = 0")
    case False
    have "watch_step clean (rf_path (rs_file s)) (rs_loop s) (WEvents 0 (rf_path (rs_file s)) {OpWrite}) \<noteq> None"
      using assms(2,4) by (cases "ws_timer (rs_loop s)") (simp_all add: watch_step_def relevant_def Let_def)
    with False None assms(4) have "service_step lib ml clean s (REvent 0 {OpWrite}) \<noteq> None"
      by (auto simp: service_step_def relevant_def Let_def)
    then show ?thesis by (intro exI [of _ "REvent 0 {OpWrite}"]) (simp add: loop_event_def)
  next
    case True
    with assms(1) None obtain t where t: "ws_listening (rs_loop s)" "ws_timer (rs_loop s) = Some t"
      "gt_expiry t \<noteq> None \<or> gt_tick t"
      by (auto simp: pending_def armed_def split: option.splits)
    show ?thesis
    proof (cases "gt_tick t")
      case True
      with t None assms(2,3) have "service_step lib ml clean s (RTick 0 env) \<noteq> None" for env
        by (simp add: service_step_def watch_step_def Let_def)
      then show ?thesis by (intro exI [of _ "RTick 0 env" for env]) (simp add: loop_event_def)
    next
      case False
      with t obtain x where "gt_expiry t = Some x" by auto
      with t assms(2) have "service_step lib ml clean s (RFires x) \<noteq> None"
        by (simp add: service_step_def watch_step_def Let_def)
      then show ?thesis by (intro exI [of _ "RFires x"]) (simp add: loop_event_def)
    qed
  qed
qed

text \<open>C9. No edit is missed. In every interleaving of the operator's edits with the loop, from the
  moment the watch is in place: as long as the matcher in force might not be the one of the file
  on disk, the loop has a step to take; and when it has none left and the last reload did not
  fail, the disk holds exactly the rules in memory and the matcher is built from them.\<close>

theorem edits_reach_rules:
  assumes "newRuleFile lib ml env absPath watcher file includes True fs = (Inr r, fs1)"
    and "Inr (we_tmp (re_write env)) \<noteq> absPath file" and "clean (rf_path r) = rf_path r"
    and "service_history lib ml clean (service_start r fs1) (RAdd # es) s"
    and "\<forall>e\<in>set es. write_tmp e \<noteq> Some (rf_path r)"
    and "\<not> ws_returned (rs_loop s)"
  shows "if rs_reading s \<noteq> None \<or> pending s
    then \<exists>e. loop_event e \<and> service_step lib ml clean s e \<noteq> None
    else rs_err s = None \<longrightarrow> data_of s = Some (rf_lastGood (rs_file s)) \<and> coherent lib ml (rs_file s)"
proof -
  from new_coherent [OF assms(1)] have c: "coherent lib ml r" by blast
  define s1 where "s1 = (service_start r fs1)\<lparr>rs_watching := True\<rparr>"
  from assms(4) have run: "run_steps (service_step lib ml clean) s1 es = Some s"
    by (simp add: service_history_def service_step_def service_start_def s1_def)
  have "tracked (rf_path r) s1"
    using new_on_disk [OF assms(1,2)] c
    by (simp add: s1_def service_start_def tracked_def data_of_def coherent_def)
  from run_tracked [OF run this assms(5)] have tr: "tracked (rf_path r) s" .
  have "coherent lib ml (rs_file s) \<and> rf_path (rs_file s) = rf_path r"
    using run
  proof (rule run_steps_invariant [where P = "\<lambda>s. coherent lib ml (rs_file s) \<and> rf_path (rs_file s) = rf_path r"])
    fix m e m'
    assume "e \<in> set es" and "coherent lib ml (rs_file m) \<and> rf_path (rs_file m) = rf_path r"
      and "service_step lib ml clean m e = Some m'"
    with assms(5) service_step_coherent show "coherent lib ml (rs_file m') \<and> rf_path (rs_file m') = rf_path r" by blast
  qed (use c in \<open>simp add: s1_def service_start_def\<close>)
  with tr assms(3,6) loop_can_go [of s clean lib ml] show ?thesis
    by (auto simp: tracked_def)
qed

lemma new_direct_watched:
  assumes "sanitizeRules plain_lib raw = Inr (rules, rules_file rules, stats)"
  shows "newRuleFile plain_lib list_matcher no_faults Inr None ''/data/direct.txt'' [] True (direct_txt raw) =
    (Inr (loaded_direct rules [LogReloaded (length rules) (rejected stats)]), direct_txt (rules_file rules))"
  using new_direct [OF assms] by (simp add: newRuleFile_def split: prod.splits option.splits)

lemma sample_direct:
  "newRuleFile plain_lib list_matcher no_faults Inr None ''/data/direct.txt'' [] True (direct_txt (rules_file [''domain:a''])) =
    (Inr (loaded_direct [''domain:a''] [LogReloaded 1 0]), direct_txt (rules_file [''domain:a'']))"
proof -
  have "sanitizeRules plain_lib (rules_file [''domain:a'']) =
      Inr ([''domain:a''], rules_file [''domain:a''], \<lparr>meaningful = 1, rejected = 0\<rparr>)"
    using sanitize_rules_file [of "[''domain:a'']" plain_lib] domain_a [of plain_lib] by (simp add: rules_file_def)
  from new_direct_watched [OF this] show ?thesis by simp
qed

definition sample_service :: "string list service" where
  "sample_service = service_start (loaded_direct [''domain:a''] [LogReloaded 1 0]) (direct_txt (rules_file [''domain:a'']))"

theorem edits_reach_rules_witness:
  "\<exists>s e. service_history plain_lib list_matcher id sample_service [RAdd, REdit None] s \<and>
     data_of s = None \<and> loop_event e \<and> service_step plain_lib list_matcher id s e \<noteq> None"
proof -
  obtain s where s: "service_history plain_lib list_matcher id sample_service [RAdd, REdit None] s"
    "data_of s = None" "pending s" "\<not> ws_returned (rs_loop s)"
    by (simp add: service_history_def service_step_def sample_service_def service_start_def notify_def pending_def
        data_of_def watch_init_def Let_def)
  from edits_reach_rules [OF sample_direct, where es = "[REdit None]" and clean = id and s = s] s show ?thesis
    by (auto simp: sample_service_def no_faults_def)
qed

section \<open>Two windows in which an edit is lost\<close>

text \<open>C21. An edit of the rule file between the first load and the moment the watch is in place is
  never seen: the rules in memory are those of the old file, the disk holds the new one, and the
  loop has no step to take until the file is changed again.\<close>

theorem startup_edit_missed:
  assumes "newRuleFile lib ml env absPath watcher file includes True fs = (Inr r, fs1)"
    and "content \<noteq> Some (rf_lastGood r)"
  shows "\<exists>s. service_history lib ml clean (service_start r fs1) [REdit content, RAdd] s \<and>
    data_of s = content \<and> data_of s \<noteq> Some (rf_lastGood (rs_file s)) \<and>
    (\<forall>e. loop_event e \<longrightarrow> service_step lib ml clean s e = None)"
proof -
  define s where "s = (service_start r (fs1(rf_path r := map_option (\<lambda>d. \<lparr>f_data = d, f_mode = 420\<rparr>) content)))
    \<lparr>rs_watching := True\<rparr>"
  have "service_history lib ml clean (service_start r fs1) [REdit content, RAdd] s"
    by (simp add: service_history_def service_step_def service_start_def notify_def s_def Let_def)
  moreover have "data_of s = content" and "rs_file s = r"
    by (cases content; simp add: s_def service_start_def data_of_def)+
  moreover have "service_step lib ml clean s e = None" if "loop_event e" for e
    using that by (cases e) (auto simp: loop_event_def service_step_def s_def service_start_def watch_step_def watch_init_def Let_def)
  ultimately show ?thesis using assms(2) by blast
qed

theorem startup_edit_missed_witness:
  "\<exists>s. service_history plain_lib list_matcher id sample_service [REdit (Some ''domain:b''), RAdd] s \<and>
     data_of s = Some ''domain:b''"
  using startup_edit_missed [OF sample_direct, where content = "Some ''domain:b''" and clean = id]
  by (auto simp: sample_service_def loaded_direct_def direct_rules_def rules_file_def)

text \<open>C20. An edit saved while a reload rewrites the file is overwritten: when the text that was read
  has to be cleaned, the reload writes the cleaned old text over whatever the operator saved in
  the meantime, and then disk and memory agree on the old rules.\<close>

theorem concurrent_edit_overwritten:
  assumes "rs_reading s = Some (Inr raw)" and "sanitizeRules lib raw = Inr (rules, cleaned, stats)"
    and "rules \<noteq> []" and "raw \<noteq> cleaned" and "we_tmp (re_write env) \<noteq> rf_path (rs_file s)"
    and "run_steps (service_step lib ml clean) s [REdit content, RCommit env] = Some s'" and "rs_err s' = None"
  shows "data_of s' = Some cleaned \<and> rf_lastGood (rs_file s') = cleaned"
proof -
  define fs1 where "fs1 = (rs_fs s)(rf_path (rs_file s) := map_option (\<lambda>d. \<lparr>f_data = d, f_mode = 420\<rparr>) content)"
  obtain err r fs' where r: "reload_from lib ml env (Inr raw) (rs_file s) fs1 = (err, r, fs')" by (metis prod.exhaust)
  with assms(1,6,7) have s': "err = None" "rs_file s' = r" "rs_fs s' = fs'"
    by (auto simp: service_step_def notify_def fs1_def Let_def split: if_splits option.splits)
  have "map_option f_data (fs' (rf_path (rs_file s))) = Some cleaned \<and> rf_lastGood r = cleaned \<and>
      rf_path r = rf_path (rs_file s)"
    using r s'(1) assms(2-4) rw.ok [OF _ assms(5)]
    by (auto simp: reload_from_def Let_def split: sum.splits prod.splits option.splits)
  with s' show ?thesis by (simp add: data_of_def)
qed

definition mid_reload :: "string list service" where
  "mid_reload = sample_service\<lparr>rs_watching := True, rs_reading := Some (Inr (rules_file [''a'']))\<rparr>"

lemma mid_commit:
  "reload_from plain_lib list_matcher no_faults (Inr (rules_file [''a''])) (loaded_direct [''domain:a''] l) (direct_txt d) =
     (None, loaded_direct [''domain:a''] l, direct_txt (rules_file [''domain:a'']))"
proof -
  have "rules_file [''a''] \<noteq> rules_file [''domain:a'']" by (simp add: rules_file_def)
  then show ?thesis using one_bare_rule [of plain_lib]
    by (simp add: reload_from_def loaded_direct_def build_list rules_writeFileAtomic_def rename_def remove_tmp_def
        remove_def fun_eq_iff sample_rule_defs Let_def)
qed

theorem concurrent_edit_overwritten_witness:
  "\<exists>s'. run_steps (service_step plain_lib list_matcher id) mid_reload [REdit (Some ''domain:b''), RCommit no_faults] = Some s' \<and>
     data_of s' = Some (rules_file [''domain:a''])"
proof -
  have edit: "(direct_txt c)(''/data/direct.txt'' := map_option (\<lambda>d. \<lparr>f_data = d, f_mode = 420\<rparr>) (Some d)) = direct_txt d" for c d
    by (simp add: direct_txt_def)
  have path: "rf_path (loaded_direct rules l) = ''/data/direct.txt''" for rules l
    by (simp add: loaded_direct_def direct_rules_def)
  obtain s' where s': "run_steps (service_step plain_lib list_matcher id) mid_reload
      [REdit (Some ''domain:b''), RCommit no_faults] = Some s'" "rs_err s' = None"
    using mid_commit [of "[LogReloaded 1 0]" "''domain:b''"] edit [of "rules_file [''domain:a'']" "''domain:b''"]
    by (simp add: service_step_def notify_def mid_reload_def sample_service_def service_start_def path Let_def)
  have "rs_reading mid_reload = Some (Inr (rules_file [''a'']))" by (simp add: mid_reload_def)
  from concurrent_edit_overwritten [OF this one_bare_rule _ _ _ s'] s' show ?thesis
    by (simp add: rules_file_def mid_reload_def sample_service_def service_start_def path no_faults_def)
qed

end
