(* ===== verification/SupervisorSafety.thy ===== *)
theory SupervisorSafety
  imports Supervisor
begin

text \<open>
  The health chain: published state, plugin, probe endpoint, health check. Also the metrics the
  plugin exports.
\<close>

section \<open>The probes\<close>

lemma status_messages:
  "trimSpace (''ok'' @ [char_of (10::nat)]) = ''ok''"
  "trimSpace (''degraded: unbound is restarting'' @ [char_of (10::nat)]) = ''degraded: unbound is restarting''"
  "trimSpace (''degraded: CN classification resolver is restarting'' @ [char_of (10::nat)]) =
     ''degraded: CN classification resolver is restarting''"
proof -
  show "trimSpace (''ok'' @ [char_of (10::nat)]) = ''ok''"
    by (rule trimSpace_line [where a = "CHR ''o''" and t = "''k''" and u = "''o''" and b = "CHR ''k''"])
      (simp_all add: isSpace_byte)
  show "trimSpace (''degraded: unbound is restarting'' @ [char_of (10::nat)]) = ''degraded: unbound is restarting''"
    by (rule trimSpace_line [where a = "CHR ''d''" and t = "''egraded: unbound is restarting''"
        and u = "''degraded: unbound is restartin''" and b = "CHR ''g''"]) (simp_all add: isSpace_byte)
  show "trimSpace (''degraded: CN classification resolver is restarting'' @ [char_of (10::nat)]) =
     ''degraded: CN classification resolver is restarting''"
    by (rule trimSpace_line [where a = "CHR ''d''" and t = "''egraded: CN classification resolver is restarting''"
        and u = "''degraded: CN classification resolver is restartin''" and b = "CHR ''g''"])
      (simp_all add: isSpace_byte)
qed

lemma readyStatus_ok:
  "fst (readyStatus sn age) = StatusOK \<longleftrightarrow>
     sn_timestamp sn \<noteq> 0 \<and> age \<le> 5 * second \<and> \<not> down sn ''mosdns'' \<and> \<not> down sn ''doh_bridge''"
  by (auto simp: readyStatus_def liveStatus_def)

lemma readyStatus_ok_message:
  "fst (readyStatus sn age) = StatusOK \<Longrightarrow>
   snd (readyStatus sn age) \<in> {''ok'', ''degraded: unbound is restarting'',
     ''degraded: CN classification resolver is restarting''}"
  by (auto simp: readyStatus_def liveStatus_def split: if_splits)

lemma readyStatus_code: "fst (readyStatus sn age) = StatusOK \<or> fst (readyStatus sn age) = StatusServiceUnavailable"
  by (auto simp: readyStatus_def liveStatus_def)

lemma health_of_ready:
  "checkSupervisorHealth (case writeStatus (readyStatus sn age) of (code, body) \<Rightarrow> Inr (code, body, None)) = None \<longleftrightarrow>
   fst (readyStatus sn age) = StatusOK"
  using readyStatus_ok_message [of sn age] status_messages
  by (auto simp: checkSupervisorHealth_def writeStatus_def Let_def)

text \<open>The three endpoints agree. The service is ready exactly when the last state is at most
  five seconds old and neither MosDNS nor the encrypted bridge is down; ready implies live; and
  the dependency report says \<open>unhealthy\<close> exactly when it is not ready, \<open>degraded\<close> exactly when
  it is ready and one of the two resolvers is down, \<open>ready\<close> otherwise.\<close>

theorem probes_agree:
  "(case currentSnapshot now p of (sn, age) \<Rightarrow>
     (fst (ready now p) = StatusOK \<longleftrightarrow>
        sn_timestamp sn \<noteq> 0 \<and> age \<le> 5 * second \<and> \<not> down sn ''mosdns'' \<and> \<not> down sn ''doh_bridge'') \<and>
     (fst (ready now p) = StatusOK \<longrightarrow> fst (live now p) = StatusOK) \<and>
     (dr_status (dependencies now p) = ''unhealthy'' \<longleftrightarrow> fst (ready now p) \<noteq> StatusOK) \<and>
     (dr_status (dependencies now p) = ''degraded'' \<longleftrightarrow>
        fst (ready now p) = StatusOK \<and> (down sn ''unbound'' \<or> down sn ''unbound_recursive'')) \<and>
     (dr_status (dependencies now p) = ''ready'' \<longleftrightarrow>
        fst (ready now p) = StatusOK \<and> \<not> down sn ''unbound'' \<and> \<not> down sn ''unbound_recursive''))"
  by (simp add: ready_def live_def dependencies_def currentSnapshot_def writeStatus_def readyStatus_def
      liveStatus_def Let_def)

theorem probes_agree_witness:
  "fst (live (9 * second) \<lparr>su_snapshot = \<lparr>sn_timestamp = 7, sn_components = Map.empty, sn_dohUpstreams = Map.empty\<rparr>,
     su_receivedAt = 8 * second, su_socketPath = [], su_open = True, su_registered = True\<rparr>) = StatusOK"
  using probes_agree [of "9 * second" "\<lparr>su_snapshot = \<lparr>sn_timestamp = 7, sn_components = Map.empty,
     sn_dohUpstreams = Map.empty\<rparr>, su_receivedAt = 8 * second, su_socketPath = [], su_open = True, su_registered = True\<rparr>"]
  by (simp add: currentSnapshot_def down_def time_sub_def)

section \<open>From the supervisor's state to the health check\<close>

definition well_known :: "runtimeState \<Rightarrow> bool" where
  "well_known s \<longleftrightarrow> list_all (\<lambda>n. case rs_components s n of None \<Rightarrow> False | Some c \<Rightarrow> cp_enabled c) component_names"

definition component_up :: "runtimeState \<Rightarrow> string \<Rightarrow> bool" where
  "component_up s name = (case rs_components s name of None \<Rightarrow> False | Some c \<Rightarrow> cp_up c)"

lemma new_well_known [simp]: "well_known newRuntimeState"
  by (simp add: well_known_def newRuntimeState_def component_names_def)

lemma update_well_known:
  "well_known s \<Longrightarrow> (\<And>c. cp_enabled (fn c) = cp_enabled c) \<Longrightarrow> well_known (update name fn s)"
  by (auto simp: well_known_def update_def Let_def list_all_iff split: option.splits if_splits)

lemma observe_well_known [simp]: "well_known (observeDoHUpstream now name result d retryAt s) = well_known s"
  by (simp add: well_known_def observeDoHUpstream_def Let_def)

lemma well_known_down:
  "well_known s \<Longrightarrow> name \<in> set component_names \<Longrightarrow> down (state_snapshot t s) name \<longleftrightarrow> \<not> component_up s name"
  by (auto simp: well_known_def down_def component_up_def state_snapshot_def list_all_iff split: option.splits)

text \<open>C8. The health check reports the supervisor's own state, end to end. After a state was
  sent at \<open>t0\<close> and received at \<open>t1\<close>, through any encoding whose decoder inverts it, a poll at
  \<open>now\<close> passes exactly when the state is at most five seconds old and MosDNS and the bridge
  were up when it was taken.\<close>

theorem health_end_to_end:
  assumes "well_known s" and "time_unix t0 \<noteq> 0"
    and "sendState marshal True t0 s = [d]"
    and "\<forall>sn d. marshal sn = Some d \<longrightarrow> decode d = Some sn"
  shows "checkSupervisorHealth (case ready now (receive decode (d, t1) p) of (code, body) \<Rightarrow> Inr (code, body, None)) = None \<longleftrightarrow>
    time_sub now t1 \<le> 5 * second \<and> component_up s ''mosdns'' \<and> component_up s ''doh_bridge''"
proof -
  have "decode d = Some (state_snapshot t0 s)"
    using assms(3,4) by (auto simp: sendState_def split: option.splits)
  then have "ready now (receive decode (d, t1) p) =
      writeStatus (readyStatus (state_snapshot t0 s) (time_sub now t1))"
    by (simp add: ready_def currentSnapshot_def receive_def)
  then show ?thesis
    using health_of_ready [of "state_snapshot t0 s"] readyStatus_ok [of "state_snapshot t0 s" "time_sub now t1"]
      well_known_down [OF assms(1), of _ t0] assms(2)
    by (simp add: component_names_def) (simp add: state_snapshot_def)
qed

definition sample_supervisor :: supervisor where
  "sample_supervisor = \<lparr>su_snapshot = zero_snapshot, su_receivedAt = zero_time,
     su_socketPath = ''/run/veladns/supervisor.sock'', su_open = True, su_registered = True\<rparr>"

theorem health_end_to_end_witness:
  "checkSupervisorHealth (case ready (9 * second)
     (receive Some (state_snapshot (7 * second) newRuntimeState, 8 * second) sample_supervisor) of
       (code, body) \<Rightarrow> Inr (code, body, None)) \<noteq> None"
proof -
  have "sendState Some True (7 * second) newRuntimeState = [state_snapshot (7 * second) newRuntimeState]"
    by (simp add: sendState_def)
  from health_end_to_end [OF new_well_known _ this, of Some "9 * second" "8 * second" sample_supervisor]
  show ?thesis
    by (simp add: time_unix_def component_up_def newRuntimeState_def component_names_def zero_component_def)
qed

lemma readLoop_received:
  "su_receivedAt (readLoop decode dts p) \<in> insert (su_receivedAt p) (snd ` set dts)"
  unfolding readLoop_def
proof (induction dts arbitrary: p)
  case (Cons x dts)
  from Cons.IH [of "receive decode x p"] show ?case
    by (auto simp: receive_def split: option.splits)
qed simp

text \<open>C37. A dead supervisor is noticed: whatever datagrams arrived, once more than five seconds
  have passed since the last one, liveness and readiness both answer 503; a plugin that never
  received a state does so from the start.\<close>

theorem silence_is_unhealthy:
  assumes "supervisor_initPlugin calls socket = Inr p0"
    and "\<forall>(d, t)\<in>set dts. t + 5 * second < now" and "5 * second < now"
  shows "fst (live now (readLoop decode dts p0)) = StatusServiceUnavailable \<and>
    fst (ready now (readLoop decode dts p0)) = StatusServiceUnavailable"
proof -
  have "su_receivedAt p0 = 0"
    using assms(1) by (auto simp: supervisor_initPlugin_def split: if_splits option.splits)
  with readLoop_received [of decode dts p0] assms(2,3)
  have "su_receivedAt (readLoop decode dts p0) + 5 * second < now" by auto
  then have "5 * second < time_sub now (su_receivedAt (readLoop decode dts p0))"
    by (auto simp: time_sub_def)
  then show ?thesis
    by (simp add: live_def ready_def currentSnapshot_def writeStatus_def readyStatus_def liveStatus_def)
qed

theorem silence_is_unhealthy_witness:
  "fst (live (20 * second) (readLoop Some [(state_snapshot (7 * second) newRuntimeState, 8 * second)]
     sample_supervisor)) = StatusServiceUnavailable"
proof -
  have "supervisor_initPlugin \<lparr>sc_resolve = None, sc_listen = None, sc_chmod = None, sc_register = None\<rparr>
      ''/run/veladns/supervisor.sock'' = Inr sample_supervisor"
    by (simp add: supervisor_initPlugin_def sample_supervisor_def)
  from silence_is_unhealthy [OF this, of "[(state_snapshot (7 * second) newRuntimeState, 8 * second)]" "20 * second" Some]
  show ?thesis by simp
qed

section \<open>Metrics\<close>

text \<open>The exported backoff of a provider is its real one: after an exchange recorded the
  retry time, the gauge is never negative, never above the time that remains and less than one
  millisecond below it.\<close>

theorem backoff_gauge_accurate:
  assumes "rs_dohUpstreams (observeDoHUpstream t name result d retryAt s) name = Some u"
    and "time_unix_milli retryAt \<noteq> 0" and "retryAt \<noteq> zero_time"
    and "\<bar>retryAt - now\<bar> < max_duration - millisecond"
  shows "0 \<le> remainingBackoffSeconds u now \<and>
    remainingBackoffSeconds u now \<le> max 0 (retryAt - now) \<and>
    retryAt - now - millisecond < remainingBackoffSeconds u now"
proof -
  have "ds_retryAtUnixMilli u = time_unix_milli retryAt"
    using assms(1,3) by (auto simp: observeDoHUpstream_def Let_def split: dohObservation.splits)
  moreover have "of_unix_milli (time_unix_milli retryAt) \<le> retryAt"
    "retryAt < of_unix_milli (time_unix_milli retryAt) + millisecond"
    using of_unix_milli_unix_milli [of retryAt] by simp_all
  ultimately show ?thesis using assms(2,4)
    by (simp add: remainingBackoffSeconds_def time_sub_def Let_def abs_less_iff)
qed

theorem backoff_gauge_accurate_witness:
  "remainingBackoffSeconds (zero_dohStats\<lparr>ds_requests := 1, ds_failures := 1,
     ds_lastFailureUnix := time_unix 5, ds_retryAtUnixMilli := time_unix_milli (3 * second)\<rparr>) second \<le> 2 * second"
  using backoff_gauge_accurate [of 5 "''360''" DohFailure 0 "3 * second" newRuntimeState
      "zero_dohStats\<lparr>ds_requests := 1, ds_failures := 1, ds_lastFailureUnix := time_unix 5,
        ds_retryAtUnixMilli := time_unix_milli (3 * second)\<rparr>" second]
  by (simp add: observeDoHUpstream_def newRuntimeState_def zero_dohStats_def time_unix_milli_def)

lemma entries_keys: "distinct names \<Longrightarrow> distinct (map fst (entries m names)) \<and> set (map fst (entries m names)) \<subseteq> set names"
  by (induction names) (auto simp: entries_def split: option.split)

definition metric_key :: "metric \<Rightarrow> string \<times> string" where
  "metric_key x = (mt_name x, mt_label x)"

lemma component_keys: "map metric_key (component_metrics n c) = map (\<lambda>m. (m, n)) (take 4 supervisor_describe)"
  by (simp add: component_metrics_def supervisor_describe_def metric_key_def)

lemma doh_keys: "map metric_key (doh_metrics now n u) = map (\<lambda>m. (m, n)) dohMetricDescriptions"
  by (simp add: doh_metrics_def dohMetricDescriptions_def metric_key_def)

lemma map_concat_keys:
  "map metric_key (concat (map (\<lambda>(n, v). f n v) es)) = concat (map (\<lambda>(n, v). map metric_key (f n v)) es)"
  by (induction es) auto

lemma distinct_blocks:
  "distinct ms \<Longrightarrow> distinct (map fst es) \<Longrightarrow> distinct (concat (map (\<lambda>(n, v). map (\<lambda>m. (m, n)) ms) es))"
  by (induction es) (auto simp: distinct_map inj_on_def, force)

lemma block_names: "fst ` set (concat (map (\<lambda>(n, v). map (\<lambda>m. (m, n)) ms) es)) \<subseteq> set ms"
  by auto

lemma three_blocks:
  assumes "distinct xs" "distinct ys" "fst ` set xs \<subseteq> A" "fst ` set ys \<subseteq> B" "A \<inter> B = {}" "fst k \<notin> A" "fst k \<notin> B"
  shows "distinct (xs @ [k] @ ys)"
proof -
  have "set xs \<inter> set ys = {}" "k \<notin> set xs" "k \<notin> set ys" using assms(3-7) by blast+
  with assms(1,2) show ?thesis by auto
qed

lemma three_names:
  assumes "fst ` set xs \<subseteq> A" "fst ` set ys \<subseteq> B" "A \<subseteq> D" "B \<subseteq> D" "fst k \<in> D"
  shows "fst ` set (xs @ [k] @ ys) \<subseteq> D"
  using assms by auto

text \<open>A scrape is well formed: every metric \<open>Collect\<close> sends is one \<open>Describe\<close> announced, and
  no metric is sent twice for one label, whatever the order in which Go ranges over the maps.\<close>

theorem collect_well_formed:
  assumes "distinct names" and "distinct upstreams"
  shows "distinct (map metric_key (supervisor_collect names upstreams t1 t2 p)) \<and>
    mt_name ` set (supervisor_collect names upstreams t1 t2 p) \<subseteq> set supervisor_describe"
proof -
  let ?cs = "entries (sn_components (su_snapshot p)) names"
  let ?us = "entries (sn_dohUpstreams (su_snapshot p)) upstreams"
  have age: "metric_key \<lparr>mt_name = ''veladns_supervisor_state_age_seconds'', mt_value = v, mt_label = []\<rparr> =
    (''veladns_supervisor_state_age_seconds'', [])" for v by (simp add: metric_key_def)
  have keys: "map metric_key (supervisor_collect names upstreams t1 t2 p) =
    concat (map (\<lambda>(n, c). map (\<lambda>m. (m, n)) (take 4 supervisor_describe)) ?cs) @
    [(''veladns_supervisor_state_age_seconds'', [])] @
    concat (map (\<lambda>(n, u). map (\<lambda>m. (m, n)) dohMetricDescriptions) ?us)"
    by (simp only: supervisor_collect_def map_append map_concat_keys component_keys doh_keys list.map age)
  have dist: "distinct (concat (map (\<lambda>(n, c). map (\<lambda>m. (m, n)) (take 4 supervisor_describe)) ?cs))"
    by (rule distinct_blocks) (simp_all add: entries_keys [THEN conjunct1] assms supervisor_describe_def)
  have dist': "distinct (concat (map (\<lambda>(n, u). map (\<lambda>m. (m, n)) dohMetricDescriptions) ?us))"
    by (rule distinct_blocks) (simp_all add: entries_keys [THEN conjunct1] assms dohMetricDescriptions_def)
  have apart: "set (take 4 supervisor_describe) \<inter> set dohMetricDescriptions = {}"
    "''veladns_supervisor_state_age_seconds'' \<notin> set (take 4 supervisor_describe)"
    "''veladns_supervisor_state_age_seconds'' \<notin> set dohMetricDescriptions"
    by (simp_all add: supervisor_describe_def dohMetricDescriptions_def)
  have "distinct (map metric_key (supervisor_collect names upstreams t1 t2 p))"
    unfolding keys using apart by (intro three_blocks [OF dist dist' block_names block_names]) simp_all
  moreover have "mt_name ` set (supervisor_collect names upstreams t1 t2 p) =
      fst ` set (map metric_key (supervisor_collect names upstreams t1 t2 p))"
    by (force simp: metric_key_def)
  moreover have "fst ` set (map metric_key (supervisor_collect names upstreams t1 t2 p)) \<subseteq> set supervisor_describe"
    unfolding keys by (rule three_names [OF block_names block_names]) (auto simp: supervisor_describe_def)
  ultimately show ?thesis by simp
qed

theorem collect_well_formed_witness:
  "distinct (map metric_key (supervisor_collect [''mosdns'', ''unbound''] [''360''] 0 0 sample_supervisor))"
  using collect_well_formed [of "[''mosdns'', ''unbound'']" "[''360'']" 0 0 sample_supervisor] by simp

end
