(* ===== verification/Config.thy ===== *)
theory Config
  imports GoStrconv FileSys
begin

text \<open>
  cmd/veladns/config.go: reading the environment (\<open>loadConfig\<close>, \<open>parseForwardEndpoint\<close>),
  and preparing the runtime directory (\<open>prepareRuntime\<close> and what it calls). The environment is
  a function from names to values (the empty string for an unset variable). Every system call
  takes its fault from the record \<open>runtime_calls\<close>; directories, owners and the umask are not
  part of the file system of the model.
\<close>

section \<open>The configuration\<close>

record config =
  cf_autoForwardRaw :: string
  cf_autoEnabled :: bool
  cf_autoDNS :: string
  cf_logLevel :: string
  cf_unboundLog :: string

datatype config_error =
    BadLogLevel
  | TooManyColons
  | EmptyHost
  | UnsafeHost
  | PortNotInteger
  | PortOutOfRange

definition envDefault :: "(string \<Rightarrow> string) \<Rightarrow> string \<Rightarrow> string \<Rightarrow> string" where
  "envDefault getenv name fallback = (let value = getenv name in if value \<noteq> [] then value else fallback)"

text \<open>The regular expression \<open>^[A-Za-z0-9._-]+$\<close>.\<close>

definition host_byte :: "char \<Rightarrow> bool" where
  "host_byte c \<longleftrightarrow>
     (65 \<le> (of_char c :: nat) \<and> (of_char c :: nat) \<le> 90) \<or> (97 \<le> (of_char c :: nat) \<and> (of_char c :: nat) \<le> 122) \<or>
     is_digit c \<or> c = CHR ''.'' \<or> c = CHR ''_'' \<or> c = CHR ''-''"

definition safeHost :: "string \<Rightarrow> bool" where
  "safeHost s \<longleftrightarrow> s \<noteq> [] \<and> list_all host_byte s"

definition parseForwardEndpoint :: "string \<Rightarrow> config_error + string \<times> string" where
  "parseForwardEndpoint value =
     (let colons = length (filter (\<lambda>c. c = CHR '':'') value)
      in if 1 < colons then Inl TooManyColons
         else
           let (host, port) = (if colons = 0 then (value, ''53'')
                 else case cut value CHR '':'' of (h, p, found) \<Rightarrow> (h, p))
           in if host = [] then Inl EmptyHost
              else if \<not> safeHost host then Inl UnsafeHost
              else case atoi port of
                None \<Rightarrow> Inl PortNotInteger
              | Some number \<Rightarrow>
                  if number < 1 \<or> 65535 < number then Inl PortOutOfRange
                  else Inr (host, itoa number))"

definition loadConfig :: "(string \<Rightarrow> string) \<Rightarrow> config_error + config" where
  "loadConfig getenv =
     (let raw = envDefault getenv ''AUTO_FORWARD'' ''no'';
          level = envDefault getenv ''LOG_LEVEL'' ''warn'';
          cfg = (\<lambda>log. \<lparr>cf_autoForwardRaw = raw, cf_autoEnabled = False, cf_autoDNS = [],
                        cf_logLevel = level, cf_unboundLog = log\<rparr>);
          verbosity = (if level = ''debug'' then Some ''3'' else if level = ''info'' then Some ''2''
            else if level = ''warn'' then Some ''0'' else if level = ''error'' then Some ''0'' else None)
      in case verbosity of
           None \<Rightarrow> Inl BadLogLevel
         | Some log \<Rightarrow>
             if raw = ''no'' then Inr (cfg log)
             else (case parseForwardEndpoint raw of
                 Inl e \<Rightarrow> Inl e
               | Inr (host, port) \<Rightarrow>
                   Inr ((cfg log)\<lparr>cf_autoEnabled := True, cf_autoDNS := joinHostPort host port\<rparr>)))"

section \<open>Writing files\<close>

text \<open>\<open>os.WriteFile\<close> and \<open>os.Rename\<close>; a failing write leaves \<open>k\<close> bytes in the temporary file,
  which stays there. A file that exists keeps its mode.\<close>

record write_faults =
  wf_open :: "goerr option"
  wf_write :: "(nat \<times> goerr) option"
  wf_close :: "goerr option"
  wf_rename :: "goerr option"

definition tmp_of :: "string \<Rightarrow> string" where
  "tmp_of path = path @ ''.tmp''"

definition put :: "string \<Rightarrow> string \<Rightarrow> nat \<Rightarrow> fs \<Rightarrow> fs" where
  "put path data mode fs =
     fs(path \<mapsto> \<lparr>f_data = data, f_mode = (case fs path of Some f \<Rightarrow> f_mode f | None \<Rightarrow> mode)\<rparr>)"

definition writeFileAtomic :: "write_faults \<Rightarrow> string \<Rightarrow> string \<Rightarrow> nat \<Rightarrow> fs \<Rightarrow> goerr option \<times> fs" where
  "writeFileAtomic flt path data mode fs =
     (let tmp = tmp_of path
      in case wf_open flt of Some e \<Rightarrow> (Some e, fs)
      | None \<Rightarrow> (case wf_write flt of Some (k, e) \<Rightarrow> (Some e, put tmp (take k data) mode fs)
      | None \<Rightarrow> (case wf_close flt of Some e \<Rightarrow> (Some e, put tmp data mode fs)
      | None \<Rightarrow> (case wf_rename flt of Some e \<Rightarrow> (Some e, put tmp data mode fs)
      | None \<Rightarrow> (None, rename tmp path (put tmp data mode fs))))))"

definition copyFile ::
  "write_faults \<Rightarrow> (string \<Rightarrow> goerr option) \<Rightarrow> string \<Rightarrow> string \<Rightarrow> nat \<Rightarrow> fs \<Rightarrow> goerr option \<times> fs" where
  "copyFile flt readFault src dst mode fs =
     (case readFile readFault fs src of
        Inl NotExist \<Rightarrow> (Some (ErrNew ''file does not exist''), fs)
      | Inl (ReadFailed e) \<Rightarrow> (Some e, fs)
      | Inr data \<Rightarrow>
          let tmp = tmp_of dst
          in case wf_open flt of Some e \<Rightarrow> (Some e, fs)
          | None \<Rightarrow> (case wf_write flt of Some (k, e) \<Rightarrow> (Some e, remove tmp (put tmp (take k data) mode fs))
          | None \<Rightarrow> (case wf_close flt of Some e \<Rightarrow> (Some e, remove tmp (put tmp data mode fs))
          | None \<Rightarrow> (case wf_rename flt of Some e \<Rightarrow> (Some e, put tmp data mode fs)
          | None \<Rightarrow> (None, rename tmp dst (put tmp data mode fs))))))"

section \<open>The runtime directory\<close>

definition unboundRuntimeConfig :: string where "unboundRuntimeConfig = ''/run/veladns/unbound.conf''"
definition unboundRecursiveRuntimeConfig :: string where
  "unboundRecursiveRuntimeConfig = ''/run/veladns/unbound-recursive.conf''"
definition mosdnsRuntimeConfig :: string where "mosdnsRuntimeConfig = ''/run/veladns/mosdns.yaml''"
definition foreignRuntimeConfig :: string where "foreignRuntimeConfig = ''/run/veladns/foreign.yaml''"

definition domainListSpecs :: "string list" where
  "domainListSpecs = [''direct.txt'', ''proxy.txt'']"

datatype runtime_error =
    SystemError goerr
  | TemplateError read_error
  | UnresolvedPlaceholder string
  | NoTrustAnchor
  | BadAccount string
  | CheckFailed string goerr

text \<open>The outcome of every call outside the file system of the model, by its argument.\<close>

record runtime_calls =
  rc_mkdir :: "string \<Rightarrow> goerr option"
  rc_stat :: "string \<Rightarrow> goerr option"
  rc_read :: "string \<Rightarrow> goerr option"
  rc_write :: "string \<Rightarrow> write_faults"
  rc_account :: "goerr + string \<times> string"
  rc_chown :: "string \<Rightarrow> goerr option"
  rc_check :: "string \<Rightarrow> goerr option"

text \<open>Steps in sequence: the first error ends them.\<close>

fun steps :: "(fs \<Rightarrow> runtime_error option \<times> fs) list \<Rightarrow> fs \<Rightarrow> runtime_error option \<times> fs" where
  "steps [] fs = (None, fs)"
| "steps (f # rest) fs =
     (case f fs of (Some e, fs') \<Rightarrow> (Some e, fs') | (None, fs') \<Rightarrow> steps rest fs')"

definition system :: "goerr option \<times> fs \<Rightarrow> runtime_error option \<times> fs" where
  "system r = (map_option SystemError (fst r), snd r)"

definition prepareDomainList ::
  "runtime_calls \<Rightarrow> string \<Rightarrow> string \<Rightarrow> string \<Rightarrow> fs \<Rightarrow> runtime_error option \<times> fs" where
  "prepareDomainList calls dataPath defaultsPath name fs =
     (let dst = dataPath @ ''/'' @ name
      in case rc_stat calls dst of
           Some e \<Rightarrow> (Some (SystemError e), fs)
         | None \<Rightarrow>
             if fs dst \<noteq> None then (None, fs)
             else system (copyFile (rc_write calls dst) (rc_read calls) (defaultsPath @ ''/'' @ name) dst 420 fs))"

definition prepareDomainLists ::
  "runtime_calls \<Rightarrow> string \<Rightarrow> string \<Rightarrow> fs \<Rightarrow> runtime_error option \<times> fs" where
  "prepareDomainLists calls dataPath defaultsPath =
     steps (map (prepareDomainList calls dataPath defaultsPath) domainListSpecs)"

definition writeRendered :: "runtime_calls \<Rightarrow> string \<Rightarrow> string \<Rightarrow> fs \<Rightarrow> runtime_error option \<times> fs" where
  "writeRendered calls path content fs =
     (if contains content ''__'' then (Some (UnresolvedPlaceholder path), fs)
      else system (writeFileAtomic (rc_write calls path) path content 420 fs))"

text \<open>One template: read, substitute, write.\<close>

definition render ::
  "runtime_calls \<Rightarrow> string \<Rightarrow> (string \<Rightarrow> string) \<Rightarrow> string \<Rightarrow> fs \<Rightarrow> runtime_error option \<times> fs" where
  "render calls template substitute path fs =
     (case readFile (rc_read calls) fs template of
        Inl e \<Rightarrow> (Some (TemplateError e), fs)
      | Inr text \<Rightarrow> writeRendered calls path (substitute text) fs)"

definition rootKeyCandidates :: "string list" where
  "rootKeyCandidates =
     [''/usr/share/dnssec-root/trusted-key.key'', ''/usr/share/dnssec-root/root.key'', ''/etc/unbound/root.key'']"

definition installRootKey :: "runtime_calls \<Rightarrow> fs \<Rightarrow> runtime_error option \<times> fs" where
  "installRootKey calls fs =
     (case List.find (\<lambda>c. rc_stat calls c = None \<and>
             (case fs c of None \<Rightarrow> False | Some f \<Rightarrow> f_data f \<noteq> [])) rootKeyCandidates of
        None \<Rightarrow> (Some NoTrustAnchor, fs)
      | Some source \<Rightarrow>
          system (copyFile (rc_write calls ''/run/veladns/unbound/root.key'') (rc_read calls) source
            ''/run/veladns/unbound/root.key'' 420 fs))"

fun first_fault :: "('a \<Rightarrow> 'e option) \<Rightarrow> 'a list \<Rightarrow> 'e option" where
  "first_fault f [] = None"
| "first_fault f (x # xs) = (case f x of Some e \<Rightarrow> Some e | None \<Rightarrow> first_fault f xs)"

definition chownUnbound :: "runtime_calls \<Rightarrow> string list \<Rightarrow> runtime_error option" where
  "chownUnbound calls paths =
     (case rc_account calls of
        Inl e \<Rightarrow> Some (SystemError e)
      | Inr (uid, gid) \<Rightarrow>
          if atoi uid = None then Some (BadAccount uid)
          else if atoi gid = None then Some (BadAccount gid)
          else map_option SystemError (first_fault (rc_chown calls) paths))"

definition prepareRuntime :: "runtime_calls \<Rightarrow> config \<Rightarrow> fs \<Rightarrow> runtime_error option \<times> fs" where
  "prepareRuntime calls cfg = steps
     [\<lambda>fs. (map_option SystemError (first_fault (rc_mkdir calls)
        [''/run/veladns'', ''/run/veladns/unbound'', ''/run/veladns/unbound-recursive'', ''/data'']), fs),
      prepareDomainLists calls ''/data'' ''/etc/veladns/defaults'',
      installRootKey calls,
      \<lambda>fs. (chownUnbound calls [''/run/veladns/unbound'', ''/run/veladns/unbound/root.key'',
              ''/run/veladns/unbound-recursive''], fs),
      render calls ''/etc/veladns/unbound.conf.tmpl''
        (replaceAll ''__UNBOUND_VERBOSITY__'' (cf_unboundLog cfg)) unboundRuntimeConfig,
      render calls ''/etc/veladns/unbound-recursive.conf.tmpl''
        (replaceAll ''__UNBOUND_VERBOSITY__'' (cf_unboundLog cfg)) unboundRecursiveRuntimeConfig,
      render calls ''/etc/veladns/mosdns.yaml.tmpl''
        (replaceAll ''__LOG_LEVEL__'' (cf_logLevel cfg)) mosdnsRuntimeConfig,
      render calls (if cf_autoEnabled cfg then ''/etc/veladns/foreign-mihomo.yaml.tmpl''
                    else ''/etc/veladns/foreign-secure.yaml'')
        (if cf_autoEnabled cfg then replaceAll ''__AUTO_FORWARD_ENDPOINT__'' (cf_autoDNS cfg) else id)
        foreignRuntimeConfig,
      \<lambda>fs. (None, remove ''/run/veladns/unbound-recursive/unbound.pid'' (remove ''/run/veladns/unbound/unbound.pid'' fs)),
      \<lambda>fs. (first_fault (\<lambda>c. map_option (CheckFailed c) (rc_check calls c))
              [unboundRuntimeConfig, unboundRecursiveRuntimeConfig], fs)]"

end
