(* ===== verification/ConfigSafety.thy ===== *)
theory ConfigSafety
  imports Config
begin

text \<open>
  What the configuration code guarantees: the accepted endpoints and their normal form, the
  rendered files, the operator's lists; and the endpoint that is accepted but cannot be
  rendered.
\<close>

section \<open>The forward endpoint\<close>

lemma host_no_colon: "safeHost h \<Longrightarrow> CHR '':'' \<notin> set h"
  by (auto simp: safeHost_def list_all_iff host_byte_def is_digit_def)

lemma itoa_no_colon: "0 \<le> n \<Longrightarrow> CHR '':'' \<notin> set (itoa n)"
  by (simp add: itoa_def colon_notin_digits)

lemma no_colon_filter: "CHR '':'' \<notin> set s \<Longrightarrow> filter (\<lambda>c. c = CHR '':'') s = []"
  by (auto simp: filter_empty_conv)

lemma parse_host_port:
  assumes "safeHost h" and "CHR '':'' \<notin> set q" and "atoi q = Some n" and "1 \<le> n" and "n \<le> 65535"
  shows "parseForwardEndpoint (h @ CHR '':'' # q) = Inr (h, itoa n)"
  using assms host_no_colon [OF assms(1)]
  by (simp add: parseForwardEndpoint_def no_colon_filter cut_found safeHost_def)

lemma parse_accepted:
  assumes "parseForwardEndpoint v = Inr (h, p)"
  obtains n where "1 \<le> n" "n \<le> 65535" "p = itoa n" "safeHost h"
    "v = h \<and> n = 53 \<or> (\<exists>q. v = h @ CHR '':'' # q \<and> atoi q = Some n)"
proof -
  define colons where "colons = length (filter (\<lambda>c. c = CHR '':'') v)"
  obtain host port found where c: "cut v CHR '':'' = (host, port, found)" by (metis prod.exhaust)
  define hp where "hp = (if colons = 0 then (v, ''53'') else (host, port))"
  have eq: "parseForwardEndpoint v =
     (if 1 < colons then Inl TooManyColons
      else if fst hp = [] then Inl EmptyHost
      else if \<not> safeHost (fst hp) then Inl UnsafeHost
      else case atoi (snd hp) of None \<Rightarrow> Inl PortNotInteger
        | Some number \<Rightarrow> if number < 1 \<or> 65535 < number then Inl PortOutOfRange else Inr (fst hp, itoa number))"
    unfolding parseForwardEndpoint_def colons_def [symmetric] hp_def
    by (cases "colons = 0") (simp_all add: c split: option.split)
  with assms obtain n where n: "atoi (snd hp) = Some n" "1 \<le> n" "n \<le> 65535" "h = fst hp" "p = itoa n" "safeHost h"
    by (auto split: if_splits option.splits)
  have "v = h \<and> n = 53 \<or> (\<exists>q. v = h @ CHR '':'' # q \<and> atoi q = Some n)"
  proof (cases "colons = 0")
    case True
    have "atoi ''53'' = Some 53"
      using atoi_digits [of "''53''"] by (simp add: is_digit_def digits_val_def digit_val_def)
    with True n show ?thesis by (simp add: hp_def)
  next
    case False
    then have "CHR '':'' \<in> set v" by (auto simp: colons_def filter_empty_conv)
    then have found using c by (simp add: cut_def split: if_splits)
    with c have "v = host @ CHR '':'' # port" using cut_parts(1) by simp
    with False n show ?thesis by (simp add: hp_def)
  qed
  with n that show ?thesis by blast
qed

text \<open>C39. An accepted AUTO\_FORWARD value is a safe host with an optional port: the host is what
  stands before the colon, the port the number after it, 53 by default, between 1 and 65535,
  in canonical decimal form; and the address the program builds from it parses to itself.\<close>

theorem forward_endpoint_normal:
  "(case parseForwardEndpoint v of
      Inl e \<Rightarrow> True
    | Inr (h, p) \<Rightarrow>
        (\<exists>n. 1 \<le> n \<and> n \<le> 65535 \<and> p = itoa n \<and>
           (v = h \<and> n = 53 \<or> (\<exists>q. v = h @ CHR '':'' # q \<and> atoi q = Some n))) \<and>
        safeHost h \<and> joinHostPort h p = h @ CHR '':'' # p \<and>
        parseForwardEndpoint (joinHostPort h p) = Inr (h, p))"
proof (cases "parseForwardEndpoint v")
  case (Inr hp)
  obtain h p where hp: "hp = (h, p)" by fastforce
  from parse_accepted [OF Inr [unfolded hp]] obtain n where n: "1 \<le> n" "n \<le> 65535" "p = itoa n" "safeHost h"
    "v = h \<and> n = 53 \<or> (\<exists>q. v = h @ CHR '':'' # q \<and> atoi q = Some n)" .
  then have "parseForwardEndpoint (h @ CHR '':'' # p) = Inr (h, p)"
    using parse_host_port [of h "itoa n" n] atoi_itoa [of n] itoa_no_colon [of n] by simp
  moreover have "joinHostPort h p = h @ CHR '':'' # p"
    using host_no_colon [OF n(4)] by (simp add: joinHostPort_def)
  ultimately show ?thesis using n Inr hp by auto
qed simp

definition plain_config :: "(string \<Rightarrow> string) \<Rightarrow> string \<Rightarrow> config" where
  "plain_config getenv log =
     \<lparr>cf_autoForwardRaw = envDefault getenv ''AUTO_FORWARD'' ''no'', cf_autoEnabled = False, cf_autoDNS = [],
      cf_logLevel = envDefault getenv ''LOG_LEVEL'' ''warn'', cf_unboundLog = log\<rparr>"

definition log_levels :: "(string \<times> string) set" where
  "log_levels = {(''debug'', ''3''), (''info'', ''2''), (''warn'', ''0''), (''error'', ''0'')}"

lemma loadConfig_cases:
  assumes "loadConfig getenv = Inr cfg"
  obtains (disabled) log where "(cf_logLevel cfg, log) \<in> log_levels" "cfg = plain_config getenv log"
      "envDefault getenv ''AUTO_FORWARD'' ''no'' = ''no''"
  | (enabled) log h p where "(cf_logLevel cfg, log) \<in> log_levels"
      "cfg = (plain_config getenv log)\<lparr>cf_autoEnabled := True, cf_autoDNS := joinHostPort h p\<rparr>"
      "envDefault getenv ''AUTO_FORWARD'' ''no'' \<noteq> ''no''"
      "parseForwardEndpoint (envDefault getenv ''AUTO_FORWARD'' ''no'') = Inr (h, p)"
proof -
  define raw where "raw = envDefault getenv ''AUTO_FORWARD'' ''no''"
  define level where "level = envDefault getenv ''LOG_LEVEL'' ''warn''"
  define verbosity where "verbosity = (if level = ''debug'' then Some ''3'' else if level = ''info'' then Some ''2''
    else if level = ''warn'' then Some ''0'' else if level = ''error'' then Some ''0'' else None)"
  have eq: "loadConfig getenv = (case verbosity of None \<Rightarrow> Inl BadLogLevel
    | Some log \<Rightarrow> if raw = ''no'' then Inr (plain_config getenv log)
        else (case parseForwardEndpoint raw of Inl e \<Rightarrow> Inl e
          | Inr (host, port) \<Rightarrow> Inr ((plain_config getenv log)
              \<lparr>cf_autoEnabled := True, cf_autoDNS := joinHostPort host port\<rparr>)))"
    unfolding loadConfig_def Let_def plain_config_def raw_def level_def verbosity_def by (rule refl)
  with assms obtain log where v: "verbosity = Some log" by (cases verbosity) auto
  then have l: "(level, log) \<in> log_levels" by (auto simp: verbosity_def log_levels_def split: if_splits)
  show ?thesis
  proof (cases "raw = ''no''")
    case True
    with assms eq v have "cfg = plain_config getenv log" by simp
    with l True show ?thesis by (intro disabled) (simp_all add: plain_config_def level_def raw_def)
  next
    case False
    with assms eq v obtain h p where "parseForwardEndpoint raw = Inr (h, p)"
      "cfg = (plain_config getenv log)\<lparr>cf_autoEnabled := True, cf_autoDNS := joinHostPort h p\<rparr>"
      by (auto split: sum.splits)
    with l False show ?thesis by (intro enabled) (simp_all add: plain_config_def level_def raw_def)
  qed
qed

text \<open>A configuration that loads is consistent: the log level is one of the four, the
  verbosity of Unbound follows it (and no operational notice is logged at \<open>warn\<close> or
  \<open>error\<close>), and forwarding is enabled exactly when AUTO\_FORWARD is not \<open>no\<close>, then with an
  address made of a safe host and a port.\<close>

theorem config_valid:
  "(case loadConfig getenv of
      Inl e \<Rightarrow> True
    | Inr cfg \<Rightarrow>
        (cf_logLevel cfg, cf_unboundLog cfg) \<in> log_levels \<and>
        (cf_autoEnabled cfg \<longleftrightarrow> envDefault getenv ''AUTO_FORWARD'' ''no'' \<noteq> ''no'') \<and>
        (if cf_autoEnabled cfg
         then \<exists>h n. safeHost h \<and> 1 \<le> n \<and> n \<le> 65535 \<and> cf_autoDNS cfg = h @ CHR '':'' # itoa n
         else cf_autoDNS cfg = []))"
proof (cases "loadConfig getenv")
  case (Inr cfg)
  from Inr show ?thesis
  proof (cases rule: loadConfig_cases)
    case (disabled log)
    with Inr show ?thesis by (simp add: plain_config_def)
  next
    case (enabled log h p)
    from parse_accepted [OF enabled(4)] obtain n where n: "1 \<le> n" "n \<le> 65535" "p = itoa n" "safeHost h" .
    then have "joinHostPort h p = h @ CHR '':'' # itoa n"
      using host_no_colon [of h] by (simp add: joinHostPort_def)
    with enabled n Inr show ?thesis by (auto simp: plain_config_def)
  qed
qed simp

section \<open>Steps\<close>

definition preserves :: "(fs \<Rightarrow> bool) \<Rightarrow> (fs \<Rightarrow> runtime_error option \<times> fs) \<Rightarrow> bool" where
  "preserves Q f \<longleftrightarrow> (\<forall>fs. Q fs \<longrightarrow> Q (snd (f fs)))"

lemma preservesD: "preserves Q f \<Longrightarrow> Q s \<Longrightarrow> f s = (r, s') \<Longrightarrow> Q s'"
  unfolding preserves_def by (drule spec [of _ s]) simp

lemma list_all_tl_tl: "list_all P xs \<Longrightarrow> list_all P (tl (tl xs))"
  by (cases xs; cases "tl xs") auto

lemma steps_preserves: "list_all (preserves Q) fs \<Longrightarrow> preserves Q (steps fs)"
proof (induction fs)
  case (Cons f fs)
  show ?case unfolding preserves_def
  proof (intro allI impI)
    fix s
    assume "Q s"
    obtain r s1 where r: "f s = (r, s1)" by fastforce
    with Cons.prems \<open>Q s\<close> have "Q s1" by (auto simp: preserves_def)
    with Cons r show "Q (snd (steps (f # fs) s))" by (cases r) (auto simp: preserves_def)
  qed
qed (simp add: preserves_def)

lemma steps_append:
  "steps (fs @ gs) s = (case steps fs s of (Some e, s') \<Rightarrow> (Some e, s') | (None, s') \<Rightarrow> steps gs s')"
  by (induction fs arbitrary: s) (simp_all split: prod.split option.split)

lemma steps_success:
  assumes "steps (fs @ f # gs) s = (None, s')"
  obtains s1 s2 where "steps fs s = (None, s1)" "f s1 = (None, s2)" "steps gs s2 = (None, s')"
  using assms by (auto simp: steps_append split: prod.splits option.splits)

lemma writeFileAtomic_other: "p \<noteq> path \<Longrightarrow> p \<noteq> tmp_of path \<Longrightarrow> snd (writeFileAtomic flt path data mode fs) p = fs p"
  by (simp add: writeFileAtomic_def put_def rename_def Let_def split: option.split prod.split)

lemma copyFile_other: "p \<noteq> dst \<Longrightarrow> p \<noteq> tmp_of dst \<Longrightarrow> snd (copyFile flt rf src dst mode fs) p = fs p"
  by (simp add: copyFile_def put_def rename_def Let_def split: option.split prod.split sum.split read_error.split)

lemma tmp_of_neq [simp]: "tmp_of p \<noteq> p" "p \<noteq> tmp_of p"
  by (simp_all add: tmp_of_def)

interpretation cw: atomic_writer "\<lambda>flt path data. writeFileAtomic flt path data 420" "\<lambda>flt path. tmp_of path"
  by unfold_locales
    (auto simp: writeFileAtomic_def atomic_write_def put_def rename_def Let_def split: option.splits prod.splits)

lemma writeFileAtomic_ok:
  "writeFileAtomic flt path data 420 fs = (None, fs') \<Longrightarrow> map_option f_data (fs' path) = Some data"
  by (rule cw.ok) simp_all

text \<open>The state of one path is kept by every step that does not write it.\<close>

abbreviation holds_at :: "string \<Rightarrow> regfile option \<Rightarrow> fs \<Rightarrow> bool" where
  "holds_at p v \<equiv> \<lambda>fs. fs p = v"

lemma preserves_pure: "preserves Q (\<lambda>fs. (r, fs))"
  by (simp add: preserves_def)

lemma preserves_render:
  "p \<noteq> path \<Longrightarrow> p \<noteq> tmp_of path \<Longrightarrow> preserves (holds_at p v) (render calls template substitute path)"
  by (auto simp: preserves_def render_def writeRendered_def system_def writeFileAtomic_other split: sum.split)

lemma preserves_rootKey:
  "p \<noteq> ''/run/veladns/unbound/root.key'' \<Longrightarrow> p \<noteq> tmp_of ''/run/veladns/unbound/root.key'' \<Longrightarrow>
   preserves (holds_at p v) (installRootKey calls)"
  by (auto simp: preserves_def installRootKey_def system_def copyFile_other split: option.split)

lemma preserves_remove:
  "p \<noteq> a \<Longrightarrow> p \<noteq> b \<Longrightarrow> preserves (holds_at p v) (\<lambda>fs. (r, remove a (remove b fs)))"
  by (simp add: preserves_def)

lemma preserves_domainList:
  "p \<noteq> tmp_of (dataPath @ ''/'' @ name) \<Longrightarrow> p \<noteq> dataPath @ ''/'' @ name \<or> v \<noteq> None \<Longrightarrow>
   preserves (holds_at p v) (prepareDomainList calls dataPath defaultsPath name)"
  unfolding preserves_def
proof (intro allI impI)
  fix fs
  assume p: "p \<noteq> tmp_of (dataPath @ ''/'' @ name)" "p \<noteq> dataPath @ ''/'' @ name \<or> v \<noteq> None" "fs p = v"
  show "snd (prepareDomainList calls dataPath defaultsPath name fs) p = v"
  proof (cases "fs (dataPath @ ''/'' @ name)")
    case None
    with p have "p \<noteq> dataPath @ ''/'' @ name" by auto
    with p show ?thesis
      by (simp add: prepareDomainList_def system_def copyFile_other Let_def split: option.split)
  qed (use p in \<open>simp add: prepareDomainList_def Let_def split: option.split\<close>)
qed

lemma preserves_domainLists:
  "p \<notin> (\<lambda>n. tmp_of (dataPath @ ''/'' @ n)) ` set domainListSpecs \<Longrightarrow>
   p \<notin> (\<lambda>n. dataPath @ ''/'' @ n) ` set domainListSpecs \<or> v \<noteq> None \<Longrightarrow>
   preserves (holds_at p v) (prepareDomainLists calls dataPath defaultsPath)"
  unfolding prepareDomainLists_def
  by (rule steps_preserves) (auto simp: list_all_iff intro!: preserves_domainList)

section \<open>The runtime directory\<close>

text \<open>The four rendered files: target, template, substitution.\<close>

definition rendered_files :: "config \<Rightarrow> (string \<times> string \<times> (string \<Rightarrow> string)) list" where
  "rendered_files cfg =
     [(unboundRuntimeConfig, ''/etc/veladns/unbound.conf.tmpl'',
         replaceAll ''__UNBOUND_VERBOSITY__'' (cf_unboundLog cfg)),
      (unboundRecursiveRuntimeConfig, ''/etc/veladns/unbound-recursive.conf.tmpl'',
         replaceAll ''__UNBOUND_VERBOSITY__'' (cf_unboundLog cfg)),
      (mosdnsRuntimeConfig, ''/etc/veladns/mosdns.yaml.tmpl'',
         replaceAll ''__LOG_LEVEL__'' (cf_logLevel cfg)),
      (foreignRuntimeConfig, (if cf_autoEnabled cfg then ''/etc/veladns/foreign-mihomo.yaml.tmpl''
                    else ''/etc/veladns/foreign-secure.yaml''),
         (if cf_autoEnabled cfg then replaceAll ''__AUTO_FORWARD_ENDPOINT__'' (cf_autoDNS cfg) else id))]"

lemmas runtime_paths = unboundRuntimeConfig_def unboundRecursiveRuntimeConfig_def mosdnsRuntimeConfig_def
  foreignRuntimeConfig_def tmp_of_def

definition render_steps :: "runtime_calls \<Rightarrow> config \<Rightarrow> (fs \<Rightarrow> runtime_error option \<times> fs) list" where
  "render_steps calls cfg = map (\<lambda>(path, template, subst). render calls template subst path) (rendered_files cfg)"

definition before_render :: "runtime_calls \<Rightarrow> (fs \<Rightarrow> runtime_error option \<times> fs) list" where
  "before_render calls =
     [\<lambda>fs. (map_option SystemError (first_fault (rc_mkdir calls)
        [''/run/veladns'', ''/run/veladns/unbound'', ''/run/veladns/unbound-recursive'', ''/data'']), fs),
      prepareDomainLists calls ''/data'' ''/etc/veladns/defaults'',
      installRootKey calls,
      \<lambda>fs. (chownUnbound calls [''/run/veladns/unbound'', ''/run/veladns/unbound/root.key'',
              ''/run/veladns/unbound-recursive''], fs)]"

definition after_render :: "runtime_calls \<Rightarrow> (fs \<Rightarrow> runtime_error option \<times> fs) list" where
  "after_render calls =
     [\<lambda>fs. (None, remove ''/run/veladns/unbound-recursive/unbound.pid'' (remove ''/run/veladns/unbound/unbound.pid'' fs)),
      \<lambda>fs. (first_fault (\<lambda>c. map_option (CheckFailed c) (rc_check calls c))
              [unboundRuntimeConfig, unboundRecursiveRuntimeConfig], fs)]"

lemma prepareRuntime_parts:
  "prepareRuntime calls cfg = steps (before_render calls @ render_steps calls cfg @ after_render calls)"
  by (simp add: prepareRuntime_def before_render_def render_steps_def after_render_def rendered_files_def)

text \<open>Paths the first and the last steps leave alone.\<close>

definition outside :: "string \<Rightarrow> bool" where
  "outside p \<longleftrightarrow> p \<notin> {''/run/veladns/unbound/root.key'', ''/run/veladns/unbound/root.key.tmp'',
     ''/data/direct.txt.tmp'', ''/data/proxy.txt.tmp'', ''/run/veladns/unbound/unbound.pid'',
     ''/run/veladns/unbound-recursive/unbound.pid''}"

lemma before_keeps:
  assumes "outside p" and "p \<notin> {''/data/direct.txt'', ''/data/proxy.txt''} \<or> v \<noteq> None"
  shows "list_all (preserves (holds_at p v)) (before_render calls)"
proof -
  have "preserves (holds_at p v) (prepareDomainLists calls ''/data'' ''/etc/veladns/defaults'')"
    using assms by (intro preserves_domainLists) (auto simp: outside_def domainListSpecs_def tmp_of_def)
  moreover have "preserves (holds_at p v) (installRootKey calls)"
    using assms by (intro preserves_rootKey) (auto simp: outside_def tmp_of_def)
  ultimately show ?thesis by (simp add: before_render_def preserves_pure)
qed

lemma render_keeps:
  assumes "\<forall>(path, template, subst)\<in>set files. p \<noteq> path \<and> p \<noteq> tmp_of path"
  shows "list_all (preserves (holds_at p v)) (map (\<lambda>(path, template, subst). render calls template subst path) files)"
  using assms by (auto simp: list_all_iff intro!: preserves_render)

lemma after_keeps: "outside p \<Longrightarrow> list_all (preserves (holds_at p v)) (after_render calls)"
  by (simp add: after_render_def preserves_pure preserves_remove outside_def)

text \<open>One rendered file among the others: it is rendered from the template as it was at first,
  and stays as it was written.\<close>

lemma rendered_one:
  assumes run: "prepareRuntime calls cfg fs = (None, fs')"
    and files: "rendered_files cfg = xs @ (path, template, subst) # ys"
    and target: "outside path" "\<forall>(q, u, f)\<in>set ys. path \<noteq> q \<and> path \<noteq> tmp_of q"
    and source: "outside template" "template \<notin> {''/data/direct.txt'', ''/data/proxy.txt''}"
      "\<forall>(q, u, f)\<in>set xs. template \<noteq> q \<and> template \<noteq> tmp_of q"
  shows "\<exists>t. map_option f_data (fs template) = Some t \<and> map_option f_data (fs' path) = Some (subst t) \<and>
    \<not> contains (subst t) ''__''"
proof -
  define before where "before = before_render calls @ map (\<lambda>(path, template, subst). render calls template subst path) xs"
  define after where "after = map (\<lambda>(path, template, subst). render calls template subst path) ys @ after_render calls"
  have "steps (before @ render calls template subst path # after) fs = (None, fs')"
    using run files by (simp add: prepareRuntime_parts render_steps_def before_def after_def)
  then obtain s1 s2 where s: "steps before fs = (None, s1)" "render calls template subst path s1 = (None, s2)"
    "steps after s2 = (None, fs')" by (rule steps_success)
  have "preserves (holds_at template (fs template)) (steps before)"
    unfolding before_def using source by (intro steps_preserves) (simp add: before_keeps render_keeps)
  then have "snd (steps before fs) template = fs template" unfolding preserves_def by blast
  with s have s1: "s1 template = fs template" by simp
  have "preserves (holds_at path (s2 path)) (steps after)"
    unfolding after_def using target by (intro steps_preserves) (simp add: after_keeps render_keeps)
  then have "snd (steps after s2) path = s2 path" unfolding preserves_def by blast
  with s have s2: "fs' path = s2 path" by simp
  from s(2) obtain t where t: "readFile (rc_read calls) s1 template = Inr t" "\<not> contains (subst t) ''__''"
    "writeFileAtomic (rc_write calls path) path (subst t) 420 s1 = (None, s2)"
    by (auto simp: render_def writeRendered_def system_def prod_eq_iff split: sum.splits if_splits)
  then have "map_option f_data (fs template) = Some t"
    using s1 by (auto simp: readFile_def split: option.splits)
  with t s2 writeFileAtomic_ok [OF t(3)] show ?thesis by (intro exI [of _ t]) auto
qed

lemma rendered_all:
  assumes "prepareRuntime calls cfg fs = (None, fs')"
  shows "list_all (\<lambda>(path, template, subst). \<exists>t. map_option f_data (fs template) = Some t \<and>
    map_option f_data (fs' path) = Some (subst t) \<and> \<not> contains (subst t) ''__'') (rendered_files cfg)"
proof -
  obtain a b c d where files: "rendered_files cfg = [a, b, c, d]" by (simp add: rendered_files_def)
  have all: "list_all (\<lambda>x. outside (fst x) \<and> outside (fst (snd x)) \<and>
      fst (snd x) \<notin> {''/data/direct.txt'', ''/data/proxy.txt''} \<and>
      list_all (\<lambda>y. fst (snd x) \<noteq> fst y \<and> fst (snd x) \<noteq> tmp_of (fst y) \<and>
         (fst x \<noteq> fst y \<longrightarrow> fst x \<noteq> tmp_of (fst y))) (rendered_files cfg)) (rendered_files cfg)"
    by (cases "cf_autoEnabled cfg") (simp_all add: rendered_files_def outside_def runtime_paths)
  have ok: "outside (fst x) \<and> outside (fst (snd x)) \<and> fst (snd x) \<notin> {''/data/direct.txt'', ''/data/proxy.txt''} \<and>
      (\<forall>y\<in>{a, b, c, d}. fst (snd x) \<noteq> fst y \<and> fst (snd x) \<noteq> tmp_of (fst y) \<and>
         (fst x \<noteq> fst y \<longrightarrow> fst x \<noteq> tmp_of (fst y)))" if "x \<in> {a, b, c, d}" for x
    using all that unfolding files list_all_iff list.set by blast
  have dist: "distinct (map fst [a, b, c, d])"
    unfolding files [symmetric] by (simp add: rendered_files_def runtime_paths)
  have one: "case x of (path, template, subst) \<Rightarrow> \<exists>t. map_option f_data (fs template) = Some t \<and>
      map_option f_data (fs' path) = Some (subst t) \<and> \<not> contains (subst t) ''__''"
    if split: "rendered_files cfg = xs @ x # ys" for x xs ys
  proof -
    obtain path template subst where x: "x = (path, template, subst)" by (metis prod.exhaust)
    have mem: "x \<in> {a, b, c, d}" "set xs \<subseteq> {a, b, c, d}" "set ys \<subseteq> {a, b, c, d}"
      using arg_cong [OF split, of set] files by auto
    have "fst x \<notin> fst ` set ys"
      using dist split files by (metis distinct.simps(2) distinct_append list.set_map list.simps(9) map_append)
    then have "\<forall>y\<in>set ys. fst x \<noteq> fst y" by auto
    note ok = ok [OF mem(1), unfolded x fst_conv snd_conv]
    have ys: "\<forall>(q, u, f)\<in>set ys. path \<noteq> q \<and> path \<noteq> tmp_of q"
    proof (clarify, intro conjI)
      fix q u f
      assume y: "(q, u, f) \<in> set ys"
      then show "path \<noteq> q" using \<open>\<forall>y\<in>set ys. fst x \<noteq> fst y\<close> x by force
      then show "path \<noteq> tmp_of q" using ok y mem(3) by force
    qed
    have xs: "\<forall>(q, u, f)\<in>set xs. template \<noteq> q \<and> template \<noteq> tmp_of q"
      using ok mem(2) by force
    show ?thesis unfolding x prod.case
      using ok ys xs by (intro rendered_one [OF assms split [unfolded x]]) blast+
  qed
  show ?thesis unfolding files
    using one [of "[]" a "[b, c, d]"] one [of "[a]" b "[c, d]"] one [of "[a, b]" c "[d]"] one [of "[a, b, c]" d "[]"] files
    by simp
qed

text \<open>When the runtime directory was prepared, each of the four runtime configurations holds
  exactly its template with the configured values substituted, and no placeholder is left in
  any of them.\<close>

theorem runtime_rendered:
  assumes "prepareRuntime calls cfg fs = (None, fs')"
  shows "list_all (\<lambda>(path, template, subst). \<exists>t. map_option f_data (fs template) = Some t \<and>
    map_option f_data (fs' path) = Some (subst t) \<and> \<not> contains (subst t) ''__'') (rendered_files cfg)"
  by (rule rendered_all [OF assms])

text \<open>Inputs of the witnesses: calls without faults and a small set of templates.\<close>

definition no_write_faults :: write_faults where
  "no_write_faults = \<lparr>wf_open = None, wf_write = None, wf_close = None, wf_rename = None\<rparr>"

definition sample_calls :: runtime_calls where
  "sample_calls = \<lparr>rc_mkdir = (\<lambda>_. None), rc_stat = (\<lambda>_. None), rc_read = (\<lambda>_. None),
     rc_write = (\<lambda>_. no_write_faults), rc_account = Inr (''100'', ''101''), rc_chown = (\<lambda>_. None),
     rc_check = (\<lambda>_. None)\<rparr>"

definition sample_fs :: fs where
  "sample_fs = map_of (map (\<lambda>(p, t). (p, \<lparr>f_data = t, f_mode = 420\<rparr>))
     [(''/data/direct.txt'', ''full:a.example''), (''/data/proxy.txt'', []), (''/etc/unbound/root.key'', ''.''),
      (''/etc/veladns/unbound.conf.tmpl'', ''__UNBOUND_VERBOSITY__''),
      (''/etc/veladns/unbound-recursive.conf.tmpl'', ''__UNBOUND_VERBOSITY__''),
      (''/etc/veladns/mosdns.yaml.tmpl'', ''__LOG_LEVEL__''), (''/etc/veladns/foreign-secure.yaml'', ''plugins:'')])"

lemma replace_whole: "old \<noteq> [] \<Longrightarrow> replaceAll old new old = new"
  using replaceAll_hit [of old new "[]"] by (simp add: replaceAll.simps [of old new "[]"])

lemma sample_account: "atoi ''100'' = Some 100" "atoi ''101'' = Some 101"
  using atoi_digits [of "''100''"] atoi_digits [of "''101''"]
  by (simp_all add: is_digit_def digits_val_def digit_val_def)

lemma render_sample:
  "render sample_calls template subst path fs =
     (case fs template of
        None \<Rightarrow> (Some (TemplateError NotExist), fs)
      | Some f \<Rightarrow>
          if contains (subst (f_data f)) ''__'' then (Some (UnresolvedPlaceholder path), fs)
          else (None, rename (tmp_of path) path (put (tmp_of path) (subst (f_data f)) 420 fs)))"
  by (simp add: render_def readFile_def sample_calls_def writeRendered_def system_def writeFileAtomic_def
      no_write_faults_def Let_def split: option.split)

lemma sample_lookup:
  "sample_fs ''/data/direct.txt'' = Some \<lparr>f_data = ''full:a.example'', f_mode = 420\<rparr>"
  "sample_fs ''/data/proxy.txt'' = Some \<lparr>f_data = [], f_mode = 420\<rparr>"
  "sample_fs ''/usr/share/dnssec-root/trusted-key.key'' = None"
  "sample_fs ''/usr/share/dnssec-root/root.key'' = None"
  "sample_fs ''/etc/unbound/root.key'' = Some \<lparr>f_data = ''.'', f_mode = 420\<rparr>"
  "sample_fs ''/etc/veladns/unbound.conf.tmpl'' = Some \<lparr>f_data = ''__UNBOUND_VERBOSITY__'', f_mode = 420\<rparr>"
  "sample_fs ''/etc/veladns/unbound-recursive.conf.tmpl'' = Some \<lparr>f_data = ''__UNBOUND_VERBOSITY__'', f_mode = 420\<rparr>"
  "sample_fs ''/etc/veladns/mosdns.yaml.tmpl'' = Some \<lparr>f_data = ''__LOG_LEVEL__'', f_mode = 420\<rparr>"
  "sample_fs ''/etc/veladns/foreign-secure.yaml'' = Some \<lparr>f_data = ''plugins:'', f_mode = 420\<rparr>"
  by (simp_all add: sample_fs_def)

definition sample_config :: config where
  "sample_config = \<lparr>cf_autoForwardRaw = ''no'', cf_autoEnabled = False, cf_autoDNS = [],
     cf_logLevel = ''warn'', cf_unboundLog = ''0''\<rparr>"

lemma sample_before: "steps (before_render sample_calls) sample_fs =
  (None, rename ''/run/veladns/unbound/root.key.tmp'' ''/run/veladns/unbound/root.key''
     (put ''/run/veladns/unbound/root.key.tmp'' ''.'' 420 sample_fs))"
  by (simp add: before_render_def sample_calls_def prepareDomainLists_def prepareDomainList_def domainListSpecs_def
      installRootKey_def rootKeyCandidates_def copyFile_def readFile_def no_write_faults_def system_def
      chownUnbound_def sample_account tmp_of_def sample_lookup Let_def)

lemma render_step:
  assumes "fs template = Some f" and "\<not> contains (subst (f_data f)) ''__''"
  shows "\<exists>fs'. render sample_calls template subst path fs = (None, fs') \<and>
    (\<forall>p. p \<noteq> path \<and> p \<noteq> tmp_of path \<longrightarrow> fs' p = fs p)"
  using assms by (simp add: render_sample rename_def put_def)

definition template_ok ::
  "string list \<Rightarrow> fs \<Rightarrow> string \<times> string \<times> (string \<Rightarrow> string) \<Rightarrow> bool" where
  "template_ok targets fs x \<longleftrightarrow> fst (snd x) \<notin> set targets \<and> fst (snd x) \<notin> set (map tmp_of targets) \<and>
     (case fs (fst (snd x)) of None \<Rightarrow> False | Some f \<Rightarrow> \<not> contains (snd (snd x) (f_data f)) ''__'')"

lemma template_ok_other:
  "template_ok targets fs y \<Longrightarrow> path \<in> set targets \<Longrightarrow> \<forall>p. p \<noteq> path \<and> p \<noteq> tmp_of path \<longrightarrow> fs' p = fs p \<Longrightarrow>
   template_ok targets fs' y"
proof -
  assume y: "template_ok targets fs y" and "path \<in> set targets"
    and same: "\<forall>p. p \<noteq> path \<and> p \<noteq> tmp_of path \<longrightarrow> fs' p = fs p"
  then have "fst (snd y) \<noteq> path" "fst (snd y) \<noteq> tmp_of path" by (auto simp: template_ok_def)
  with same have "fs' (fst (snd y)) = fs (fst (snd y))" by blast
  with y show ?thesis by (simp add: template_ok_def)
qed

lemma render_sample_files:
  "list_all (template_ok targets fs) ys \<Longrightarrow> set (map fst ys) \<subseteq> set targets \<Longrightarrow>
   \<exists>fs'. steps (map (\<lambda>(path, template, subst). render sample_calls template subst path) ys) fs = (None, fs')"
proof (induction ys arbitrary: fs)
  case (Cons x ys)
  obtain path template subst where x: "x = (path, template, subst)" by (metis prod.exhaust)
  with Cons.prems obtain f where f: "fs template = Some f" "\<not> contains (subst (f_data f)) ''__''"
    by (auto simp: template_ok_def split: option.splits)
  from render_step [where fs = fs and template = template and f = f and subst = subst and path = path, OF f]
  obtain fs' where fs': "render sample_calls template subst path fs = (None, fs')"
    "\<forall>p. p \<noteq> path \<and> p \<noteq> tmp_of path \<longrightarrow> fs' p = fs p" by blast
  have "path \<in> set targets" using Cons.prems(2) x by simp
  with Cons.prems(1) template_ok_other [OF _ _ fs'(2)] have "list_all (template_ok targets fs') ys"
    by (simp add: list_all_iff)
  with Cons.IH [of fs'] Cons.prems(2) x fs'(1) show ?case by simp
qed simp

lemma sample_prepared: "fst (prepareRuntime sample_calls sample_config sample_fs) = None"
proof -
  let ?fs = "rename ''/run/veladns/unbound/root.key.tmp'' ''/run/veladns/unbound/root.key''
     (put ''/run/veladns/unbound/root.key.tmp'' ''.'' 420 sample_fs)"
  have "list_all (template_ok (map fst (rendered_files sample_config)) ?fs) (rendered_files sample_config)"
    by (simp add: template_ok_def rendered_files_def runtime_paths sample_config_def rename_def put_def
        sample_lookup replace_whole sublist_code)
  from render_sample_files [OF this] obtain fs' where
    r: "steps (render_steps sample_calls sample_config) ?fs = (None, fs')" by (auto simp: render_steps_def)
  have checks: "rc_check sample_calls c = None" for c by (simp add: sample_calls_def)
  show ?thesis
    unfolding prepareRuntime_parts steps_append sample_before prod.case option.case r
    by (simp add: after_render_def checks)
qed

theorem runtime_rendered_witness:
  "\<exists>fs'. prepareRuntime sample_calls sample_config sample_fs = (None, fs') \<and>
     map_option f_data (fs' mosdnsRuntimeConfig) = Some ''warn''"
proof -
  obtain fs' where run: "prepareRuntime sample_calls sample_config sample_fs = (None, fs')"
    using sample_prepared by (metis prod.exhaust fst_conv)
  from runtime_rendered [OF run] have "map_option f_data (fs' mosdnsRuntimeConfig) = Some ''warn''"
    by (simp add: rendered_files_def sample_config_def sample_lookup replace_whole)
  with run show ?thesis by blast
qed

lemma list_kept:
  assumes "name \<in> {''direct.txt'', ''proxy.txt''}"
  shows "preserves (holds_at (''/data/'' @ name) (Some f)) (prepareRuntime calls cfg)"
proof -
  let ?p = "''/data/'' @ name"
  have "outside ?p" using assms by (auto simp: outside_def)
  moreover have "\<forall>(path, template, subst)\<in>set (rendered_files cfg). ?p \<noteq> path \<and> ?p \<noteq> tmp_of path"
    using assms by (auto simp: rendered_files_def runtime_paths)
  ultimately show ?thesis
    unfolding prepareRuntime_parts render_steps_def
    by (intro steps_preserves) (simp add: before_keeps after_keeps render_keeps)
qed

lemma copyFile_made: "copyFile flt rf src dst mode fs = (None, fs') \<Longrightarrow> fs' dst \<noteq> None"
  by (auto simp: copyFile_def put_def rename_def Let_def split: option.splits prod.splits sum.splits read_error.splits)

lemma domainList_made:
  assumes "prepareDomainList calls dataPath defaultsPath name fs = (None, fs')"
  shows "fs' (dataPath @ ''/'' @ name) \<noteq> None"
proof (cases "fs (dataPath @ ''/'' @ name)")
  case None
  define r where "r = copyFile (rc_write calls (dataPath @ ''/'' @ name)) (rc_read calls)
    (defaultsPath @ ''/'' @ name) (dataPath @ ''/'' @ name) 420 fs"
  from assms None have "system r = (None, fs')"
    by (simp add: prepareDomainList_def Let_def r_def split: option.splits)
  then have "r = (None, fs')" by (simp add: system_def prod_eq_iff)
  with copyFile_made show ?thesis unfolding r_def by blast
next
  case (Some f)
  with assms have "fs' = fs" by (simp add: prepareDomainList_def Let_def split: option.splits)
  with Some show ?thesis by simp
qed

lemma domainLists_made:
  assumes "prepareDomainLists calls ''/data'' defaultsPath fs = (None, fs')"
  shows "fs' ''/data/direct.txt'' \<noteq> None \<and> fs' ''/data/proxy.txt'' \<noteq> None"
proof -
  obtain fs1 where one: "prepareDomainList calls ''/data'' defaultsPath ''direct.txt'' fs = (None, fs1)"
    and two: "prepareDomainList calls ''/data'' defaultsPath ''proxy.txt'' fs1 = (None, fs')"
    using assms by (auto simp: prepareDomainLists_def domainListSpecs_def split: prod.splits option.splits)
  obtain f where f: "fs1 ''/data/direct.txt'' = Some f" using domainList_made [OF one] by auto
  have "preserves (holds_at ''/data/direct.txt'' (Some f)) (prepareDomainList calls ''/data'' defaultsPath ''proxy.txt'')"
    by (rule preserves_domainList) (simp_all add: tmp_of_def)
  from preservesD [OF this f two] have "fs' ''/data/direct.txt'' = Some f" .
  with domainList_made [OF two] show ?thesis by simp
qed

text \<open>C38. Preparing the runtime never touches the operator's rules: a list that is there keeps its
  content whatever happens, and when it succeeds both lists are there.\<close>

theorem operator_lists_kept:
  "(\<forall>name\<in>{''direct.txt'', ''proxy.txt''}. \<forall>f. fs (''/data/'' @ name) = Some f \<longrightarrow>
      snd (prepareRuntime calls cfg fs) (''/data/'' @ name) = Some f) \<and>
   (fst (prepareRuntime calls cfg fs) = None \<longrightarrow>
      (\<forall>name\<in>{''direct.txt'', ''proxy.txt''}. snd (prepareRuntime calls cfg fs) (''/data/'' @ name) \<noteq> None))"
proof (intro conjI ballI allI impI)
  fix name f
  assume "name \<in> {''direct.txt'', ''proxy.txt''}" and "fs (''/data/'' @ name) = Some f"
  then show "snd (prepareRuntime calls cfg fs) (''/data/'' @ name) = Some f"
    using list_kept [of name f calls cfg] unfolding preserves_def by blast
next
  fix name
  assume ok: "fst (prepareRuntime calls cfg fs) = None" and name: "name \<in> {''direct.txt'', ''proxy.txt''}"
  define rest where "rest = tl (tl (before_render calls)) @ render_steps calls cfg @ after_render calls"
  obtain fs' where "prepareRuntime calls cfg fs = (None, fs')" using ok by (metis prod.collapse)
  then have "steps ([hd (before_render calls)] @ prepareDomainLists calls ''/data'' ''/etc/veladns/defaults'' # rest) fs = (None, fs')"
    by (simp only: prepareRuntime_parts before_render_def rest_def list.sel append_Cons append_Nil append_assoc)
  then obtain s1 s2 where s: "prepareDomainLists calls ''/data'' ''/etc/veladns/defaults'' s1 = (None, s2)"
    "steps rest s2 = (None, fs')" by (rule steps_success)
  from domainLists_made [OF s(1)] name obtain f where f: "s2 (''/data/'' @ name) = Some f" by auto
  let ?p = "''/data/'' @ name"
  have "outside ?p" "\<forall>(path, template, subst)\<in>set (rendered_files cfg). ?p \<noteq> path \<and> ?p \<noteq> tmp_of path"
    using name by (auto simp: outside_def rendered_files_def runtime_paths)
  then have "preserves (holds_at ?p (Some f)) (steps rest)"
    using list_all_tl_tl [OF before_keeps [of ?p "Some f" calls]] unfolding rest_def render_steps_def
    by (intro steps_preserves) (simp add: after_keeps render_keeps)
  from preservesD [OF this f s(2)] have "fs' ?p = Some f" .
  then show "snd (prepareRuntime calls cfg fs) ?p \<noteq> None"
    using \<open>prepareRuntime calls cfg fs = (None, fs')\<close> by simp
qed

theorem operator_lists_kept_witness:
  "snd (prepareRuntime sample_calls sample_config sample_fs) ''/data/direct.txt'' =
     Some \<lparr>f_data = ''full:a.example'', f_mode = 420\<rparr>"
  using operator_lists_kept [of sample_fs sample_calls sample_config] by (simp add: sample_lookup)

text \<open>C40. A safe host may contain two underscores in a row; such an AUTO\_FORWARD is accepted when
  the configuration loads, but the runtime can never be prepared with it: the rendered
  configuration that contains the address looks like one with a placeholder left.\<close>

theorem underscore_host_never_starts:
  assumes "loadConfig getenv = Inr cfg" and "cf_autoEnabled cfg" and "contains (cf_autoDNS cfg) ''__''"
    and "map_option f_data (fs ''/etc/veladns/foreign-mihomo.yaml.tmpl'') = Some t"
    and "contains t ''__AUTO_FORWARD_ENDPOINT__''"
  shows "fst (prepareRuntime calls cfg fs) \<noteq> None"
proof
  assume "fst (prepareRuntime calls cfg fs) = None"
  then obtain fs' where run: "prepareRuntime calls cfg fs = (None, fs')" by (metis prod.collapse)
  have mem: "(foreignRuntimeConfig, ''/etc/veladns/foreign-mihomo.yaml.tmpl'',
      replaceAll ''__AUTO_FORWARD_ENDPOINT__'' (cf_autoDNS cfg)) \<in> set (rendered_files cfg)"
    using assms(2) by (simp add: rendered_files_def)
  obtain xs ys where "rendered_files cfg = xs @ (foreignRuntimeConfig, ''/etc/veladns/foreign-mihomo.yaml.tmpl'',
      replaceAll ''__AUTO_FORWARD_ENDPOINT__'' (cf_autoDNS cfg)) # ys"
    using split_list [OF mem] by blast
  with rendered_all [OF run] assms(4) have
    "\<not> contains (replaceAll ''__AUTO_FORWARD_ENDPOINT__'' (cf_autoDNS cfg) t) ''__''" by auto
  moreover have "contains (replaceAll ''__AUTO_FORWARD_ENDPOINT__'' (cf_autoDNS cfg) t) (cf_autoDNS cfg)"
    by (rule contains_replaceAll [OF _ assms(5)]) simp
  ultimately show False using assms(3) sublist_order.order.trans by blast
qed

definition underscore_env :: "string \<Rightarrow> string" where
  "underscore_env name = (if name = ''AUTO_FORWARD'' then ''mihomo__lan'' else [])"

lemma underscore_loads:
  "loadConfig underscore_env = Inr \<lparr>cf_autoForwardRaw = ''mihomo__lan'', cf_autoEnabled = True,
     cf_autoDNS = ''mihomo__lan:53'', cf_logLevel = ''warn'', cf_unboundLog = ''0''\<rparr>"
proof -
  have "atoi ''53'' = Some 53"
    using atoi_digits [of "''53''"] by (simp add: is_digit_def digits_val_def digit_val_def)
  then have "parseForwardEndpoint ''mihomo__lan'' = Inr (''mihomo__lan'', itoa 53)"
    by (simp add: parseForwardEndpoint_def safeHost_def host_byte_def)
  moreover have "itoa 53 = ''53''" by (simp add: itoa_def digits.simps digit_char_def char_of_def bit_Suc_0_iff)
  ultimately show ?thesis
    by (simp add: loadConfig_def envDefault_def underscore_env_def joinHostPort_def Let_def)
qed

theorem underscore_host_never_starts_witness:
  "fst (prepareRuntime sample_calls \<lparr>cf_autoForwardRaw = ''mihomo__lan'', cf_autoEnabled = True,
     cf_autoDNS = ''mihomo__lan:53'', cf_logLevel = ''warn'', cf_unboundLog = ''0''\<rparr>
     [''/etc/veladns/foreign-mihomo.yaml.tmpl'' \<mapsto> \<lparr>f_data = ''tcp://__AUTO_FORWARD_ENDPOINT__'', f_mode = 420\<rparr>]) \<noteq> None"
  by (rule underscore_host_never_starts [OF underscore_loads, where t = "''tcp://__AUTO_FORWARD_ENDPOINT__''"])
    (simp_all add: sublist_code)

end
