(* ===== verification/MosdnsEntry.thy ===== *)
theory MosdnsEntry
  imports ConfigSafety
begin

text \<open>
  cmd/mosdns/main.go: the level of the bootstrap logger, the order of \<open>main\<close>, and its agreement
  with the supervisor that renders the configuration of this program.
\<close>

text \<open>\<open>parse\<close> is \<open>zapcore.ParseLevel\<close>, \<open>warn\<close> its \<open>WarnLevel\<close>.\<close>

definition bootstrapLogLevel :: "(string \<Rightarrow> goerr + 'l) \<Rightarrow> 'l \<Rightarrow> string \<Rightarrow> 'l" where
  "bootstrapLogLevel parse warn raw0 =
     (let raw = (if raw0 = [] then ''warn'' else raw0)
      in case parse raw of Inl e \<Rightarrow> warn | Inr level \<Rightarrow> level)"

text \<open>The calls of \<open>main\<close>; \<open>run\<close> is the outcome of \<open>coremain.Run\<close>, and \<open>Fatal\<close> ends the process
  with code 1.\<close>

datatype 'l mosdns_call = SetLevel 'l | RunCoremain | Fatal goerr

definition mosdns_main ::
  "(string \<Rightarrow> goerr + 'l) \<Rightarrow> 'l \<Rightarrow> (string \<Rightarrow> string) \<Rightarrow> goerr option \<Rightarrow> 'l mosdns_call list \<times> int" where
  "mosdns_main parse warn getenv run =
     (let calls = [SetLevel (bootstrapLogLevel parse warn (getenv ''LOG_LEVEL'')), RunCoremain]
      in case run of None \<Rightarrow> (calls, 0) | Some err \<Rightarrow> (calls @ [Fatal err], 1))"

lemma level_known: "loadConfig getenv = Inr cfg \<Longrightarrow> cf_logLevel cfg \<in> {''debug'', ''info'', ''warn'', ''error''}"
  by (auto simp: loadConfig_def Let_def split: if_splits sum.splits)

lemma level_from_env:
  "loadConfig getenv = Inr cfg \<Longrightarrow>
   cf_logLevel cfg = (if getenv ''LOG_LEVEL'' = [] then ''warn'' else getenv ''LOG_LEVEL'')"
  by (auto simp: loadConfig_def envDefault_def Let_def split: if_splits sum.splits)

text \<open>The two programs log at one level. The supervisor starts MosDNS in its own environment;
  when its configuration loads, the level MosDNS sets before it reads its configuration is the
  one the supervisor renders into that configuration, also when \<open>LOG_LEVEL\<close> is unset, and it
  is set before anything of MosDNS runs.\<close>

theorem one_log_level:
  assumes "loadConfig getenv = Inr cfg"
    and "\<forall>name \<in> {''debug'', ''info'', ''warn'', ''error''}. parse name = Inr (level name)"
  shows "\<exists>rest. fst (mosdns_main parse warn getenv run) = SetLevel (level (cf_logLevel cfg)) # RunCoremain # rest"
proof -
  have "bootstrapLogLevel parse warn (getenv ''LOG_LEVEL'') = level (cf_logLevel cfg)"
    using assms(2) level_known [OF assms(1)] level_from_env [OF assms(1)]
    by (auto simp: bootstrapLogLevel_def Let_def)
  then show ?thesis by (cases run) (simp_all add: mosdns_main_def)
qed

theorem one_log_level_witness:
  "\<exists>cfg rest. loadConfig (\<lambda>name. if name = ''LOG_LEVEL'' then ''info'' else []) = Inr cfg \<and>
     fst (mosdns_main Inr ''warn'' (\<lambda>name. if name = ''LOG_LEVEL'' then ''info'' else []) None) =
       SetLevel ''info'' # RunCoremain # rest"
proof -
  let ?env = "\<lambda>name. if name = ''LOG_LEVEL'' then ''info'' else []"
  obtain cfg where c: "loadConfig ?env = Inr cfg" "cf_logLevel cfg = ''info''"
    by (simp add: loadConfig_def envDefault_def Let_def)
  from one_log_level [OF c(1), of Inr "\<lambda>name. name" "''warn''" None] c show ?thesis by auto
qed

end
