(* ===== verification/ChildLog.thy ===== *)
theory ChildLog
  imports GoStrings GoStrconv GoErr
begin

text \<open>
  cmd/veladns/process.go, the output of the supervised processes: \<open>childLogWriter\<close> cuts it
  into lines, \<open>childLogDeduper\<close> drops the internal errors of a query whose failure was already
  reported. \<open>clock k\<close> is the time call number \<open>k\<close> of \<open>suppress\<close> reads, \<open>out\<close> the outcome of
  writing the line of call number \<open>k\<close> to the destination; the deduper counts its calls in
  \<open>dd_calls\<close>. The two writers of a process share one deduper.
\<close>

section \<open>The deduper\<close>

record childLogDeduper =
  dd_child :: string
  dd_suppressStartupInfo :: bool
  dd_boundaries :: "string \<rightharpoonup> gotime"
  dd_calls :: nat

definition newChildLogDeduper :: "string \<Rightarrow> bool \<Rightarrow> childLogDeduper" where
  "newChildLogDeduper child suppressInfo =
     \<lparr>dd_child = child, dd_suppressStartupInfo = suppressInfo, dd_boundaries = Map.empty, dd_calls = 0\<rparr>"

abbreviation (input) childLogDedupeWindow :: duration where "childLogDedupeWindow \<equiv> 10 * second"

text \<open>The expression \<open>"uqid":\s*([0-9]+)\<close>: the digits of the leftmost match.\<close>

definition quote :: char where "quote = char_of (34::nat)"

definition uqid_key :: string where "uqid_key = [quote] @ ''uqid'' @ [quote, CHR '':'']"

definition re_space :: "char \<Rightarrow> bool" where
  "re_space c \<longleftrightarrow> (of_char c :: nat) \<in> {9, 10, 12, 13, 32}"

definition match_here :: "string \<Rightarrow> string option" where
  "match_here s =
     (if prefix uqid_key s then
        let ds = takeWhile is_digit (dropWhile re_space (drop (length uqid_key) s))
        in if ds = [] then None else Some ds
      else None)"

fun queryID :: "string \<Rightarrow> string option" where
  "queryID [] = match_here []"
| "queryID (c # s) = (case match_here (c # s) of Some ds \<Rightarrow> Some ds | None \<Rightarrow> queryID s)"

definition tab :: char where "tab = char_of (9::nat)"

text \<open>A field of the log between tabs, then a message.\<close>

definition log_mark :: "string \<Rightarrow> string \<Rightarrow> string" where
  "log_mark logger message = [tab] @ logger @ [tab] @ message @ [tab]"

definition startup_info :: "childLogDeduper \<Rightarrow> string \<Rightarrow> bool" where
  "startup_info d line \<longleftrightarrow> dd_suppressStartupInfo d \<and>
     (dd_child d = ''unbound'' \<or> dd_child d = ''unbound_recursive'') \<and>
     contains line '' info: start of service (unbound ''"

definition boundary_line :: "string \<Rightarrow> bool" where
  "boundary_line line \<longleftrightarrow> contains line (log_mark ''main_tcp'' ''entry err'') \<or>
     contains line (log_mark ''main_udp'' ''entry err'')"

definition internal_line :: "string \<Rightarrow> bool" where
  "internal_line line \<longleftrightarrow> contains line (log_mark ''classify_lookup'' ''secondary error'') \<or>
     contains line (log_mark ''forward_unbound'' ''upstream error'') \<or>
     contains line (log_mark ''recursive_unbound'' ''upstream error'')"

definition expire :: "gotime \<Rightarrow> (string \<rightharpoonup> gotime) \<Rightarrow> (string \<rightharpoonup> gotime)" where
  "expire now b = (\<lambda>q. case b q of None \<Rightarrow> None
     | Some t \<Rightarrow> if childLogDedupeWindow < time_sub now t then None else Some t)"

definition suppress :: "(nat \<Rightarrow> gotime) \<Rightarrow> string \<Rightarrow> childLogDeduper \<Rightarrow> bool \<times> childLogDeduper" where
  "suppress clock line d0 =
     (let now = clock (dd_calls d0); d = d0\<lparr>dd_calls := dd_calls d0 + 1\<rparr>
      in if startup_info d line then (True, d)
         else if dd_child d \<noteq> ''mosdns'' \<or> \<not> contains line ''context deadline exceeded'' then (False, d)
         else case queryID line of
           None \<Rightarrow> (False, d)
         | Some q \<Rightarrow>
             let b = expire now (dd_boundaries d)
             in if boundary_line line then (False, d\<lparr>dd_boundaries := b(q \<mapsto> now)\<rparr>)
                else if \<not> internal_line line then (False, d\<lparr>dd_boundaries := b\<rparr>)
                else ((case b q of None \<Rightarrow> False | Some t \<Rightarrow> time_sub now t \<le> childLogDedupeWindow),
                      d\<lparr>dd_boundaries := b\<rparr>))"

section \<open>The writer\<close>

abbreviation lf :: char where "lf \<equiv> char_of (10::nat)"

text \<open>What became of a line: suppressed, or handed to the destination with that outcome.\<close>

datatype line_fate = Suppressed string | Written string | WriteFailed string goerr

lemma rest_shorter:
  assumes "c \<in> set buf"
  shows "length buf - Suc (length (takeWhile (\<lambda>x. x \<noteq> c) buf)) < length buf"
  using assms by (cases buf) auto

text \<open>The loop of \<open>Write\<close> over the bytes buffered: the bytes that stay, the deduper, the fates
  of the lines, the error. It stops at the first failing line.\<close>

function write_loop ::
  "(nat \<Rightarrow> gotime) \<Rightarrow> (nat \<Rightarrow> goerr option) \<Rightarrow> string \<Rightarrow> childLogDeduper \<Rightarrow>
   string \<times> childLogDeduper \<times> line_fate list \<times> goerr option" where
  "write_loop clock out buf d =
     (if lf \<notin> set buf then (buf, d, [], None)
      else
        let line = takeWhile (\<lambda>c. c \<noteq> lf) buf @ [lf]; rest = drop (length line) buf
        in (case suppress clock line d of
              (True, d') \<Rightarrow> (case write_loop clock out rest d' of (b, d'', fs, e) \<Rightarrow> (b, d'', Suppressed line # fs, e))
            | (False, d') \<Rightarrow>
                (case out (dd_calls d) of
                   Some e \<Rightarrow> (rest, d', [WriteFailed line e], Some e)
                 | None \<Rightarrow> (case write_loop clock out rest d' of (b, d'', fs, e) \<Rightarrow> (b, d'', Written line # fs, e)))))"
  by pat_completeness auto
termination
  by (relation "measure (\<lambda>(clock, out, buf, d). length buf)") (auto simp: rest_shorter)

declare write_loop.simps [simp del]

text \<open>\<open>Write\<close> and \<open>Flush\<close>; the state of a writer is its pending bytes.\<close>

definition childLogWriter_Write ::
  "(nat \<Rightarrow> gotime) \<Rightarrow> (nat \<Rightarrow> goerr option) \<Rightarrow> string \<Rightarrow> string \<Rightarrow> childLogDeduper \<Rightarrow>
   (nat \<times> goerr option) \<times> string \<times> childLogDeduper \<times> line_fate list" where
  "childLogWriter_Write clock out p pending d =
     (case write_loop clock out (pending @ p) d of (b, d', fs, e) \<Rightarrow> ((length p, e), b, d', fs))"

definition childLogWriter_Flush ::
  "(nat \<Rightarrow> gotime) \<Rightarrow> (nat \<Rightarrow> goerr option) \<Rightarrow> string \<Rightarrow> childLogDeduper \<Rightarrow>
   goerr option \<times> string \<times> childLogDeduper \<times> line_fate list" where
  "childLogWriter_Flush clock out pending d =
     (if pending = [] then (None, [], d, [])
      else case suppress clock pending d of
        (True, d') \<Rightarrow> (None, [], d', [Suppressed pending])
      | (False, d') \<Rightarrow>
          (case out (dd_calls d) of
             Some e \<Rightarrow> (Some e, [], d', [WriteFailed pending e])
           | None \<Rightarrow> (None, [], d', [Written pending])))"

end
