(* ===== verification/ChildLogSafety.thy ===== *)
theory ChildLogSafety
  imports ChildLog
begin

text \<open>
  The log of the supervised processes: how the output is cut does not matter, no byte is lost,
  and a line is dropped only when its query was reported shortly before.
\<close>

section \<open>The writer\<close>

fun fate_text :: "line_fate \<Rightarrow> string" where
  "fate_text (Suppressed l) = l"
| "fate_text (Written l) = l"
| "fate_text (WriteFailed l e) = l"

lemma write_loop_none: "lf \<notin> set buf \<Longrightarrow> write_loop clock out buf d = (buf, d, [], None)"
  by (simp add: write_loop.simps)

lemma write_loop_line:
  assumes "lf \<notin> set l" and "out (dd_calls d) = None"
  shows "write_loop clock out (l @ lf # rest) d =
    (case suppress clock (l @ [lf]) d of (s, d') \<Rightarrow>
      case write_loop clock out rest d' of (b, d'', fs, e) \<Rightarrow>
        (b, d'', (if s then Suppressed (l @ [lf]) else Written (l @ [lf])) # fs, e))"
proof -
  have "takeWhile (\<lambda>c. c \<noteq> lf) (l @ lf # rest) = l"
    using assms(1) by (simp add: takeWhile_append)
  then show ?thesis using assms(2)
    by (subst write_loop.simps) (simp add: Let_def split: prod.split bool.split)
qed

lemma first_line:
  assumes "c \<in> set buf"
  obtains l rest where "buf = l @ c # rest" and "c \<notin> set l" and "length rest < length buf"
  using split_list_first [OF assms] by auto

text \<open>With a destination that takes every line.\<close>

lemma write_loop_append:
  assumes "\<forall>k. out k = None"
  shows "write_loop clock out (a @ b) d =
    (case write_loop clock out a d of (r, d', fs, e) \<Rightarrow>
      case write_loop clock out (r @ b) d' of (r', d'', fs', e') \<Rightarrow> (r', d'', fs @ fs', e'))"
proof (induction "length a" arbitrary: a d rule: less_induct)
  case less
  show ?case
  proof (cases "lf \<in> set a")
    case False
    then show ?thesis by (simp add: write_loop_none split: prod.split)
  next
    case True
    then obtain l rest where a: "a = l @ lf # rest" "lf \<notin> set l" "length rest < length a"
      by (rule first_line)
    obtain s d' where "suppress clock (l @ [lf]) d = (s, d')" by fastforce
    with a assms less [OF a(3), of d'] show ?thesis
      by (simp add: write_loop_line split: prod.split)
  qed
qed

lemma write_loop_lines:
  assumes "\<forall>k. out k = None" and "write_loop clock out buf d = (r, d', fs, e)"
  shows "concat (map fate_text fs) @ r = buf \<and> lf \<notin> set r \<and> e = None \<and>
    (\<forall>f\<in>set fs. \<exists>l. fate_text f = l @ [lf] \<and> lf \<notin> set l)"
  using assms(2)
proof (induction "length buf" arbitrary: buf d fs rule: less_induct)
  case less
  show ?case
  proof (cases "lf \<in> set buf")
    case False
    with less.prems show ?thesis by (simp add: write_loop_none)
  next
    case True
    then obtain l rest where a: "buf = l @ lf # rest" "lf \<notin> set l" "length rest < length buf"
      by (rule first_line)
    obtain s d1 where s: "suppress clock (l @ [lf]) d = (s, d1)" by fastforce
    obtain r1 d2 fs1 e1 where w: "write_loop clock out rest d1 = (r1, d2, fs1, e1)"
      by (metis prod.exhaust)
    with less.prems a s assms(1) have eq: "r1 = r" "d2 = d'" "e1 = e"
      "fs = (if s then Suppressed (l @ [lf]) else Written (l @ [lf])) # fs1"
      by (simp_all add: write_loop_line)
    with w have "write_loop clock out rest d1 = (r, d', fs1, e)" by simp
    from less.hyps [OF a(3) this] a eq(4) show ?thesis by auto
  qed
qed

text \<open>The output of a process arrives in chunks, one \<open>Write\<close> each.\<close>

fun write_all ::
  "(nat \<Rightarrow> gotime) \<Rightarrow> (nat \<Rightarrow> goerr option) \<Rightarrow> string list \<Rightarrow> string \<Rightarrow> childLogDeduper \<Rightarrow>
   string \<times> childLogDeduper \<times> line_fate list" where
  "write_all clock out [] pending d = (pending, d, [])"
| "write_all clock out (p # ps) pending d =
     (case childLogWriter_Write clock out p pending d of (r, pending', d', fs) \<Rightarrow>
        case write_all clock out ps pending' d' of (pending'', d'', fs') \<Rightarrow> (pending'', d'', fs @ fs'))"

lemma write_all_loop:
  assumes "\<forall>k. out k = None"
  shows "lf \<notin> set pending \<Longrightarrow> write_all clock out ps pending d =
    (case write_loop clock out (pending @ concat ps) d of (b, d', fs, e) \<Rightarrow> (b, d', fs))"
proof (induction ps arbitrary: pending d)
  case Nil
  then show ?case by (simp add: write_loop_none)
next
  case (Cons p ps)
  obtain b d1 fs e where w: "write_loop clock out (pending @ p) d = (b, d1, fs, e)" by (metis prod.exhaust)
  with write_loop_lines [OF assms w] have "lf \<notin> set b" by simp
  with Cons.IH [of b d1] w write_loop_append [OF assms, of clock "pending @ p" "concat ps" d] show ?case
    by (simp add: childLogWriter_Write_def split: prod.split)
qed



section \<open>The deduper\<close>

text \<open>The deduper after some lines, and its verdict on line \<open>i\<close>.\<close>

definition after_lines :: "(nat \<Rightarrow> gotime) \<Rightarrow> string list \<Rightarrow> childLogDeduper \<Rightarrow> childLogDeduper" where
  "after_lines clock ls d = fold (\<lambda>l d. snd (suppress clock l d)) ls d"

definition suppressed :: "(nat \<Rightarrow> gotime) \<Rightarrow> string list \<Rightarrow> childLogDeduper \<Rightarrow> nat \<Rightarrow> bool" where
  "suppressed clock ls d i = fst (suppress clock (ls ! i) (after_lines clock (take i ls) d))"

definition reported :: "(nat \<Rightarrow> gotime) \<Rightarrow> string list \<Rightarrow> childLogDeduper \<Rightarrow> nat \<Rightarrow> string \<Rightarrow> nat \<Rightarrow> bool" where
  "reported clock ls d k q j \<longleftrightarrow> j < k \<and> \<not> suppressed clock ls d j \<and> boundary_line (ls ! j) \<and> queryID (ls ! j) = Some q"

lemma suppress_frame:
  "suppress clock l d = (s, d') \<Longrightarrow> dd_calls d' = dd_calls d + 1 \<and> dd_child d' = dd_child d \<and>
   dd_suppressStartupInfo d' = dd_suppressStartupInfo d"
  by (auto simp: suppress_def Let_def split: if_splits option.splits)

lemma suppress_boundaries:
  assumes "suppress clock l d = (s, d')" and "dd_boundaries d' q = Some t"
  shows "dd_boundaries d q = Some t \<or>
    t = clock (dd_calls d) \<and> \<not> s \<and> boundary_line l \<and> queryID l = Some q"
  using assms by (auto simp: suppress_def Let_def expire_def split: if_splits option.splits)

lemma after_lines_inv:
  assumes "k \<le> length ls" and "d = newChildLogDeduper child info" and "after_lines clock (take k ls) d = d'"
  shows "dd_calls d' = k \<and> dd_child d' = child \<and> dd_suppressStartupInfo d' = info \<and>
    (\<forall>q t. dd_boundaries d' q = Some t \<longrightarrow> (\<exists>j. reported clock ls d k q j \<and> t = clock j))"
  using assms(1,3)
proof (induction k arbitrary: d')
  case 0
  then have "d' = newChildLogDeduper child info" using assms(2) by (simp add: after_lines_def)
  then show ?case by (simp add: newChildLogDeduper_def)
next
  case (Suc k)
  define dk where "dk = after_lines clock (take k ls) d"
  from Suc have IH: "dd_calls dk = k \<and> dd_child dk = child \<and> dd_suppressStartupInfo dk = info \<and>
    (\<forall>q t. dd_boundaries dk q = Some t \<longrightarrow> (\<exists>j. reported clock ls d k q j \<and> t = clock j))"
    by (simp add: dk_def)
  obtain s where s: "suppress clock (ls ! k) dk = (s, d')"
    using Suc.prems by (simp add: after_lines_def dk_def take_Suc_conv_app_nth prod_eq_iff)
  then have sk: "suppressed clock ls d k = s" by (simp add: suppressed_def dk_def)
  have "\<exists>j. reported clock ls d (Suc k) q j \<and> t = clock j" if "dd_boundaries d' q = Some t" for q t
  proof (cases "dd_boundaries dk q = Some t")
    case True
    with IH obtain j where "reported clock ls d k q j" "t = clock j" by blast
    then show ?thesis by (intro exI [of _ j]) (simp add: reported_def)
  next
    case False
    with suppress_boundaries [OF s that] IH sk show ?thesis
      by (intro exI [of _ k]) (simp add: reported_def)
  qed
  with suppress_frame [OF s] IH show ?case by simp
qed

text \<open>C23. The log of MosDNS never hides a failure: a line is suppressed only if it is an internal
  error of a query whose failure at the listener was itself written to the log, by an earlier
  line with the same query id and at most ten seconds before. Every other line of MosDNS is
  passed on.\<close>

theorem suppressed_was_reported:
  assumes "i < length ls" and "suppressed clock ls (newChildLogDeduper ''mosdns'' info) i"
  shows "internal_line (ls ! i) \<and>
    (\<exists>j<i. \<exists>q. queryID (ls ! i) = Some q \<and> queryID (ls ! j) = Some q \<and> boundary_line (ls ! j) \<and>
       \<not> suppressed clock ls (newChildLogDeduper ''mosdns'' info) j \<and>
       time_sub (clock i) (clock j) \<le> childLogDedupeWindow)"
proof -
  define d where "d = newChildLogDeduper ''mosdns'' info"
  define di where "di = after_lines clock (take i ls) d"
  note inv = after_lines_inv [OF less_imp_le [OF assms(1)] d_def di_def [symmetric]]
  have "fst (suppress clock (ls ! i) di)" using assms(2) by (simp add: suppressed_def d_def di_def)
  with inv obtain q t where q: "queryID (ls ! i) = Some q" "internal_line (ls ! i)"
    "dd_boundaries di q = Some t" "time_sub (clock i) t \<le> childLogDedupeWindow"
    by (auto simp: suppress_def startup_info_def expire_def Let_def split: if_splits option.splits)
  with inv obtain j where "reported clock ls d i q j" "t = clock j" by blast
  with q show ?thesis unfolding reported_def d_def by blast
qed

definition boundary_example :: string where
  "boundary_example = log_mark ''main_udp'' ''entry err'' @ ''context deadline exceeded'' @ uqid_key @ ''7''"

definition internal_example :: string where
  "internal_example = log_mark ''forward_unbound'' ''upstream error'' @ ''context deadline exceeded'' @ uqid_key @ ''7''"

lemma queryID_skip: "match_here (c # s) = None \<Longrightarrow> queryID (c # s) = queryID s"
  by simp

lemma example_facts:
  "queryID boundary_example = Some ''7''" "queryID internal_example = Some ''7''"
  "boundary_line boundary_example" "internal_line internal_example" "\<not> boundary_line internal_example"
  "contains boundary_example ''context deadline exceeded''" "contains internal_example ''context deadline exceeded''"
  by (simp_all add: boundary_example_def internal_example_def boundary_line_def internal_line_def log_mark_def
      uqid_key_def match_here_def quote_def tab_def char_of_def bit_Suc_0_iff is_digit_def re_space_def sublist_code)

theorem suppressed_was_reported_witness:
  "suppressed (\<lambda>k. second * int k) [boundary_example, internal_example] (newChildLogDeduper ''mosdns'' False) 1 \<and>
   boundary_line boundary_example"
proof -
  have "suppressed (\<lambda>k. second * int k) [boundary_example, internal_example] (newChildLogDeduper ''mosdns'' False) 1"
    using example_facts
    by (simp add: suppressed_def after_lines_def newChildLogDeduper_def suppress_def startup_info_def expire_def
        time_sub_def Let_def)
  with suppressed_was_reported [OF _ this] show ?thesis by (auto simp: less_Suc_eq)
qed

end
