(* ===== verification/ProcessGroup.thy ===== *)
theory ProcessGroup
  imports Machine
begin

text \<open>
  cmd/veladns/process\_unix.go and cmd/veladns/process\_windows.go: how a child process is put
  into a process group of its own and how it is ended; and what the kernel's process table makes
  of it.
\<close>

section \<open>The code\<close>

type_synonym pid = int

datatype unix_signal = SIGINT | SIGTERM | SIGKILL

text \<open>What these files use of \<open>exec.Cmd\<close>: \<open>SysProcAttr.Setpgid\<close>, and \<open>Process\<close>, which is nil
  until the command has been started. The system calls they make: \<open>kill(2)\<close>, and the library's
  \<open>Process.Kill\<close>, which ends one process.\<close>

record cmd =
  cmd_setpgid :: bool
  cmd_process :: "pid option"

datatype syscall =
    Kill pid unix_signal
  | ProcessKill pid

definition exec_Command :: cmd where
  "exec_Command = \<lparr>cmd_setpgid = False, cmd_process = None\<rparr>"

definition unix_configureProcess :: "cmd \<Rightarrow> cmd" where
  "unix_configureProcess c = c\<lparr>cmd_setpgid := True\<rparr>"

definition unix_terminateProcess :: "cmd \<Rightarrow> syscall list" where
  "unix_terminateProcess c = (case cmd_process c of None \<Rightarrow> [] | Some pid \<Rightarrow> [Kill (- pid) SIGTERM])"

definition unix_killProcess :: "cmd \<Rightarrow> syscall list" where
  "unix_killProcess c = (case cmd_process c of None \<Rightarrow> [] | Some pid \<Rightarrow> [Kill (- pid) SIGKILL])"

definition unix_terminationSignals :: "unix_signal list" where
  "unix_terminationSignals = [SIGINT, SIGTERM]"

definition windows_configureProcess :: "cmd \<Rightarrow> cmd" where
  "windows_configureProcess c = c"

definition windows_terminateProcess :: "cmd \<Rightarrow> syscall list" where
  "windows_terminateProcess c = (case cmd_process c of None \<Rightarrow> [] | Some pid \<Rightarrow> [ProcessKill pid])"

definition windows_killProcess :: "cmd \<Rightarrow> syscall list" where
  "windows_killProcess c = (case cmd_process c of None \<Rightarrow> [] | Some pid \<Rightarrow> [ProcessKill pid])"

definition windows_terminationSignals :: "unix_signal list" where
  "windows_terminationSignals = [SIGINT]"

text \<open>A build has one of the two files.\<close>

record platform =
  pf_configure :: "cmd \<Rightarrow> cmd"
  pf_terminate :: "cmd \<Rightarrow> syscall list"
  pf_kill :: "cmd \<Rightarrow> syscall list"
  pf_signals :: "unix_signal list"

definition unix :: platform where
  "unix = \<lparr>pf_configure = unix_configureProcess, pf_terminate = unix_terminateProcess,
     pf_kill = unix_killProcess, pf_signals = unix_terminationSignals\<rparr>"

definition windows :: platform where
  "windows = \<lparr>pf_configure = windows_configureProcess, pf_terminate = windows_terminateProcess,
     pf_kill = windows_killProcess, pf_signals = windows_terminationSignals\<rparr>"

section \<open>The process table\<close>

text \<open>
  The kernel's side, as POSIX documents it: a process has a group; a fork inherits it; a child
  started with \<open>Setpgid\<close> leads a new group with its own number; a process that leads no group
  may found one by \<open>setsid\<close>; \<open>kill(-g)\<close> reaches the members of group \<open>g\<close>. \<open>pt_used\<close> are the
  numbers given out so far: a new process gets a number that is neither a process nor a group,
  and here one that was never used (the reuse of numbers is left out). \<open>pt_child\<close> is a ghost: the
  supervised child a process descends from.
\<close>

record proc_table =
  pt_self :: pid
  pt_used :: "pid list"
  pt_group :: "pid \<rightharpoonup> pid"
  pt_child :: "pid \<rightharpoonup> pid"

datatype proc_event =
    PStart pid bool
  | PFork pid pid
  | PSetsid pid
  | PExit pid

definition fresh_pid :: "pid \<Rightarrow> proc_table \<Rightarrow> bool" where
  "fresh_pid p t \<longleftrightarrow> 1 < p \<and> p \<notin> set (pt_used t)"

definition proc_step :: "proc_table \<Rightarrow> proc_event \<Rightarrow> proc_table option" where
  "proc_step t e =
     (case e of
        PStart p setpgid \<Rightarrow>
          (case pt_group t (pt_self t) of
             None \<Rightarrow> None
           | Some g \<Rightarrow>
               if \<not> fresh_pid p t then None
               else Some (t\<lparr>pt_used := p # pt_used t,
                            pt_group := (pt_group t)(p \<mapsto> (if setpgid then p else g)),
                            pt_child := (pt_child t)(p \<mapsto> p)\<rparr>))
      | PFork q p \<Rightarrow>
          (case pt_group t q of
             None \<Rightarrow> None
           | Some g \<Rightarrow>
               if \<not> fresh_pid p t \<or> q = pt_self t then None
               else Some (t\<lparr>pt_used := p # pt_used t, pt_group := (pt_group t)(p \<mapsto> g),
                            pt_child := (pt_child t)(p := pt_child t q)\<rparr>))
      | PSetsid p \<Rightarrow>
          (case pt_group t p of
             None \<Rightarrow> None
           | Some g \<Rightarrow> if g = p \<or> p = pt_self t then None else Some (t\<lparr>pt_group := (pt_group t)(p \<mapsto> p)\<rparr>))
      | PExit p \<Rightarrow>
          if p = pt_self t \<or> pt_group t p = None then None
          else Some (t\<lparr>pt_group := (pt_group t)(p := None)\<rparr>))"

definition proc_init :: "pid \<Rightarrow> pid \<Rightarrow> proc_table" where
  "proc_init self g = \<lparr>pt_self = self, pt_used = [self, g], pt_group = [self \<mapsto> g], pt_child = Map.empty\<rparr>"

definition proc_history :: "pid \<Rightarrow> pid \<Rightarrow> proc_event list \<Rightarrow> proc_table \<Rightarrow> bool" where
  "proc_history self g es t \<longleftrightarrow> run_steps proc_step (proc_init self g) es = Some t"

text \<open>The processes a system call reaches: those of a group, or one.\<close>

definition reached :: "proc_table \<Rightarrow> syscall \<Rightarrow> pid set" where
  "reached t c =
     (case c of
        Kill p s \<Rightarrow>
          if p < -1 then {q. pt_group t q = Some (- p)}
          else if p = -1 then {q. q \<noteq> pt_self t \<and> pt_group t q \<noteq> None}
          else if p = 0 then {q. pt_group t q \<noteq> None \<and> pt_group t q = pt_group t (pt_self t)}
          else {q. q = p \<and> pt_group t q \<noteq> None}
      | ProcessKill p \<Rightarrow> {q. q = p \<and> pt_group t q \<noteq> None})"

interpretation proc: machine proc_step "proc_init self g" "proc_history self g" for self g
  by unfold_locales (auto simp: proc_history_def run_steps_snoc)

end
