(* ===== verification/Logger.thy ===== *)
theory Logger
  imports Main
begin

text \<open>
  cmd/veladns/logger.go: the supervisor's logger, a threshold over three severities. A message
  is of type \<open>'m\<close>: its format and arguments.
\<close>

datatype severity = SevInfo | SevWarn | SevError

definition newLogger :: "string \<Rightarrow> int" where
  "newLogger level =
     (if level = ''debug'' then 0 else if level = ''info'' then 1 else if level = ''warn'' then 2
      else if level = ''error'' then 3 else 2)"

definition logs :: "int \<Rightarrow> severity \<Rightarrow> bool" where
  "logs threshold sev =
     (case sev of SevInfo \<Rightarrow> threshold \<le> 1 | SevWarn \<Rightarrow> threshold \<le> 2 | SevError \<Rightarrow> True)"

text \<open>What the calls of the logger print.\<close>

definition printed :: "int \<Rightarrow> (severity \<times> 'm) list \<Rightarrow> (severity \<times> 'm) list" where
  "printed threshold calls = filter (\<lambda>c. logs threshold (fst c)) calls"

instantiation severity :: linorder
begin

definition less_eq_severity :: "severity \<Rightarrow> severity \<Rightarrow> bool" where
  "less_eq_severity a b \<longleftrightarrow> (case a of SevInfo \<Rightarrow> True | SevWarn \<Rightarrow> b \<noteq> SevInfo | SevError \<Rightarrow> b = SevError)"

definition less_severity :: "severity \<Rightarrow> severity \<Rightarrow> bool" where
  "less_severity a b \<longleftrightarrow> a \<le> b \<and> \<not> b \<le> (a::severity)"

instance
  by standard (auto simp: less_eq_severity_def less_severity_def split: severity.splits)

end

text \<open>A logger that prints a severity prints every higher one.\<close>

lemma logs_mono: "logs threshold a \<Longrightarrow> a \<le> b \<Longrightarrow> logs threshold b"
  by (auto simp: logs_def less_eq_severity_def split: severity.splits)

lemma newLogger_levels:
  "logs (newLogger level) SevInfo \<longleftrightarrow> level = ''debug'' \<or> level = ''info''"
  "logs (newLogger level) SevWarn \<longleftrightarrow> level \<noteq> ''error''"
  "logs (newLogger level) SevError"
  by (auto simp: logs_def newLogger_def)

end
