(* ===== verification/Supervise.thy ===== *)
theory Supervise
  imports Backoff RuntimeState ChildLog ProcessGroup Logger
begin

text \<open>
  cmd/veladns/process.go, \<open>superviseChild\<close> and \<open>waitForTCP\<close>. The loop of \<open>superviseChild\<close> is
  a state machine: a phase for every point at which the goroutine waits or reads the context or
  the clock, an event for what it finds there. The process itself is part of the machine: it
  exists from a successful \<open>Start\<close> until the result of \<open>Wait\<close> is received; meanwhile its output
  goes through the two log writers (\<open>SOutput\<close>). The runtime state is shared; other goroutines
  change the other components, and the providers, in between (\<open>SOther\<close>). The system calls
  that end a process and the calls of the logger are recorded in order.
\<close>

abbreviation (input) stableRuntime :: duration where "stableRuntime \<equiv> 5 * minute"
abbreviation (input) shutdownGrace :: duration where "shutdownGrace \<equiv> 5 * second"

record childSpec =
  cs_name :: string
  cs_path :: string
  cs_args :: "string list"
  cs_suppressStartupInfo :: bool

text \<open>\<open>Terminating x\<close>: the grace period ends at \<open>x\<close>. \<open>Waiting x\<close>: the restart timer expires at
  \<open>x\<close>.\<close>

datatype sup_phase =
    AtTop
  | Starting
  | Running gotime
  | Terminating gotime
  | Killed
  | AfterRun gotime
  | Waiting gotime
  | Returned

datatype sup_message =
    LogFailedToStart string goerr
  | LogStarted string pid
  | LogExited string duration "goerr option"
  | LogRestartScheduled string duration

datatype stream = Stdout | Stderr

record supervised =
  sv_phase :: sup_phase
  sv_step :: uint
  sv_ctxDone :: bool
  sv_state :: runtimeState
  sv_cmd :: cmd
  sv_deduper :: childLogDeduper
  sv_pending :: "stream \<Rightarrow> string"
  sv_lines :: "(stream \<times> line_fate) list"
  sv_calls :: "(gotime \<times> syscall) list"
  sv_log :: "(severity \<times> sup_message) list"

text \<open>The environment of the log writers: the clock and the destination's outcomes, by the
  number of the deduper's call.\<close>

type_synonym log_env = "(nat \<Rightarrow> gotime) \<times> (nat \<Rightarrow> goerr option)"

datatype sup_event =
    SCancel
  | SCheck
  | SStart gotime "goerr + pid"
  | SOutput stream log_env string
  | SExited log_env "goerr option" gotime
  | SCtxDone gotime
  | SGrace gotime
  | SSchedule gotime nat gotime
  | STimer gotime
  | SOther runtimeState

definition set_running :: "component \<Rightarrow> component" where
  "set_running c = c\<lparr>cp_up := True, cp_backoff := 0\<rparr>"

definition set_restarting :: "duration \<Rightarrow> component \<Rightarrow> component" where
  "set_restarting delay c = c\<lparr>cp_up := False, cp_restarts := cp_restarts c + 1, cp_backoff := delay\<rparr>"

definition publish :: "childSpec \<Rightarrow> (component \<Rightarrow> component) \<Rightarrow> supervised \<Rightarrow> supervised" where
  "publish spec fn v = v\<lparr>sv_state := update (cs_name spec) fn (sv_state v)\<rparr>"

definition log_call :: "severity \<Rightarrow> sup_message \<Rightarrow> supervised \<Rightarrow> supervised" where
  "log_call sev m v = v\<lparr>sv_log := sv_log v @ [(sev, m)]\<rparr>"

definition sys_calls :: "gotime \<Rightarrow> syscall list \<Rightarrow> supervised \<Rightarrow> supervised" where
  "sys_calls now cs v = v\<lparr>sv_calls := sv_calls v @ map (\<lambda>c. (now, c)) cs\<rparr>"

text \<open>A new command with its deduper and its two writers.\<close>

definition new_command :: "platform \<Rightarrow> childSpec \<Rightarrow> supervised \<Rightarrow> supervised" where
  "new_command pf spec v =
     v\<lparr>sv_cmd := pf_configure pf exec_Command,
       sv_deduper := newChildLogDeduper (cs_name spec) (cs_suppressStartupInfo spec),
       sv_pending := (\<lambda>_. [])\<rparr>"

definition sup_output :: "stream \<Rightarrow> log_env \<Rightarrow> string \<Rightarrow> supervised \<Rightarrow> supervised" where
  "sup_output st env bytes v =
     (case childLogWriter_Write (fst env) (snd env) bytes (sv_pending v st) (sv_deduper v) of
        (r, pending, d, fates) \<Rightarrow>
          v\<lparr>sv_deduper := d, sv_pending := (sv_pending v)(st := pending),
            sv_lines := sv_lines v @ map (\<lambda>f. (st, f)) fates\<rparr>)"

definition sup_flush :: "stream \<Rightarrow> log_env \<Rightarrow> supervised \<Rightarrow> goerr option \<times> supervised" where
  "sup_flush st env v =
     (case childLogWriter_Flush (fst env) (snd env) (sv_pending v st) (sv_deduper v) of
        (e, pending, d, fates) \<Rightarrow>
          (e, v\<lparr>sv_deduper := d, sv_pending := (sv_pending v)(st := pending),
                sv_lines := sv_lines v @ map (\<lambda>f. (st, f)) fates\<rparr>))"

text \<open>The goroutine that waits: \<open>Wait\<close>, then both flushes; the first error is the result.\<close>

definition sup_waited :: "log_env \<Rightarrow> goerr option \<Rightarrow> supervised \<Rightarrow> goerr option \<times> supervised" where
  "sup_waited env err v =
     (case sup_flush Stdout env v of (e1, v1) \<Rightarrow>
        case sup_flush Stderr env v1 of (e2, v2) \<Rightarrow>
          (let err1 = (if err = None then e1 else err)
           in (if err1 = None then e2 else err1), v2))"

definition sup_init :: "childSpec \<Rightarrow> runtimeState \<Rightarrow> supervised" where
  "sup_init spec s =
     \<lparr>sv_phase = AtTop, sv_step = 0, sv_ctxDone = False, sv_state = s, sv_cmd = exec_Command,
      sv_deduper = newChildLogDeduper (cs_name spec) (cs_suppressStartupInfo spec),
      sv_pending = (\<lambda>_. []), sv_lines = [], sv_calls = [], sv_log = []\<rparr>"

text \<open>\<open>SExited env err now\<close>: \<open>now\<close> is the time of the message about the exit. \<open>SSchedule now raw
  armed\<close>: \<open>time.Since(startedAt)\<close> reads \<open>now\<close>, \<open>raw\<close> is the jitter's draw, and the timer is
  created at \<open>armed\<close>. \<open>None\<close>: the event cannot happen here.\<close>

definition sup_step :: "platform \<Rightarrow> childSpec \<Rightarrow> supervised \<Rightarrow> sup_event \<Rightarrow> supervised option" where
  "sup_step pf spec v e =
     (case e of
        SCancel \<Rightarrow> Some (v\<lparr>sv_ctxDone := True\<rparr>)
      | SOther s \<Rightarrow>
          if rs_components s (cs_name spec) = rs_components (sv_state v) (cs_name spec)
          then Some (v\<lparr>sv_state := s\<rparr>) else None
      | SCheck \<Rightarrow>
          (case sv_phase v of
             AtTop \<Rightarrow>
               if sv_ctxDone v then Some (v\<lparr>sv_phase := Returned\<rparr>)
               else Some ((new_command pf spec v)\<lparr>sv_phase := Starting\<rparr>)
           | _ \<Rightarrow> None)
      | SStart t r \<Rightarrow>
          (case sv_phase v of
             Starting \<Rightarrow>
               (case r of
                  Inl err \<Rightarrow>
                    Some ((publish spec (set_up False)
                      (log_call SevError (LogFailedToStart (cs_name spec) err) v))\<lparr>sv_phase := AfterRun t\<rparr>)
                | Inr pid \<Rightarrow>
                    Some ((log_call SevInfo (LogStarted (cs_name spec) pid)
                      (publish spec set_running (v\<lparr>sv_cmd := (sv_cmd v)\<lparr>cmd_process := Some pid\<rparr>\<rparr>)))
                        \<lparr>sv_phase := Running t\<rparr>))
           | _ \<Rightarrow> None)
      | SOutput st env bytes \<Rightarrow>
          (case sv_phase v of
             Running t \<Rightarrow> Some (sup_output st env bytes v)
           | Terminating x \<Rightarrow> Some (sup_output st env bytes v)
           | Killed \<Rightarrow> Some (sup_output st env bytes v)
           | _ \<Rightarrow> None)
      | SExited env werr now \<Rightarrow>
          (case sup_waited env werr v of (err, w) \<Rightarrow>
           (case sv_phase v of
             Running t \<Rightarrow>
               (let u = publish spec (set_up False) w
                in if sv_ctxDone v then Some (u\<lparr>sv_phase := Returned\<rparr>)
                   else Some ((log_call SevWarn
                     (LogExited (cs_name spec) (duration_round (time_sub now t) millisecond) err) u)
                       \<lparr>sv_phase := AfterRun t\<rparr>))
           | Terminating x \<Rightarrow> Some ((publish spec (set_up False) w)\<lparr>sv_phase := Returned\<rparr>)
           | Killed \<Rightarrow> Some ((publish spec (set_up False) w)\<lparr>sv_phase := Returned\<rparr>)
           | _ \<Rightarrow> None))
      | SCtxDone now \<Rightarrow>
          if \<not> sv_ctxDone v then None
          else (case sv_phase v of
             Running t \<Rightarrow>
               Some ((sys_calls now (pf_terminate pf (sv_cmd v)) v)\<lparr>sv_phase := Terminating (now + shutdownGrace)\<rparr>)
           | Waiting x \<Rightarrow> Some (v\<lparr>sv_phase := Returned\<rparr>)
           | _ \<Rightarrow> None)
      | SGrace now \<Rightarrow>
          (case sv_phase v of
             Terminating x \<Rightarrow>
               if x \<le> now then Some ((sys_calls now (pf_kill pf (sv_cmd v)) v)\<lparr>sv_phase := Killed\<rparr>) else None
           | _ \<Rightarrow> None)
      | SSchedule now raw armed \<Rightarrow>
          (case sv_phase v of
             AfterRun t \<Rightarrow>
               let step = (if stableRuntime \<le> time_sub now t then 0 else sv_step v) + 1;
                   delay = restartDelay raw step
               in Some ((log_call SevWarn (LogRestartScheduled (cs_name spec) (duration_round delay millisecond))
                    (publish spec (set_restarting delay) v))
                    \<lparr>sv_step := step, sv_phase := Waiting (armed + delay)\<rparr>)
           | _ \<Rightarrow> None)
      | STimer now \<Rightarrow>
          (case sv_phase v of
             Waiting x \<Rightarrow> if x \<le> now then Some (v\<lparr>sv_phase := AtTop\<rparr>) else None
           | _ \<Rightarrow> None))"

text \<open>The process exists.\<close>

definition alive :: "supervised \<Rightarrow> bool" where
  "alive v \<longleftrightarrow> (case sv_phase v of Running t \<Rightarrow> True | Terminating x \<Rightarrow> True | Killed \<Rightarrow> True | _ \<Rightarrow> False)"

inductive sup_history :: "platform \<Rightarrow> childSpec \<Rightarrow> runtimeState \<Rightarrow> sup_event list \<Rightarrow> supervised \<Rightarrow> bool"
  for pf spec s where
  start: "sup_history pf spec s [] (sup_init spec s)"
| event: "sup_history pf spec s es v \<Longrightarrow> sup_step pf spec v e = Some v' \<Longrightarrow>
    sup_history pf spec s (es @ [e]) v'"

inductive_cases sup_history_NilE: "sup_history pf spec s [] v"
inductive_cases sup_history_snocE: "sup_history pf spec s (es @ [e]) v"

interpretation sup: machine "sup_step pf spec" "sup_init spec s" "sup_history pf spec s" for pf spec s
  by unfold_locales (auto elim: sup_history_NilE sup_history_snocE intro: sup_history.intros)

section \<open>Waiting for a listener\<close>

text \<open>One round of \<open>waitForTCP\<close>: the time at which the deadline is checked, whether the dial
  succeeds, and whether the context is done before the pause is over. \<open>None\<close>: still waiting
  after these rounds.\<close>

datatype wait_result = WaitReady | WaitCancelled | WaitTimeout

fun waitForTCP :: "gotime \<Rightarrow> (gotime \<times> bool \<times> bool) list \<Rightarrow> wait_result option" where
  "waitForTCP deadline [] = None"
| "waitForTCP deadline ((now, connected, cancelled) # rounds) =
     (if now < deadline then
        if connected then Some WaitReady
        else if cancelled then Some WaitCancelled
        else waitForTCP deadline rounds
      else Some WaitTimeout)"

end
