(* ===== verification/SuperviseSafety.thy ===== *)
theory SuperviseSafety
  imports Supervise
begin

text \<open>
  The supervision of a child process: the published state is the truth, restarts are paced by
  the jittered exponential delay, and a shutdown ends with the process gone.
\<close>

section \<open>The published component\<close>

definition component_of :: "string \<Rightarrow> runtimeState \<Rightarrow> component" where
  "component_of name s = (case rs_components s name of None \<Rightarrow> zero_component | Some c \<Rightarrow> c)"

lemma component_of_publish [simp]:
  "component_of (cs_name spec) (sv_state (publish spec fn v)) = fn (component_of (cs_name spec) (sv_state v))"
  by (simp add: component_of_def publish_def update_def Let_def)

lemma component_of_other:
  "rs_components s' name = rs_components s name \<Longrightarrow> component_of name s' = component_of name s"
  by (simp add: component_of_def)

text \<open>What each part of a step leaves alone.\<close>

lemma publish_frame [simp]:
  "sv_phase (publish spec fn v) = sv_phase v" "sv_step (publish spec fn v) = sv_step v"
  "sv_ctxDone (publish spec fn v) = sv_ctxDone v" "sv_cmd (publish spec fn v) = sv_cmd v"
  "sv_calls (publish spec fn v) = sv_calls v" "sv_log (publish spec fn v) = sv_log v"
  "sv_lines (publish spec fn v) = sv_lines v" "sv_pending (publish spec fn v) = sv_pending v"
  by (simp_all add: publish_def)

lemma log_call_frame [simp]:
  "sv_phase (log_call sev m v) = sv_phase v" "sv_step (log_call sev m v) = sv_step v"
  "sv_ctxDone (log_call sev m v) = sv_ctxDone v" "sv_cmd (log_call sev m v) = sv_cmd v"
  "sv_calls (log_call sev m v) = sv_calls v" "sv_state (log_call sev m v) = sv_state v"
  "sv_lines (log_call sev m v) = sv_lines v" "sv_pending (log_call sev m v) = sv_pending v"
  "sv_log (log_call sev m v) = sv_log v @ [(sev, m)]"
  by (simp_all add: log_call_def)

lemma sys_calls_frame [simp]:
  "sv_phase (sys_calls now cs v) = sv_phase v" "sv_step (sys_calls now cs v) = sv_step v"
  "sv_ctxDone (sys_calls now cs v) = sv_ctxDone v" "sv_cmd (sys_calls now cs v) = sv_cmd v"
  "sv_state (sys_calls now cs v) = sv_state v" "sv_log (sys_calls now cs v) = sv_log v"
  "sv_calls (sys_calls now cs v) = sv_calls v @ map (\<lambda>c. (now, c)) cs"
  by (simp_all add: sys_calls_def)

lemma new_command_frame [simp]:
  "sv_phase (new_command pf spec v) = sv_phase v" "sv_step (new_command pf spec v) = sv_step v"
  "sv_ctxDone (new_command pf spec v) = sv_ctxDone v" "sv_state (new_command pf spec v) = sv_state v"
  "sv_calls (new_command pf spec v) = sv_calls v" "sv_log (new_command pf spec v) = sv_log v"
  "sv_cmd (new_command pf spec v) = pf_configure pf exec_Command"
  by (simp_all add: new_command_def)

lemma sup_output_frame [simp]:
  "sv_phase (sup_output st env bytes v) = sv_phase v" "sv_step (sup_output st env bytes v) = sv_step v"
  "sv_ctxDone (sup_output st env bytes v) = sv_ctxDone v" "sv_cmd (sup_output st env bytes v) = sv_cmd v"
  "sv_state (sup_output st env bytes v) = sv_state v" "sv_log (sup_output st env bytes v) = sv_log v"
  "sv_calls (sup_output st env bytes v) = sv_calls v"
  by (simp_all add: sup_output_def split: prod.split)

lemma sup_flush_frame:
  "sup_flush st env v = (e, w) \<Longrightarrow> sv_phase w = sv_phase v \<and> sv_step w = sv_step v \<and>
   sv_ctxDone w = sv_ctxDone v \<and> sv_cmd w = sv_cmd v \<and> sv_state w = sv_state v \<and>
   sv_log w = sv_log v \<and> sv_calls w = sv_calls v"
  by (auto simp: sup_flush_def split: prod.splits)

lemma sup_waited_frame:
  assumes "sup_waited env err v = (e, w)"
  shows "sv_phase w = sv_phase v" "sv_step w = sv_step v" "sv_ctxDone w = sv_ctxDone v"
    "sv_cmd w = sv_cmd v" "sv_state w = sv_state v" "sv_log w = sv_log v" "sv_calls w = sv_calls v"
  using assms by (auto simp: sup_waited_def Let_def dest!: sup_flush_frame split: prod.splits)

text \<open>The transitions, one case each.\<close>

lemma sup_step_cases [consumes 1, case_names cancel other stop begin_run failed started wrote
    exited gone terminate leave kill schedule timer]:
  assumes "sup_step pf spec v e = Some v'"
  obtains "e = SCancel" and "v' = v\<lparr>sv_ctxDone := True\<rparr>"
  | s where "e = SOther s" and "rs_components s (cs_name spec) = rs_components (sv_state v) (cs_name spec)"
      and "v' = v\<lparr>sv_state := s\<rparr>"
  | "e = SCheck" and "sv_phase v = AtTop" and "sv_ctxDone v" and "v' = v\<lparr>sv_phase := Returned\<rparr>"
  | "e = SCheck" and "sv_phase v = AtTop" and "\<not> sv_ctxDone v"
      and "v' = (new_command pf spec v)\<lparr>sv_phase := Starting\<rparr>"
  | t err where "e = SStart t (Inl err)" and "sv_phase v = Starting"
      and "v' = (publish spec (set_up False)
        (log_call SevError (LogFailedToStart (cs_name spec) err) v))\<lparr>sv_phase := AfterRun t\<rparr>"
  | t pid where "e = SStart t (Inr pid)" and "sv_phase v = Starting"
      and "v' = (log_call SevInfo (LogStarted (cs_name spec) pid)
        (publish spec set_running (v\<lparr>sv_cmd := (sv_cmd v)\<lparr>cmd_process := Some pid\<rparr>\<rparr>)))\<lparr>sv_phase := Running t\<rparr>"
  | st env bytes where "e = SOutput st env bytes" and "alive v" and "v' = sup_output st env bytes v"
  | env werr now t err w where "e = SExited env werr now" and "sv_phase v = Running t" and "\<not> sv_ctxDone v"
      and "sup_waited env werr v = (err, w)"
      and "v' = (log_call SevWarn (LogExited (cs_name spec) (duration_round (time_sub now t) millisecond) err)
        (publish spec (set_up False) w))\<lparr>sv_phase := AfterRun t\<rparr>"
  | env werr now err w where "e = SExited env werr now" and "alive v"
      and "sv_ctxDone v \<or> (\<forall>t. sv_phase v \<noteq> Running t)" and "sup_waited env werr v = (err, w)"
      and "v' = (publish spec (set_up False) w)\<lparr>sv_phase := Returned\<rparr>"
  | now t where "e = SCtxDone now" and "sv_ctxDone v" and "sv_phase v = Running t"
      and "v' = (sys_calls now (pf_terminate pf (sv_cmd v)) v)\<lparr>sv_phase := Terminating (now + shutdownGrace)\<rparr>"
  | now x where "e = SCtxDone now" and "sv_ctxDone v" and "sv_phase v = Waiting x"
      and "v' = v\<lparr>sv_phase := Returned\<rparr>"
  | now x where "e = SGrace now" and "sv_phase v = Terminating x" and "x \<le> now"
      and "v' = (sys_calls now (pf_kill pf (sv_cmd v)) v)\<lparr>sv_phase := Killed\<rparr>"
  | now raw armed t step delay where "e = SSchedule now raw armed" and "sv_phase v = AfterRun t"
      and "step = (if stableRuntime \<le> time_sub now t then 0 else sv_step v) + 1"
      and "delay = restartDelay raw step"
      and "v' = (log_call SevWarn (LogRestartScheduled (cs_name spec) (duration_round delay millisecond))
        (publish spec (set_restarting delay) v))\<lparr>sv_step := step, sv_phase := Waiting (armed + delay)\<rparr>"
  | now x where "e = STimer now" and "sv_phase v = Waiting x" and "x \<le> now" and "v' = v\<lparr>sv_phase := AtTop\<rparr>"
proof (cases e)
  case (SStart t r)
  with assms that(5,6) show ?thesis by (cases "sv_phase v"; cases r) (auto simp: sup_step_def)
next
  case (SExited env werr now)
  obtain err w where w: "sup_waited env werr v = (err, w)" by fastforce
  show ?thesis
  proof (cases "sv_phase v")
    case (Running t)
    with SExited assms w that(8) [of env werr now t err w] that(9) [of env werr now err w] show ?thesis
      by (cases "sv_ctxDone v") (auto simp: sup_step_def alive_def Let_def)
  next
    case (Terminating x)
    with SExited assms w that(9) [of env werr now err w] show ?thesis by (simp add: sup_step_def alive_def)
  next
    case Killed
    with SExited assms w that(9) [of env werr now err w] show ?thesis by (simp add: sup_step_def alive_def)
  qed (use SExited assms w in \<open>simp_all add: sup_step_def\<close>)
next
  case (SOutput st env bytes)
  with assms that(7) show ?thesis by (cases "sv_phase v") (auto simp: sup_step_def alive_def)
next
  case (SSchedule now raw armed)
  with assms that(13) show ?thesis by (cases "sv_phase v") (auto simp: sup_step_def Let_def)
next
  case (SCtxDone now)
  with assms that(10,11) show ?thesis by (cases "sv_phase v") (auto simp: sup_step_def split: if_splits)
next
  case (SGrace now)
  with assms that(12) show ?thesis by (cases "sv_phase v") (auto simp: sup_step_def split: if_splits)
next
  case (STimer now)
  with assms that(14) show ?thesis by (cases "sv_phase v") (auto simp: sup_step_def split: if_splits)
next
  case SCheck
  with assms that(3,4) show ?thesis by (cases "sv_phase v") (auto simp: sup_step_def split: if_splits)
next
  case (SOther s)
  with assms that(2) show ?thesis by (auto simp: sup_step_def split: if_splits)
next
  case SCancel
  with assms that(1) show ?thesis by (auto simp: sup_step_def)
qed

lemmas component_defs = alive_def set_up_def set_running_def set_restarting_def

definition schedules :: "sup_event list \<Rightarrow> nat" where
  "schedules es = length (filter (\<lambda>e. case e of SSchedule now raw armed \<Rightarrow> True | _ \<Rightarrow> False) es)"

lemma schedules_snoc [simp]:
  "schedules [] = 0"
  "schedules (es @ [e]) = schedules es + (case e of SSchedule now raw armed \<Rightarrow> 1 | _ \<Rightarrow> 0)"
  by (simp_all add: schedules_def split: sup_event.split)

lemma sup_step_component:
  assumes "sup_step pf spec v e = Some v'" and "cp_up (component_of (cs_name spec) (sv_state v)) = alive v"
  shows "cp_up (component_of (cs_name spec) (sv_state v')) = alive v' \<and>
    cp_enabled (component_of (cs_name spec) (sv_state v')) = cp_enabled (component_of (cs_name spec) (sv_state v)) \<and>
    cp_restarts (component_of (cs_name spec) (sv_state v')) = cp_restarts (component_of (cs_name spec) (sv_state v)) +
      (case e of SSchedule now raw armed \<Rightarrow> 1 | _ \<Rightarrow> 0) \<and>
    (alive v' \<longrightarrow> alive v \<or> cp_backoff (component_of (cs_name spec) (sv_state v')) = 0) \<and>
    (alive v \<longrightarrow> cp_backoff (component_of (cs_name spec) (sv_state v')) =
       cp_backoff (component_of (cs_name spec) (sv_state v)))"
  using assms(1)
proof (cases rule: sup_step_cases)
  case (other s)
  then have "component_of (cs_name spec) s = component_of (cs_name spec) (sv_state v)"
    by (intro component_of_other)
  with other assms(2) show ?thesis by (simp add: component_defs)
qed (use assms(2) in \<open>auto simp: component_defs dest!: sup_waited_frame(5)\<close>)

lemma published_truth_raw:
  assumes "sup_history pf spec s es v" and "\<not> cp_up (component_of (cs_name spec) s)"
  shows "cp_up (component_of (cs_name spec) (sv_state v)) = alive v \<and>
    cp_restarts (component_of (cs_name spec) (sv_state v)) =
      cp_restarts (component_of (cs_name spec) s) + of_nat (schedules es) \<and>
    cp_enabled (component_of (cs_name spec) (sv_state v)) = cp_enabled (component_of (cs_name spec) s) \<and>
    (alive v \<longrightarrow> cp_backoff (component_of (cs_name spec) (sv_state v)) = 0)"
  using assms(1)
proof (induction rule: sup_history.induct)
  case start
  then show ?case using assms(2) by (simp add: sup_init_def alive_def)
next
  case (event es v e v')
  with sup_step_component [OF event.hyps(2)] show ?case
    by (cases "alive v'"; cases "alive v") (auto split: sup_event.splits)
qed


definition sample_spec :: childSpec where
  "sample_spec = \<lparr>cs_name = ''mosdns'', cs_path = ''/usr/local/bin/mosdns'', cs_args = [''start''],
     cs_suppressStartupInfo = False\<rparr>"

definition sample_events :: "sup_event list" where
  "sample_events = [SCheck, SStart 9 (Inr 77), SOutput Stdout ((\<lambda>_. 9), (\<lambda>_. None)) ''up'']"

lemma sample_start:
  "\<exists>v. sup_history unix sample_spec newRuntimeState sample_events v \<and> sv_phase v = Running 9 \<and> \<not> sv_ctxDone v"
  by (simp add: sup.hist_run sample_events_def sup_step_def sup_init_def)

lemma sample_down: "\<not> cp_up (component_of (cs_name sample_spec) newRuntimeState)"
  by (simp add: sample_spec_def component_of_def newRuntimeState_def component_names_def zero_component_def)


section \<open>Pacing\<close>

text \<open>The specification: when the child was last started, and how many restarts in a row were
  scheduled after a run of less than five minutes.\<close>

definition streak_step :: "gotime \<times> nat \<Rightarrow> sup_event \<Rightarrow> gotime \<times> nat" where
  "streak_step p e =
     (case e of
        SStart t r \<Rightarrow> (t, snd p)
      | SSchedule now raw armed \<Rightarrow> (fst p, if stableRuntime \<le> time_sub now (fst p) then 1 else snd p + 1)
      | _ \<Rightarrow> p)"

definition streak :: "sup_event list \<Rightarrow> gotime \<times> nat" where
  "streak es = foldl streak_step (0, 0) es"

lemma streak_snoc: "streak (es @ [e]) = streak_step (streak es) e"
  by (simp add: streak_def)

lemma history_streak:
  "sup_history pf spec s es v \<Longrightarrow> sv_step v = of_nat (snd (streak es)) \<and>
   (\<forall>t. sv_phase v = Running t \<or> sv_phase v = AfterRun t \<longrightarrow> t = fst (streak es))"
proof (induction rule: sup_history.induct)
  case start
  then show ?case by (simp add: sup_init_def streak_def)
next
  case (event es v e v')
  from event.hyps(2) event.IH show ?case
    by (cases rule: sup_step_cases) (auto simp: streak_snoc streak_step_def dest!: sup_waited_frame(2))
qed

text \<open>C34. Restarts are paced. The delay before a restart is the jittered exponential delay of the
  number of restarts in a row without a stable run of five minutes, between 0.8 and 30 seconds;
  it is what is published; and the child is not started again before the timer's time.\<close>

theorem restarts_paced:
  assumes "sup_history pf spec s es v" and "sup_step pf spec v (SSchedule now raw armed) = Some v'"
  shows "\<exists>delay. delay = restartDelay raw (of_nat (snd (streak (es @ [SSchedule now raw armed])))) \<and>
    800 * millisecond \<le> delay \<and> delay \<le> restartMaximum \<and>
    cp_backoff (component_of (cs_name spec) (sv_state v')) = delay \<and>
    sv_phase v' = Waiting (armed + delay) \<and>
    (\<forall>t. t < armed + delay \<longrightarrow> sup_step pf spec v' (STimer t) = None)"
  using assms(2)
proof (cases rule: sup_step_cases)
  case (schedule now' raw' armed' t step delay)
  with history_streak [OF assms(1)] have "sv_step v = of_nat (snd (streak es))" "t = fst (streak es)" by auto
  with schedule have "step = of_nat (snd (streak (es @ [SSchedule now raw armed])))"
    by (simp add: streak_snoc streak_step_def)
  with schedule restartDelay_range [of raw step] show ?thesis
    by (intro exI [of _ delay]) (simp add: sup_step_def set_restarting_def)
qed simp_all

lemma sample_failed_start:
  "\<exists>v. sup_history unix sample_spec newRuntimeState [SCheck, SStart 9 (Inl (ErrNew ''no such file''))] v \<and>
     sv_phase v = AfterRun 9"
  by (simp add: sup.hist_run sup_step_def sup_init_def)

theorem restarts_paced_witness:
  "\<exists>v v'. sup_history unix sample_spec newRuntimeState [SCheck, SStart 9 (Inl (ErrNew ''no such file''))] v \<and>
     sup_step unix sample_spec v (SSchedule second 0 second) = Some v' \<and>
     cp_backoff (component_of (cs_name sample_spec) (sv_state v')) \<le> restartMaximum"
proof -
  obtain v where h: "sup_history unix sample_spec newRuntimeState [SCheck, SStart 9 (Inl (ErrNew ''no such file''))] v"
    and p: "sv_phase v = AfterRun 9"
    using sample_failed_start by blast
  then obtain v' where v': "sup_step unix sample_spec v (SSchedule second 0 second) = Some v'"
    by (simp add: sup_step_def Let_def)
  from restarts_paced [OF h v'] have "cp_backoff (component_of (cs_name sample_spec) (sv_state v')) \<le> restartMaximum"
    by auto
  with h v' show ?thesis by blast
qed

section \<open>Shutdown\<close>

text \<open>Steps the goroutine still takes once the context is done.\<close>

definition rank :: "supervised \<Rightarrow> nat" where
  "rank v = (case sv_phase v of Returned \<Rightarrow> 0 | AtTop \<Rightarrow> 1 | Killed \<Rightarrow> 1 | Terminating x \<Rightarrow> 2 | Waiting x \<Rightarrow> 2
     | Running t \<Rightarrow> 3 | AfterRun t \<Rightarrow> 3 | Starting \<Rightarrow> 4)"

definition own :: "sup_event \<Rightarrow> bool" where
  "own e \<longleftrightarrow> (case e of SCancel \<Rightarrow> False | SOther s \<Rightarrow> False | SOutput st env bytes \<Rightarrow> False | _ \<Rightarrow> True)"

lemma rank_zero: "rank v = 0 \<longleftrightarrow> sv_phase v = Returned"
  by (simp add: rank_def split: sup_phase.split)

lemma rank_le: "rank v \<le> 4"
  by (simp add: rank_def split: sup_phase.split)

lemma sup_step_rank:
  assumes "sup_step pf spec v e = Some v'" and "sv_ctxDone v"
  shows "sv_ctxDone v' \<and> (if own e then rank v' < rank v else rank v' = rank v)"
  using assms(1)
proof (cases rule: sup_step_cases)
  case (exited env werr now t err w)
  with assms(2) show ?thesis by simp
next
  case (gone env werr now err w)
  with assms(2) sup_waited_frame(3) [OF gone(4)] show ?thesis
    by (simp add: own_def rank_def alive_def split: sup_phase.splits)
qed (use assms(2) in \<open>auto simp: own_def rank_def\<close>)

text \<open>A step the goroutine can take.\<close>

definition next_event :: "supervised \<Rightarrow> sup_event" where
  "next_event v = (case sv_phase v of Returned \<Rightarrow> SCheck | AtTop \<Rightarrow> SCheck
     | Killed \<Rightarrow> SExited ((\<lambda>_. 0), (\<lambda>_. None)) None 0 | Terminating x \<Rightarrow> SGrace x | Waiting x \<Rightarrow> SCtxDone 0
     | Running t \<Rightarrow> SCtxDone 0 | AfterRun t \<Rightarrow> SSchedule 0 0 0 | Starting \<Rightarrow> SStart 0 (Inr 1))"

lemma next_event_enabled:
  assumes "sv_ctxDone v" and "sv_phase v \<noteq> Returned"
  shows "own (next_event v) \<and> sup_step pf spec v (next_event v) \<noteq> None"
  using assms by (cases "sv_phase v") (simp_all add: next_event_def own_def sup_step_def Let_def split: prod.split)

lemma returned_stays:
  "sv_phase v = Returned \<Longrightarrow> own e \<Longrightarrow> sup_step pf spec v e = None"
  by (cases e) (simp_all add: sup_step_def own_def split: prod.split)

text \<open>A shutdown ends. Once the context is done, each step of the goroutine brings it closer to
  its return, at most four steps away; until then it always has a step to take (the process is
  terminated, and killed after the grace period); other goroutines and the output of the
  process do not set it back; and when it has returned, the process is gone and no step starts
  another.\<close>

theorem shutdown_ends:
  assumes "sv_ctxDone v"
  shows "rank v \<le> 4 \<and> (rank v = 0 \<longleftrightarrow> sv_phase v = Returned) \<and>
    (\<forall>e v'. sup_step pf spec v e = Some v' \<longrightarrow>
       sv_ctxDone v' \<and> (if own e then rank v' < rank v else rank v' = rank v)) \<and>
    (sv_phase v \<noteq> Returned \<longrightarrow> (\<exists>e v'. own e \<and> sup_step pf spec v e = Some v')) \<and>
    (sv_phase v = Returned \<longrightarrow> \<not> alive v \<and> (\<forall>e. own e \<longrightarrow> sup_step pf spec v e = None))"
proof (intro conjI impI)
  show "\<forall>e v'. sup_step pf spec v e = Some v' \<longrightarrow>
      sv_ctxDone v' \<and> (if own e then rank v' < rank v else rank v' = rank v)"
    using sup_step_rank [OF _ assms] by blast
next
  assume "sv_phase v \<noteq> Returned"
  from next_event_enabled [OF assms this, of pf spec] show "\<exists>e v'. own e \<and> sup_step pf spec v e = Some v'"
    by blast
qed (simp_all add: rank_zero rank_le returned_stays alive_def)

theorem shutdown_ends_witness:
  "rank ((sup_init sample_spec newRuntimeState)\<lparr>sv_phase := Running 9, sv_ctxDone := True\<rparr>) \<le> 4"
  using shutdown_ends [of "(sup_init sample_spec newRuntimeState)\<lparr>sv_phase := Running 9, sv_ctxDone := True\<rparr>"]
  by simp

section \<open>Waiting for a listener\<close>

fun spaced_rounds :: "gotime \<Rightarrow> (gotime \<times> bool \<times> bool) list \<Rightarrow> bool" where
  "spaced_rounds t [] \<longleftrightarrow> True"
| "spaced_rounds t ((now, c, d) # rs) \<longleftrightarrow> t \<le> now \<and> spaced_rounds (now + 100 * millisecond) rs"

lemma wait_bounded:
  "spaced_rounds t rs \<Longrightarrow> rs \<noteq> [] \<Longrightarrow> deadline - t < int (length rs) * (100 * millisecond) - 100 * millisecond \<Longrightarrow>
   waitForTCP deadline rs \<noteq> None"
proof (induction deadline rs arbitrary: t rule: waitForTCP.induct)
  case (2 deadline now c d rs)
  show ?case
  proof (cases "now < deadline \<and> \<not> c \<and> \<not> d")
    case True
    with "2.prems" have "rs \<noteq> []" by auto
    moreover have "deadline - (now + 100 * millisecond) < int (length rs) * (100 * millisecond) - 100 * millisecond"
      using "2.prems" by (simp add: algebra_simps)
    ultimately show ?thesis using "2.IH" [of "now + 100 * millisecond"] "2.prems" True by simp
  qed auto
qed simp

lemma wait_result_sound:
  "waitForTCP deadline rs = Some r \<Longrightarrow>
   (case r of WaitReady \<Rightarrow> \<exists>now c. (now, True, c) \<in> set rs \<and> now < deadline
    | WaitCancelled \<Rightarrow> \<exists>now. (now, False, True) \<in> set rs
    | WaitTimeout \<Rightarrow> \<exists>now c d. (now, c, d) \<in> set rs \<and> deadline \<le> now)"
proof (induction deadline rs rule: waitForTCP.induct)
  case (2 deadline now c d rs)
  show ?case
  proof (cases "now < deadline \<and> \<not> c \<and> \<not> d")
    case True
    with 2 have "case r of WaitReady \<Rightarrow> \<exists>now c. (now, True, c) \<in> set rs \<and> now < deadline
      | WaitCancelled \<Rightarrow> \<exists>now. (now, False, True) \<in> set rs
      | WaitTimeout \<Rightarrow> \<exists>now c d. (now, c, d) \<in> set rs \<and> deadline \<le> now" by simp
    then show ?thesis by (cases r) auto
  next
    case False
    have mem: "(now, c, d) \<in> set ((now, c, d) # rs)" by simp
    show ?thesis
    proof (cases "now < deadline")
      case True
      with False "2.prems" show ?thesis by (cases c; cases d; cases r) auto
    next
      case late: False
      with "2.prems" have "r = WaitTimeout" by simp
      with late show ?thesis by (simp, intro exI [of _ now]) auto
    qed
  qed
qed simp

text \<open>\<open>waitForTCP\<close> returns: as its rounds are at least 100 ms apart, it ends within one round
  more than its timeout has tenths of a second; it reports ready only for a connection made
  before the deadline, and a timeout only at a time not before it.\<close>

theorem waitForTCP_returns:
  assumes "spaced_rounds t rs" and "0 \<le> timeout" and "timeout < (int (length rs) - 1) * (100 * millisecond)"
  shows "(case waitForTCP (t + timeout) rs of
      None \<Rightarrow> False
    | Some WaitReady \<Rightarrow> \<exists>now c. (now, True, c) \<in> set rs \<and> now < t + timeout
    | Some WaitCancelled \<Rightarrow> \<exists>now. (now, False, True) \<in> set rs
    | Some WaitTimeout \<Rightarrow> \<exists>now c d. (now, c, d) \<in> set rs \<and> t + timeout \<le> now)"
proof -
  have "waitForTCP (t + timeout) rs \<noteq> None"
    using assms by (intro wait_bounded) (auto simp: algebra_simps)
  then obtain r where "waitForTCP (t + timeout) rs = Some r" by auto
  from wait_result_sound [OF this] this show ?thesis by (cases r) simp_all
qed

theorem waitForTCP_returns_witness:
  "waitForTCP (0 + 150 * millisecond) [(0, False, False), (100 * millisecond, False, False), (200 * millisecond, False, False)] \<noteq> None"
  using waitForTCP_returns [of 0 "[(0, False, False), (100 * millisecond, False, False), (200 * millisecond, False, False)]"
      "150 * millisecond"]
  by (auto split: option.splits)

end
