(* ===== verification/ProcessSafety.thy ===== *)
theory ProcessSafety
  imports SuperviseSafety
begin

text \<open>
  How a supervised process is ended: which system calls the supervisor makes, when, and which
  processes they reach.
\<close>

section \<open>The calls\<close>

text \<open>The process started last.\<close>

fun pid_step :: "pid option \<Rightarrow> sup_event \<Rightarrow> pid option" where
  "pid_step p (SStart t (Inr pid)) = Some pid"
| "pid_step p e = p"

definition last_pid :: "sup_event list \<Rightarrow> pid option" where
  "last_pid es = foldl pid_step None es"

lemma last_pid_snoc [simp]:
  "last_pid [] = None"
  "last_pid (es @ [e]) = pid_step (last_pid es) e"
  by (simp_all add: last_pid_def)

text \<open>The specification: nothing, or SIGTERM to the group of the process, or that and SIGKILL
  after the grace period.\<close>

definition orderly :: "pid \<Rightarrow> (gotime \<times> syscall) list \<Rightarrow> bool" where
  "orderly pid calls \<longleftrightarrow>
     (\<exists>t1. calls = [(t1, Kill (- pid) SIGTERM)]) \<or>
     (\<exists>t1 t2. calls = [(t1, Kill (- pid) SIGTERM), (t2, Kill (- pid) SIGKILL)] \<and> t1 + shutdownGrace \<le> t2)"

definition calls_ok :: "sup_event list \<Rightarrow> supervised \<Rightarrow> bool" where
  "calls_ok es v \<longleftrightarrow>
     (case sv_phase v of
        Running t \<Rightarrow> sv_calls v = [] \<and> last_pid es \<noteq> None \<and> cmd_process (sv_cmd v) = last_pid es
      | Terminating x \<Rightarrow> (\<exists>pid. last_pid es = Some pid \<and> cmd_process (sv_cmd v) = Some pid \<and>
          sv_calls v = [(x - shutdownGrace, Kill (- pid) SIGTERM)])
      | Killed \<Rightarrow> (\<exists>pid. last_pid es = Some pid \<and> orderly pid (sv_calls v) \<and> length (sv_calls v) = 2)
      | Returned \<Rightarrow> sv_calls v = [] \<or> (\<exists>pid. last_pid es = Some pid \<and> orderly pid (sv_calls v))
      | _ \<Rightarrow> sv_calls v = [])"

lemma unix_simps [simp]:
  "pf_terminate unix c = unix_terminateProcess c" "pf_kill unix c = unix_killProcess c"
  "pf_configure unix c = unix_configureProcess c"
  by (simp_all add: unix_def)

lemmas process_defs = unix_terminateProcess_def unix_killProcess_def

lemma sup_step_calls_ok:
  assumes "sup_step unix spec v e = Some v'" and "calls_ok es v"
  shows "calls_ok (es @ [e]) v'"
  using assms(1)
proof (cases rule: sup_step_cases)
  case (wrote st env bytes)
  with assms(2) show ?thesis by (simp add: calls_ok_def split: sup_phase.splits)
next
  case (exited env werr now t err w)
  with assms(2) sup_waited_frame [OF exited(4)] show ?thesis by (simp add: calls_ok_def)
next
  case (gone env werr now err w)
  with assms(2) sup_waited_frame [OF gone(4)] show ?thesis
    by (auto simp: calls_ok_def alive_def orderly_def split: sup_phase.splits)
next
  case (kill now x)
  with assms(2) show ?thesis
    by (auto simp: calls_ok_def process_defs orderly_def)
next
  case (terminate now t)
  with assms(2) show ?thesis by (auto simp: calls_ok_def process_defs)
qed (use assms(2) in \<open>auto simp: calls_ok_def split: sup_phase.splits\<close>)

lemma sup_step_ctxDone: "sup_step pf spec v e = Some v' \<Longrightarrow> sv_ctxDone v \<Longrightarrow> sv_ctxDone v'"
  using sup_step_rank by blast

lemma sup_step_calls_done:
  assumes "sup_step pf spec v e = Some v'" and "sv_calls v \<noteq> [] \<or> (\<exists>x. sv_phase v = Terminating x) \<longrightarrow> sv_ctxDone v"
  shows "sv_calls v' \<noteq> [] \<or> (\<exists>x. sv_phase v' = Terminating x) \<longrightarrow> sv_ctxDone v'"
  using assms(1)
proof (cases rule: sup_step_cases)
  case (exited env werr now t err w)
  with assms(2) sup_waited_frame [OF exited(4)] show ?thesis by simp
next
  case (gone env werr now err w)
  with assms(2) sup_waited_frame [OF gone(4)] show ?thesis by simp
qed (use assms(2) in auto)

text \<open>C24. A child is asked before it is killed. The supervisor signals a process only once its own
  context is done; then it sends SIGTERM to the process group of the process it started last,
  exactly once, and SIGKILL, exactly once, at least five seconds later; it signals nothing
  else, and a process that runs undisturbed receives nothing.\<close>

theorem shutdown_signals:
  assumes "sup_history unix spec s es v"
  shows "(sv_calls v \<noteq> [] \<longrightarrow> sv_ctxDone v \<and> (\<exists>pid. last_pid es = Some pid \<and> orderly pid (sv_calls v))) \<and>
    ((\<exists>t. sv_phase v = Running t) \<longrightarrow> sv_calls v = []) \<and>
    (\<forall>x. sv_phase v = Terminating x \<longrightarrow> length (sv_calls v) = 1) \<and>
    (sv_phase v = Killed \<longrightarrow> length (sv_calls v) = 2)"
proof -
  have "calls_ok es v \<and> (sv_calls v \<noteq> [] \<or> (\<exists>x. sv_phase v = Terminating x) \<longrightarrow> sv_ctxDone v)"
    using assms
  proof (induction rule: sup_history.induct)
    case start
    then show ?case by (simp add: sup_init_def calls_ok_def)
  next
    case (event es v e v')
    with sup_step_calls_ok [OF event.hyps(2)] sup_step_calls_done [OF event.hyps(2)] show ?case by blast
  qed
  then show ?thesis by (auto simp: calls_ok_def orderly_def split: sup_phase.splits)
qed

definition stubborn_events :: "sup_event list" where
  "stubborn_events = [SCheck, SStart 9 (Inr 77), SCancel, SCtxDone 20, SGrace (20 + 5 * second)]"

lemma stubborn_child:
  "\<exists>v. sup_history unix sample_spec newRuntimeState stubborn_events v \<and> sv_phase v = Killed"
  by (simp add: sup.hist_run stubborn_events_def sup_step_def sup_init_def)

theorem shutdown_signals_witness:
  "\<exists>v. sup_history unix sample_spec newRuntimeState stubborn_events v \<and> length (sv_calls v) = 2"
proof -
  obtain v where v: "sup_history unix sample_spec newRuntimeState stubborn_events v" "sv_phase v = Killed"
    using stubborn_child by blast
  from shutdown_signals [OF v(1)] v show ?thesis by blast
qed

section \<open>The processes they reach\<close>

text \<open>The processes that found a session of their own.\<close>

definition leaves :: "proc_event list \<Rightarrow> pid \<Rightarrow> bool" where
  "leaves es p \<longleftrightarrow> PSetsid p \<in> set es"

definition has_left :: "proc_event list \<Rightarrow> proc_table \<Rightarrow> pid \<Rightarrow> bool" where
  "has_left es t c \<longleftrightarrow> (\<exists>p. leaves es p \<and> pt_child t p = Some c)"

text \<open>The children started so far are started with \<open>Setpgid\<close>.\<close>

definition grouped :: "proc_event list \<Rightarrow> bool" where
  "grouped es \<longleftrightarrow> (\<forall>p b. PStart p b \<in> set es \<longrightarrow> b)"

definition started :: "proc_event list \<Rightarrow> pid set" where
  "started es = {p. \<exists>b. PStart p b \<in> set es}"

text \<open>The invariant of the process table: a child's group holds only its descendants; a
  descendant is in it unless one of them left; and the supervisor is nobody's descendant.\<close>

definition table_ok :: "proc_event list \<Rightarrow> proc_table \<Rightarrow> bool" where
  "table_ok es t \<longleftrightarrow>
     (\<forall>p. p \<notin> set (pt_used t) \<longrightarrow> pt_group t p = None \<and> pt_child t p = None \<and> p \<notin> started es) \<and>
     (\<forall>p g. pt_group t p = Some g \<longrightarrow> g \<in> set (pt_used t)) \<and>
     (\<forall>p c. pt_child t p = Some c \<longrightarrow> c \<in> started es) \<and>
     (\<forall>c\<in>started es. pt_child t c = Some c) \<and>
     (\<forall>c g. c \<in> started es \<longrightarrow> pt_group t c = Some g \<longrightarrow> g = c) \<and>
     (\<forall>p c. pt_group t p = Some c \<longrightarrow> c \<in> started es \<longrightarrow> pt_child t p = Some c) \<and>
     (\<forall>p c g. pt_child t p = Some c \<longrightarrow> pt_group t p = Some g \<longrightarrow> g \<noteq> c \<longrightarrow> has_left es t c) \<and>
     pt_child t (pt_self t) = None \<and> pt_self t \<in> set (pt_used t)"

lemma table_okI:
  assumes "\<And>p. p \<notin> set (pt_used t) \<Longrightarrow> pt_group t p = None \<and> pt_child t p = None \<and> p \<notin> started es"
    and "\<And>p g. pt_group t p = Some g \<Longrightarrow> g \<in> set (pt_used t)"
    and "\<And>p c. pt_child t p = Some c \<Longrightarrow> c \<in> started es"
    and "\<And>c. c \<in> started es \<Longrightarrow> pt_child t c = Some c"
    and "\<And>c g. c \<in> started es \<Longrightarrow> pt_group t c = Some g \<Longrightarrow> g = c"
    and "\<And>p c. pt_group t p = Some c \<Longrightarrow> c \<in> started es \<Longrightarrow> pt_child t p = Some c"
    and "\<And>p c g. pt_child t p = Some c \<Longrightarrow> pt_group t p = Some g \<Longrightarrow> g \<noteq> c \<Longrightarrow> has_left es t c"
    and "pt_child t (pt_self t) = None" and "pt_self t \<in> set (pt_used t)"
  shows "table_ok es t"
  using assms unfolding table_ok_def by blast

lemma table_okD:
  assumes "table_ok es t"
  shows "p \<notin> set (pt_used t) \<Longrightarrow> pt_group t p = None \<and> pt_child t p = None \<and> p \<notin> started es"
    and "pt_group t p = Some g \<Longrightarrow> g \<in> set (pt_used t)"
    and "pt_child t p = Some c \<Longrightarrow> c \<in> started es"
    and "c \<in> started es \<Longrightarrow> pt_child t c = Some c"
    and "c \<in> started es \<Longrightarrow> pt_group t c = Some g \<Longrightarrow> g = c"
    and "pt_group t p = Some c \<Longrightarrow> c \<in> started es \<Longrightarrow> pt_child t p = Some c"
    and "pt_child t p = Some c \<Longrightarrow> pt_group t p = Some g \<Longrightarrow> g \<noteq> c \<Longrightarrow> has_left es t c"
    and "pt_child t (pt_self t) = None \<and> pt_self t \<in> set (pt_used t)"
  using assms unfolding table_ok_def by blast+

lemma started_snoc:
  "started (es @ [e]) = (case e of PStart p b \<Rightarrow> insert p (started es) | _ \<Rightarrow> started es)"
  by (auto simp: started_def split: proc_event.split)

lemma leaves_snoc: "leaves (es @ [e]) p \<longleftrightarrow> leaves es p \<or> e = PSetsid p"
  by (auto simp: leaves_def)

lemma has_left_mono:
  "has_left es t c \<Longrightarrow> (\<And>p. pt_child t p = Some c \<Longrightarrow> pt_child t' p = Some c) \<Longrightarrow> has_left (es @ [e]) t' c"
  by (auto simp: has_left_def leaves_snoc)

lemma has_left_setsid: "pt_child t p = Some c \<Longrightarrow> has_left (es @ [PSetsid p]) t c"
  by (auto simp: has_left_def leaves_snoc)

lemma proc_step_table_ok:
  assumes "proc_step t e = Some t'" and "table_ok es t" and "grouped (es @ [e])"
  shows "table_ok (es @ [e]) t'"
proof (cases e)
  case (PStart p b)
  then have b: "b" using assms(3) by (auto simp: grouped_def)
  from assms(1) PStart b have f: "fresh_pid p t"
    and t': "pt_used t' = p # pt_used t" "pt_group t' = (pt_group t)(p \<mapsto> p)"
      "pt_child t' = (pt_child t)(p \<mapsto> p)" "pt_self t' = pt_self t"
    by (auto simp: proc_step_def split: option.splits if_splits)
  from f have p: "p \<notin> set (pt_used t)" by (simp add: fresh_pid_def)
  note D = table_okD [OF assms(2)]
  from D(1) [OF p] have new: "pt_group t p = None" "pt_child t p = None" "p \<notin> started es" by auto
  have left: "has_left es t c \<Longrightarrow> has_left (es @ [PStart p b]) t' c" for c
    using new by (auto simp: t' elim!: has_left_mono)
  show ?thesis
    by (rule table_okI) (use p in \<open>auto simp: t' PStart started_snoc D(8) split: if_splits dest: D(1-6) intro!: left intro: D(7)\<close>)
next
  case (PFork q p)
  with assms(1) obtain h where f: "fresh_pid p t" and q: "pt_group t q = Some h"
    and t': "pt_used t' = p # pt_used t" "pt_group t' = (pt_group t)(p \<mapsto> h)"
      "pt_child t' = (pt_child t)(p := pt_child t q)" "pt_self t' = pt_self t"
    by (auto simp: proc_step_def split: option.splits if_splits)
  from f have p: "p \<notin> set (pt_used t)" by (simp add: fresh_pid_def)
  note D = table_okD [OF assms(2)]
  from D(1) [OF p] have new: "pt_group t p = None" "pt_child t p = None" "p \<notin> started es" by auto
  have left: "has_left es t c \<Longrightarrow> has_left (es @ [PFork q p]) t' c" for c
    using new by (auto simp: t' elim!: has_left_mono)
  show ?thesis
    by (rule table_okI) (use p q in \<open>auto simp: t' PFork started_snoc D(8) split: if_splits dest: D(1-6) intro!: left intro: D(7)\<close>)
next
  case (PSetsid p)
  with assms(1) obtain h where q: "pt_group t p = Some h" "h \<noteq> p"
    and t': "pt_used t' = pt_used t" "pt_group t' = (pt_group t)(p \<mapsto> p)"
      "pt_child t' = pt_child t" "pt_self t' = pt_self t"
    by (auto simp: proc_step_def split: option.splits if_splits)
  note D = table_okD [OF assms(2)]
  from q D(5) have new: "p \<notin> started es" by blast
  have used: "p \<in> set (pt_used t)" using q D(1) [of p] by auto
  have left: "has_left es t c \<Longrightarrow> has_left (es @ [PSetsid p]) t' c" for c
    by (auto simp: t' elim!: has_left_mono)
  have own: "pt_child t p = Some c \<Longrightarrow> has_left (es @ [PSetsid p]) t' c" for c
    using has_left_setsid [of t' p c es] by (simp add: t')
  show ?thesis
    by (rule table_okI) (use q new used in \<open>auto simp: t' PSetsid started_snoc D(8) split: if_splits dest: D(1-6) intro: left D(7) own\<close>)
next
  case (PExit p)
  with assms(1) have t': "pt_used t' = pt_used t" "pt_group t' = (pt_group t)(p := None)"
      "pt_child t' = pt_child t" "pt_self t' = pt_self t"
    by (auto simp: proc_step_def split: if_splits)
  note D = table_okD [OF assms(2)]
  have left: "has_left es t c \<Longrightarrow> has_left (es @ [PExit p]) t' c" for c
    by (auto simp: t' elim!: has_left_mono)
  show ?thesis
    by (rule table_okI) (auto simp: t' PExit started_snoc D(8) split: if_splits dest: D(1-6) intro!: left intro: D(7))
qed

lemma proc_history_table_ok:
  assumes "proc_history self g es t" and "self \<noteq> g"
  shows "grouped es \<Longrightarrow> table_ok es t \<and> pt_self t = self"
  using assms(1)
proof (induction rule: proc.invariant)
  case start
  show ?case by (auto simp: table_ok_def proc_init_def started_def)
next
  case (event es t e t')
  then have "grouped es" by (auto simp: grouped_def)
  with event proc_step_table_ok [of t e t' es] show ?case
    by (auto simp: proc_step_def split: proc_event.splits option.splits if_splits)
qed


definition family :: "proc_event list" where
  "family = [PStart 70 True, PFork 70 71, PStart 80 True, PFork 71 72]"

lemma family_history: "\<exists>t. proc_history 5 1 family t"
  by (simp add: proc.hist_run family_def proc_step_def proc_init_def fresh_pid_def)


end
