(* ===== verification/Entry.thy ===== *)
theory Entry
  imports ConfigSafety DoHBridge Supervisor Supervise
begin

text \<open>
  cmd/veladns/main.go: arguments, order of the startup, exit codes. The outcome of each call that
  leaves the process is an argument.
\<close>

section \<open>The children\<close>

definition unbound_spec :: "config \<Rightarrow> childSpec" where
  "unbound_spec cfg = \<lparr>cs_name = ''unbound'', cs_path = ''/usr/sbin/unbound'',
     cs_args = [''-d'', ''-c'', unboundRuntimeConfig],
     cs_suppressStartupInfo = (cf_logLevel cfg = ''warn'' \<or> cf_logLevel cfg = ''error'')\<rparr>"

definition unbound_recursive_spec :: "config \<Rightarrow> childSpec" where
  "unbound_recursive_spec cfg = \<lparr>cs_name = ''unbound_recursive'', cs_path = ''/usr/sbin/unbound'',
     cs_args = [''-d'', ''-c'', unboundRecursiveRuntimeConfig],
     cs_suppressStartupInfo = (cf_logLevel cfg = ''warn'' \<or> cf_logLevel cfg = ''error'')\<rparr>"

definition mosdns_spec :: childSpec where
  "mosdns_spec = \<lparr>cs_name = ''mosdns'', cs_path = ''/usr/local/bin/mosdns'',
     cs_args = [''start'', ''-c'', mosdnsRuntimeConfig], cs_suppressStartupInfo = False\<rparr>"

text \<open>What \<open>main\<close> does once the bridge is up, in order; the outcome of a wait only decides what
  is logged.\<close>

datatype startup_step =
    Supervise childSpec
  | Await string duration
  | Report severity string

definition startup :: "config \<Rightarrow> (string \<Rightarrow> goerr option) \<Rightarrow> startup_step list" where
  "startup cfg await =
     [Supervise (unbound_spec cfg), Supervise (unbound_recursive_spec cfg),
      Await ''127.0.0.1:5306'' (3 * second)] @
     (if await ''127.0.0.1:5306'' = None then []
      else [Report SevWarn ''Unbound is not ready; starting MosDNS in degraded mode'']) @
     [Await ''127.0.0.1:5305'' (3 * second)] @
     (if await ''127.0.0.1:5305'' = None then []
      else [Report SevWarn ''CN classification resolver is not ready'']) @
     [Supervise mosdns_spec, Await ''127.0.0.1:53'' (5 * second),
      (if await ''127.0.0.1:53'' = None
       then Report SevInfo (''ready mode='' @ (if cf_autoEnabled cfg then ''auto-forward'' else ''secure''))
       else Report SevWarn ''MosDNS is not ready and will keep restarting'')]"

section \<open>The program\<close>

datatype outcome =
    Exit int
  | Serve config "startup_step list" fs

text \<open>\<open>args\<close> are the arguments after the program's name; \<open>health\<close> is the result of the health
  check, \<open>bridge\<close> the one of starting the bridge.\<close>

definition veladns_main ::
  "string list \<Rightarrow> health_error option \<Rightarrow> (string \<Rightarrow> string) \<Rightarrow> runtime_calls \<Rightarrow> fs \<Rightarrow>
   (config \<Rightarrow> bridge_start_error + dohBridge) \<Rightarrow> (string \<Rightarrow> goerr option) \<Rightarrow> outcome" where
  "veladns_main args health getenv calls fs bridge await =
     (if args = [''version''] then Exit 0
      else if args = [''healthcheck''] then Exit (if health = None then 0 else 1)
      else if args \<noteq> [] then Exit 2
      else case loadConfig getenv of
        Inl e \<Rightarrow> Exit 2
      | Inr cfg \<Rightarrow>
          (case prepareRuntime calls cfg fs of
             (Some e, fs') \<Rightarrow> Exit 1
           | (None, fs') \<Rightarrow>
               (case bridge cfg of
                  Inl e \<Rightarrow> Exit 1
                | Inr b \<Rightarrow> Serve cfg (startup cfg await) fs')))"

section \<open>What runs\<close>

definition supervised_names :: "startup_step list \<Rightarrow> string list" where
  "supervised_names plan = concat (map (\<lambda>s. case s of Supervise c \<Rightarrow> [cs_name c] | _ \<Rightarrow> []) plan)"

lemma startup_children: "supervised_names (startup cfg await) = [''unbound'', ''unbound_recursive'', ''mosdns'']"
  by (simp add: supervised_names_def startup_def unbound_spec_def unbound_recursive_spec_def mosdns_spec_def)

lemma quiet_startup:
  "loadConfig getenv = Inr cfg \<Longrightarrow>
   cs_suppressStartupInfo (unbound_spec cfg) \<longleftrightarrow> cf_unboundLog cfg = ''0''"
  by (cases rule: loadConfig_cases) (auto simp: unbound_spec_def plain_config_def log_levels_def)

text \<open>C33. The program serves only from a prepared runtime. When \<open>main\<close> gets as far as starting
  children, it had no arguments, the configuration loaded, the four runtime configurations are
  rendered without a placeholder left, and the bridge listens; then the three children are
  supervised in their order whatever the waits returned, and the startup lines of Unbound are
  hidden exactly when its verbosity is 0. Otherwise it exits, with code 0 only for a version or
  a passed health check.\<close>

theorem serves_only_prepared:
  "(case veladns_main args health getenv calls fs bridge await of
      Exit code \<Rightarrow> code = 0 \<longleftrightarrow> args = [''version''] \<or> args = [''healthcheck''] \<and> health = None
    | Serve cfg plan fs' \<Rightarrow>
        args = [] \<and> loadConfig getenv = Inr cfg \<and> prepareRuntime calls cfg fs = (None, fs') \<and>
        list_all (\<lambda>(path, template, subst). \<exists>t. map_option f_data (fs template) = Some t \<and>
          map_option f_data (fs' path) = Some (subst t) \<and> \<not> contains (subst t) ''__'') (rendered_files cfg) \<and>
        (\<exists>b. bridge cfg = Inr b) \<and>
        supervised_names plan = [''unbound'', ''unbound_recursive'', ''mosdns''] \<and>
        (cs_suppressStartupInfo (unbound_spec cfg) \<longleftrightarrow> cf_unboundLog cfg = ''0''))"
proof (cases "args = []")
  case False
  then show ?thesis by (auto simp: veladns_main_def)
next
  case True
  show ?thesis
  proof (cases "loadConfig getenv")
    case (Inl e)
    with True show ?thesis by (simp add: veladns_main_def)
  next
    case (Inr cfg)
    obtain r fs' where p: "prepareRuntime calls cfg fs = (r, fs')" by fastforce
    show ?thesis
    proof (cases r)
      case None
      with p rendered_all [of calls cfg fs fs'] have rendered: "list_all (\<lambda>(path, template, subst). \<exists>t. map_option f_data (fs template) = Some t \<and>
          map_option f_data (fs' path) = Some (subst t) \<and> \<not> contains (subst t) ''__'') (rendered_files cfg)" by simp
      show ?thesis
      proof (cases "bridge cfg")
        case (Inr b)
        have "veladns_main args health getenv calls fs bridge await = Serve cfg (startup cfg await) fs'"
          using True \<open>loadConfig getenv = Inr cfg\<close> p None Inr by (simp add: veladns_main_def)
        then show ?thesis
          using True \<open>loadConfig getenv = Inr cfg\<close> p None Inr rendered startup_children [of cfg await]
            quiet_startup [OF \<open>loadConfig getenv = Inr cfg\<close>]
          by (simp only: outcome.case) blast
      qed (use True Inr p None in \<open>simp add: veladns_main_def\<close>)
    qed (use True Inr p in \<open>simp add: veladns_main_def\<close>)
  qed
qed

end
