(* ===== verification/System.thy ===== *)
theory System
  imports Entry SuperviseSafety SupervisorSafety BridgeSafety
begin

text \<open>
  The processes of VelaDNS together, from the moment the bridge is up (cmd/veladns/main.go): main
  with the rest of its startup plan, the \<open>superviseChild\<close> goroutines, the listeners of the bridge,
  the goroutine that sends the state, and, in the MosDNS process, the supervisor plugin that
  receives it. The children share one runtime state and one context; every critical section is
  one event, and they interleave freely.
\<close>

section \<open>The machine\<close>

datatype listener = BridgeUDP | BridgeTCP

record 'd system =
  sy_plan :: "startup_step list"
  sy_ctxDone :: bool
  sy_state :: runtimeState
  sy_children :: "(childSpec \<times> supervised) list"
  sy_listening :: "listener set"
  sy_queue :: "'d list"
  sy_plugin :: "supervisor option"
  sy_returned :: bool

datatype 'd sys_event =
    YPlan
  | YCancel
  | YChild nat sup_event
  | YServerStopped listener "goerr option"
  | YBridgeShutdown
  | YObserve gotime string dohObservation duration gotime
  | YSend gotime bool
  | YPluginUp
  | YPluginGone
  | YReceive gotime
  | YReturn

definition system_start :: "startup_step list \<Rightarrow> runtimeState \<Rightarrow> 'd system" where
  "system_start plan s =
     \<lparr>sy_plan = plan, sy_ctxDone = False, sy_state = s, sy_children = [], sy_listening = {BridgeUDP, BridgeTCP},
      sy_queue = [], sy_plugin = None, sy_returned = False\<rparr>"

text \<open>The process of MosDNS exists.\<close>

definition child_alive :: "string \<Rightarrow> 'd system \<Rightarrow> bool" where
  "child_alive name y \<longleftrightarrow> list_ex (\<lambda>(spec, v). cs_name spec = name \<and> alive v) (sy_children y)"

definition no_call_fails :: supervisor_calls where
  "no_call_fails = \<lparr>sc_resolve = None, sc_listen = None, sc_chmod = None, sc_register = None\<rparr>"

abbreviation (input) supervisorSocket :: string where
  "supervisorSocket \<equiv> ''/run/veladns/supervisor.sock''"

text \<open>A step of main; the outcome of an \<open>Await\<close> is already part of the plan.\<close>

definition plan_step :: "'d system \<Rightarrow> 'd system option" where
  "plan_step y =
     (case sy_plan y of
        [] \<Rightarrow> None
      | Supervise spec # rest \<Rightarrow>
          Some (y\<lparr>sy_plan := rest,
                  sy_children := sy_children y @ [(spec, (sup_init spec (sy_state y))\<lparr>sv_ctxDone := sy_ctxDone y\<rparr>)]\<rparr>)
      | Await address timeout # rest \<Rightarrow> Some (y\<lparr>sy_plan := rest\<rparr>)
      | Report sev message # rest \<Rightarrow> Some (y\<lparr>sy_plan := rest\<rparr>))"

text \<open>A step of a child's goroutine, on the shared state.\<close>

definition child_step :: "platform \<Rightarrow> nat \<Rightarrow> sup_event \<Rightarrow> 'd system \<Rightarrow> 'd system option" where
  "child_step pf i e y =
     (if i < length (sy_children y) \<and> (\<forall>s. e \<noteq> SOther s) \<and> e \<noteq> SCancel then
        (case sy_children y ! i of (spec, v) \<Rightarrow>
           (case sup_step pf spec (v\<lparr>sv_state := sy_state y\<rparr>) e of
              None \<Rightarrow> None
            | Some v' \<Rightarrow> Some (y\<lparr>sy_children := (sy_children y)[i := (spec, v')], sy_state := sv_state v'\<rparr>)))
      else None)"

definition sys_step ::
  "platform \<Rightarrow> (snapshot \<Rightarrow> 'd option) \<Rightarrow> ('d \<Rightarrow> snapshot option) \<Rightarrow> 'd system \<Rightarrow> 'd sys_event \<Rightarrow> 'd system option" where
  "sys_step pf marshal decode y e =
     (if sy_returned y then None
      else case e of
        YPlan \<Rightarrow> plan_step y
      | YCancel \<Rightarrow>
          Some (y\<lparr>sy_ctxDone := True,
                  sy_children := map (\<lambda>(spec, v). (spec, v\<lparr>sv_ctxDone := True\<rparr>)) (sy_children y)\<rparr>)
      | YChild i ce \<Rightarrow> child_step pf i ce y
      | YServerStopped l err \<Rightarrow>
          if l \<notin> sy_listening y \<or> err = None \<and> \<not> sy_ctxDone y then None
          else Some (y\<lparr>sy_listening := sy_listening y - {l},
                       sy_state := bridge_server_stopped err (sy_ctxDone y) (sy_state y)\<rparr>)
      | YBridgeShutdown \<Rightarrow>
          if \<not> sy_ctxDone y then None
          else Some (y\<lparr>sy_state := update ''doh_bridge'' (set_up False) (sy_state y)\<rparr>)
      | YObserve now tag result d retryAt \<Rightarrow>
          Some (y\<lparr>sy_state := observeDoHUpstream now tag result d retryAt (sy_state y)\<rparr>)
      | YSend now reach \<Rightarrow>
          if reach \<and> sy_plugin y = None then None
          else Some (y\<lparr>sy_queue := sy_queue y @ sendState marshal reach now (sy_state y)\<rparr>)
      | YPluginUp \<Rightarrow>
          if sy_plugin y \<noteq> None \<or> \<not> child_alive ''mosdns'' y then None
          else (case supervisor_initPlugin no_call_fails supervisorSocket of
                  Inl err \<Rightarrow> None
                | Inr p \<Rightarrow> Some (y\<lparr>sy_plugin := Some p, sy_queue := []\<rparr>))
      | YPluginGone \<Rightarrow> Some (y\<lparr>sy_plugin := None, sy_queue := []\<rparr>)
      | YReceive now \<Rightarrow>
          (case (sy_plugin y, sy_queue y) of
             (Some p, d # ds) \<Rightarrow> Some (y\<lparr>sy_plugin := Some (receive decode (d, now) p), sy_queue := ds\<rparr>)
           | _ \<Rightarrow> None)
      | YReturn \<Rightarrow>
          if sy_ctxDone y \<and> sy_plan y = [] \<and> list_all (\<lambda>(spec, v). sv_phase v = Returned) (sy_children y)
          then Some (y\<lparr>sy_returned := True\<rparr>) else None)"

definition sys_history ::
  "platform \<Rightarrow> (snapshot \<Rightarrow> 'd option) \<Rightarrow> ('d \<Rightarrow> snapshot option) \<Rightarrow> 'd system \<Rightarrow> 'd sys_event list \<Rightarrow>
   'd system \<Rightarrow> bool" where
  "sys_history pf marshal decode y0 es y \<longleftrightarrow> run_steps (sys_step pf marshal decode) y0 es = Some y"

interpretation system: machine "sys_step pf marshal decode" y0 "sys_history pf marshal decode y0"
  for pf marshal decode y0
  by unfold_locales (auto simp: sys_history_def run_steps_snoc)

end
