(* ===== verification/SystemSafety.thy ===== *)
theory SystemSafety
  imports System
begin

text \<open>
  What holds of the processes together: each child goes through a history of its own machine, a
  ready answer means that MosDNS runs and the bridge listens, and a shutdown ends with every
  child gone.
\<close>

section \<open>The transitions\<close>

lemma plan_step_cases [consumes 1, case_names supervise skip]:
  assumes "plan_step y = Some y'"
  obtains spec rest where "sy_plan y = Supervise spec # rest"
      and "y' = y\<lparr>sy_plan := rest, sy_children :=
        sy_children y @ [(spec, (sup_init spec (sy_state y))\<lparr>sv_ctxDone := sy_ctxDone y\<rparr>)]\<rparr>"
  | x rest where "sy_plan y = x # rest" and "\<forall>spec. x \<noteq> Supervise spec" and "y' = y\<lparr>sy_plan := rest\<rparr>"
proof (cases "sy_plan y")
  case (Cons x rest)
  with assms that show ?thesis by (cases x) (auto simp: plan_step_def)
qed (use assms in \<open>simp add: plan_step_def\<close>)

lemma child_step_cases:
  assumes "child_step pf i e y = Some y'"
  obtains spec v v' where "i < length (sy_children y)" and "sy_children y ! i = (spec, v)"
    and "\<forall>s. e \<noteq> SOther s" and "e \<noteq> SCancel"
    and "sup_step pf spec (v\<lparr>sv_state := sy_state y\<rparr>) e = Some v'"
    and "y' = y\<lparr>sy_children := (sy_children y)[i := (spec, v')], sy_state := sv_state v'\<rparr>"
  using assms by (auto simp: child_step_def split: if_splits prod.splits option.splits)

lemma sys_step_cases [consumes 1, case_names supervise skip cancel child stopped shutdown observe send
    plugin_up plugin_gone receive return]:
  assumes "sys_step pf marshal decode y e = Some y'"
  obtains spec rest where "e = YPlan" and "sy_plan y = Supervise spec # rest"
      and "y' = y\<lparr>sy_plan := rest, sy_children :=
        sy_children y @ [(spec, (sup_init spec (sy_state y))\<lparr>sv_ctxDone := sy_ctxDone y\<rparr>)]\<rparr>"
  | x rest where "e = YPlan" and "sy_plan y = x # rest" and "\<forall>spec. x \<noteq> Supervise spec" and "y' = y\<lparr>sy_plan := rest\<rparr>"
  | "e = YCancel" and "y' = y\<lparr>sy_ctxDone := True,
      sy_children := map (\<lambda>(spec, v). (spec, v\<lparr>sv_ctxDone := True\<rparr>)) (sy_children y)\<rparr>"
  | i ce spec v v' where "e = YChild i ce" and "i < length (sy_children y)" and "sy_children y ! i = (spec, v)"
      and "\<forall>s. ce \<noteq> SOther s" and "ce \<noteq> SCancel"
      and "sup_step pf spec (v\<lparr>sv_state := sy_state y\<rparr>) ce = Some v'"
      and "y' = y\<lparr>sy_children := (sy_children y)[i := (spec, v')], sy_state := sv_state v'\<rparr>"
  | l err where "e = YServerStopped l err" and "l \<in> sy_listening y" and "err \<noteq> None \<or> sy_ctxDone y"
      and "y' = y\<lparr>sy_listening := sy_listening y - {l},
        sy_state := bridge_server_stopped err (sy_ctxDone y) (sy_state y)\<rparr>"
  | "e = YBridgeShutdown" and "sy_ctxDone y"
      and "y' = y\<lparr>sy_state := update ''doh_bridge'' (set_up False) (sy_state y)\<rparr>"
  | now tag result d retryAt where "e = YObserve now tag result d retryAt"
      and "y' = y\<lparr>sy_state := observeDoHUpstream now tag result d retryAt (sy_state y)\<rparr>"
  | now reach where "e = YSend now reach"
      and "y' = y\<lparr>sy_queue := sy_queue y @ sendState marshal reach now (sy_state y)\<rparr>"
  | p where "e = YPluginUp" and "supervisor_initPlugin no_call_fails supervisorSocket = Inr p"
      and "y' = y\<lparr>sy_plugin := Some p, sy_queue := []\<rparr>"
  | "e = YPluginGone" and "y' = y\<lparr>sy_plugin := None, sy_queue := []\<rparr>"
  | now p d ds where "e = YReceive now" and "sy_plugin y = Some p" and "sy_queue y = d # ds"
      and "y' = y\<lparr>sy_plugin := Some (receive decode (d, now) p), sy_queue := ds\<rparr>"
  | "e = YReturn" and "sy_ctxDone y" and "sy_plan y = []"
      and "list_all (\<lambda>(spec, v). sv_phase v = Returned) (sy_children y)" and "y' = y\<lparr>sy_returned := True\<rparr>"
proof -
  from assms have live: "\<not> sy_returned y" by (auto simp: sys_step_def)
  show ?thesis
  proof (cases e)
    case YPlan
    with assms live have "plan_step y = Some y'" by (simp add: sys_step_def)
    then show ?thesis by (cases rule: plan_step_cases) (use YPlan that(1,2) in \<open>blast+\<close>)
  next
    case YCancel
    with assms live that(3) show ?thesis by (simp add: sys_step_def)
  next
    case (YChild i ce)
    with assms live have "child_step pf i ce y = Some y'" by (simp add: sys_step_def)
    then show ?thesis by (rule child_step_cases) (use YChild that(4) in \<open>blast+\<close>)
  next
    case (YServerStopped l err)
    with assms live have "l \<in> sy_listening y" "err \<noteq> None \<or> sy_ctxDone y"
      by (auto simp: sys_step_def split: if_splits)
    with YServerStopped assms live that(5) show ?thesis by (auto simp: sys_step_def)
  next
    case YBridgeShutdown
    with assms live that(6) show ?thesis by (simp add: sys_step_def split: if_splits)
  next
    case (YObserve now tag result d retryAt)
    with assms live that(7) show ?thesis by (simp add: sys_step_def)
  next
    case (YSend now reach)
    with assms live that(8) show ?thesis by (simp add: sys_step_def split: if_splits)
  next
    case YPluginUp
    with assms live that(9) show ?thesis by (simp add: sys_step_def split: if_splits sum.splits)
  next
    case YPluginGone
    with assms live that(10) show ?thesis by (simp add: sys_step_def)
  next
    case (YReceive now)
    with assms live that(11) show ?thesis by (simp add: sys_step_def split: option.splits list.splits)
  next
    case YReturn
    with assms live that(12) show ?thesis by (simp add: sys_step_def split: if_splits)
  qed
qed

section \<open>The children\<close>

lemma sup_step_others:
  assumes "sup_step pf spec v e = Some v'" and "\<forall>s. e \<noteq> SOther s" and "n \<noteq> cs_name spec"
  shows "rs_components (sv_state v') n = rs_components (sv_state v) n"
  using assms(1)
proof (cases rule: sup_step_cases)
  case (exited env werr now t err w)
  with assms(3) sup_waited_frame(5) [OF exited(4)] show ?thesis
    by (simp add: publish_def update_def Let_def log_call_def)
next
  case (gone env werr now err w)
  with assms(3) sup_waited_frame(5) [OF gone(4)] show ?thesis by (simp add: publish_def update_def Let_def)
qed (use assms(2,3) in \<open>auto simp: publish_def update_def Let_def log_call_def new_command_def\<close>)

lemma observe_components [simp]:
  "rs_components (observeDoHUpstream now tag result d retryAt s) = rs_components s"
  by (simp add: observeDoHUpstream_def Let_def)

lemma bridge_stopped_others:
  "n \<noteq> ''doh_bridge'' \<Longrightarrow> rs_components (bridge_server_stopped err c s) n = rs_components s n"
  by (simp add: bridge_server_stopped_def update_def Let_def)

text \<open>Whose component an event can change.\<close>

definition writer_of :: "'d system \<Rightarrow> 'd sys_event \<Rightarrow> string option" where
  "writer_of y e =
     (case e of
        YChild i ce \<Rightarrow> Some (cs_name (fst (sy_children y ! i)))
      | YServerStopped l err \<Rightarrow> Some ''doh_bridge''
      | YBridgeShutdown \<Rightarrow> Some ''doh_bridge''
      | _ \<Rightarrow> None)"

lemma sys_step_frame:
  assumes "sys_step pf marshal decode y e = Some y'" and "writer_of y e \<noteq> Some n"
  shows "rs_components (sy_state y') n = rs_components (sy_state y) n"
  using assms(1)
proof (cases rule: sys_step_cases)
  case (child i ce spec v v')
  with assms(2) sup_step_others [OF child(6,4), of n] show ?thesis by (auto simp: writer_of_def)
qed (use assms(2) in \<open>auto simp: writer_of_def bridge_stopped_others update_def Let_def\<close>)

lemma child_cancel:
  "sup_history pf spec s es v \<Longrightarrow> sup_history pf spec s (es @ [SCancel]) (v\<lparr>sv_ctxDone := True\<rparr>)"
  by (rule sup_history.event) (simp_all add: sup_step_def)

lemma child_other:
  assumes "sup_history pf spec s es v" and "rs_components s' (cs_name spec) = rs_components (sv_state v) (cs_name spec)"
  shows "sup_history pf spec s (es @ [SOther s']) (v\<lparr>sv_state := s'\<rparr>)"
  by (rule sup_history.event [OF assms(1)]) (simp add: sup_step_def assms(2))

text \<open>The part of a history that a child's own machine sees: \<open>v\<close> on the current state comes from a
  history that begins when the child was not running, and in which the goroutine itself did \<open>ps\<close>.\<close>

definition by_itself :: "sup_event \<Rightarrow> bool" where
  "by_itself e \<longleftrightarrow> (case e of SCancel \<Rightarrow> False | SOther s \<Rightarrow> False | _ \<Rightarrow> True)"

definition follows :: "platform \<Rightarrow> runtimeState \<Rightarrow> sup_event list \<Rightarrow> childSpec \<times> supervised \<Rightarrow> bool" where
  "follows pf s ps c \<longleftrightarrow>
     (\<exists>s0 es. sup_history pf (fst c) s0 es ((snd c)\<lparr>sv_state := s\<rparr>) \<and> filter by_itself es = ps \<and>
        \<not> cp_up (component_of (cs_name (fst c)) s0))"

lemma followsI:
  "sup_history pf spec s0 es w \<Longrightarrow> w = v\<lparr>sv_state := s\<rparr> \<Longrightarrow> \<not> cp_up (component_of (cs_name spec) s0) \<Longrightarrow>
   filter by_itself es = ps \<Longrightarrow> follows pf s ps (spec, v)"
  by (auto simp: follows_def)

lemma followsE:
  assumes "follows pf s ps (spec, v)"
  obtains s0 es where "sup_history pf spec s0 es (v\<lparr>sv_state := s\<rparr>)"
    and "\<not> cp_up (component_of (cs_name spec) s0)" and "filter by_itself es = ps"
  using assms by (auto simp: follows_def)

lemma follows_other:
  "follows pf s ps (spec, v) \<Longrightarrow> rs_components s' (cs_name spec) = rs_components s (cs_name spec) \<Longrightarrow>
   follows pf s' ps (spec, v)"
  by (elim followsE) (rule followsI [OF child_other [of _ _ _ _ "v\<lparr>sv_state := s\<rparr>" s']], simp_all add: by_itself_def)

lemma follows_cancel:
  assumes "follows pf s ps (spec, v)"
  shows "follows pf s ps (spec, v\<lparr>sv_ctxDone := True\<rparr>)"
proof -
  have "v\<lparr>sv_state := s, sv_ctxDone := True\<rparr> = v\<lparr>sv_ctxDone := True, sv_state := s\<rparr>" by simp
  with assms show ?thesis
    by (elim followsE) (rule followsI [OF child_cancel [of _ _ _ _ "v\<lparr>sv_state := s\<rparr>"]], simp_all add: by_itself_def)
qed

lemma follows_step:
  "follows pf s ps (spec, v) \<Longrightarrow> sup_step pf spec (v\<lparr>sv_state := s\<rparr>) e = Some v' \<Longrightarrow> by_itself e \<Longrightarrow>
   follows pf (sv_state v') (ps @ [e]) (spec, v')"
  by (elim followsE) (rule followsI, rule sup_history.event, auto)

lemma follows_start:
  assumes "\<not> cp_up (component_of (cs_name spec) s)"
  shows "follows pf s [] (spec, (sup_init spec s)\<lparr>sv_ctxDone := b\<rparr>)"
proof -
  have "sup_init spec s = (sup_init spec s)\<lparr>sv_state := s\<rparr>" "(sup_init spec s)\<lparr>sv_ctxDone := False\<rparr> = sup_init spec s"
    by (simp_all add: sup_init_def)
  with followsI [OF sup_history.start _ assms, where v = "sup_init spec s" and ps = "[]" and pf = pf]
  have "follows pf s [] (spec, (sup_init spec s)\<lparr>sv_ctxDone := False\<rparr>)" by simp
  then show ?thesis using follows_cancel [of pf s "[]" spec "(sup_init spec s)\<lparr>sv_ctxDone := False\<rparr>"]
    by (cases b) simp_all
qed

lemma follows_up:
  assumes "follows pf s ps (spec, v)"
  shows "cp_up (component_of (cs_name spec) s) = alive v"
proof -
  from assms obtain s0 es where "sup_history pf spec s0 es (v\<lparr>sv_state := s\<rparr>)"
    "\<not> cp_up (component_of (cs_name spec) s0)" by (rule followsE)
  from published_truth_raw [OF this] show ?thesis by (simp add: alive_def)
qed

section \<open>What every step keeps\<close>

definition own_events :: "nat \<Rightarrow> 'd sys_event list \<Rightarrow> sup_event list" where
  "own_events i es = concat (map (\<lambda>e. case e of YChild j ce \<Rightarrow> if j = i then [ce] else [] | _ \<Rightarrow> []) es)"

lemma own_events_simps [simp]:
  "own_events i [] = []"
  "own_events i (es @ [e]) = own_events i es @ (case e of YChild j ce \<Rightarrow> if j = i then [ce] else [] | _ \<Rightarrow> [])"
  by (simp_all add: own_events_def)

definition names :: "'d system \<Rightarrow> string list" where
  "names y = map (\<lambda>c. cs_name (fst c)) (sy_children y) @ supervised_names (sy_plan y)"

text \<open>The components of distinct writers, the children not yet started, and each child's own
  history.\<close>

definition coherent :: "platform \<Rightarrow> 'd sys_event list \<Rightarrow> 'd system \<Rightarrow> bool" where
  "coherent pf es y \<longleftrightarrow>
     distinct (''doh_bridge'' # names y) \<and>
     (\<forall>i < length (sy_children y). follows pf (sy_state y) (own_events i es) (sy_children y ! i)) \<and>
     (\<forall>i \<ge> length (sy_children y). own_events i es = []) \<and>
     (\<forall>n \<in> set (supervised_names (sy_plan y)). \<not> cp_up (component_of n (sy_state y)))"

lemma coherentD:
  assumes "coherent pf es y"
  shows "distinct (''doh_bridge'' # names y)"
    and "i < length (sy_children y) \<Longrightarrow> follows pf (sy_state y) (own_events i es) (sy_children y ! i)"
    and "length (sy_children y) \<le> i \<Longrightarrow> own_events i es = []"
    and "n \<in> set (supervised_names (sy_plan y)) \<Longrightarrow> \<not> cp_up (component_of n (sy_state y))"
  using assms by (auto simp: coherent_def)

lemma supervised_names_Cons [simp]:
  "supervised_names [] = []"
  "supervised_names (Supervise spec # rest) = cs_name spec # supervised_names rest"
  "(\<And>spec. x \<noteq> Supervise spec) \<Longrightarrow> supervised_names (x # rest) = supervised_names rest"
  by (simp_all add: supervised_names_def split: startup_step.split)

text \<open>A step that changes neither the children nor their components.\<close>

lemma coherent_frame:
  assumes "coherent pf es y" and "sy_children y' = sy_children y"
    and "set (supervised_names (sy_plan y')) = set (supervised_names (sy_plan y))"
    and "names y' = names y" and "\<And>i ce. e \<noteq> YChild i ce"
    and "\<And>n. n \<noteq> ''doh_bridge'' \<Longrightarrow> rs_components (sy_state y') n = rs_components (sy_state y) n"
  shows "coherent pf (es @ [e]) y'"
proof -
  note D = coherentD [OF assms(1)]
  have own: "own_events i (es @ [e]) = own_events i es" for i using assms(5) by (cases e) auto
  have "follows pf (sy_state y') (own_events i es) (sy_children y ! i)" if i: "i < length (sy_children y)" for i
  proof (cases "sy_children y ! i")
    case (Pair spec v)
    with i have "cs_name spec \<in> set (names y)" by (force simp: names_def in_set_conv_nth)
    with D(1) have "cs_name spec \<noteq> ''doh_bridge''" by auto
    with follows_other [of pf "sy_state y" _ spec v "sy_state y'"] D(2) [OF i] assms(6) Pair show ?thesis by simp
  qed
  moreover have "\<not> cp_up (component_of n (sy_state y'))" if "n \<in> set (supervised_names (sy_plan y))" for n
  proof -
    from that D(1) have "n \<noteq> ''doh_bridge''" by (auto simp: names_def)
    with assms(6) D(4) [OF that] show ?thesis by (simp add: component_of_def)
  qed
  ultimately show ?thesis using D(1,3) assms(2,3,4) by (simp add: coherent_def own del: own_events_simps(2))
qed

lemma coherent_start_child:
  assumes "coherent pf es y" and "sy_plan y = Supervise spec # rest"
    and "y' = y\<lparr>sy_plan := rest, sy_children :=
      sy_children y @ [(spec, (sup_init spec (sy_state y))\<lparr>sv_ctxDone := sy_ctxDone y\<rparr>)]\<rparr>"
  shows "coherent pf (es @ [YPlan]) y'"
proof -
  note D = coherentD [OF assms(1)]
  have "\<not> cp_up (component_of (cs_name spec) (sy_state y))" using D(4) assms(2) by simp
  from follows_start [OF this] D(1-3) D(4) assms(2,3) show ?thesis
    by (auto simp: coherent_def names_def nth_append not_less less_Suc_eq)
qed

lemma coherent_cancel:
  assumes "coherent pf es y"
    and "y' = y\<lparr>sy_ctxDone := True, sy_children := map (\<lambda>(spec, v). (spec, v\<lparr>sv_ctxDone := True\<rparr>)) (sy_children y)\<rparr>"
  shows "coherent pf (es @ [YCancel]) y'"
proof -
  note D = coherentD [OF assms(1)]
  have "names y' = names y" by (simp add: names_def assms(2) case_prod_beta)
  moreover have "follows pf (sy_state y) (own_events i es) (sy_children y' ! i)" if "i < length (sy_children y)" for i
    using D(2) [OF that] follows_cancel that by (cases "sy_children y ! i") (simp add: assms(2))
  ultimately show ?thesis using D(1,3,4) by (simp add: coherent_def assms(2))
qed

lemma coherent_child:
  assumes "coherent pf es y" and "i < length (sy_children y)" and "sy_children y ! i = (spec, v)"
    and "\<forall>s. ce \<noteq> SOther s" and "ce \<noteq> SCancel"
    and "sup_step pf spec (v\<lparr>sv_state := sy_state y\<rparr>) ce = Some v'"
    and "y' = y\<lparr>sy_children := (sy_children y)[i := (spec, v')], sy_state := sv_state v'\<rparr>"
  shows "coherent pf (es @ [YChild i ce]) y'"
proof -
  note D = coherentD [OF assms(1)]
  have other: "rs_components (sv_state v') n = rs_components (sy_state y) n" if "n \<noteq> cs_name spec" for n
    using sup_step_others [OF assms(6,4) that] by simp
  have "map (\<lambda>c. cs_name (fst c)) (sy_children y') = map (\<lambda>c. cs_name (fst c)) (sy_children y)"
    using assms(2,3,7) by (simp add: map_update list_update_same_conv)
  then have names: "names y' = names y" by (simp add: names_def assms(7))
  have "follows pf (sv_state v') (own_events j (es @ [YChild i ce])) (sy_children y' ! j)"
    if j: "j < length (sy_children y)" for j
  proof (cases "j = i")
    case True
    have "by_itself ce" using assms(4,5) by (simp add: by_itself_def split: sup_event.split)
    with follows_step [OF _ assms(6)] D(2) [OF j] True assms(2,3,7) show ?thesis by simp
  next
    case False
    obtain spec' w where w: "sy_children y ! j = (spec', w)" by fastforce
    have "distinct (map (\<lambda>c. cs_name (fst c)) (sy_children y))" using D(1) by (simp add: names_def)
    with False j assms(2,3) w have "cs_name spec' \<noteq> cs_name spec"
      by (metis (no_types, lifting) fst_conv length_map nth_eq_iff_index_eq nth_map)
    with follows_other [OF _ other] D(2) [OF j] False j w assms(7) show ?thesis by simp
  qed
  moreover have "\<not> cp_up (component_of n (sv_state v'))" if n: "n \<in> set (supervised_names (sy_plan y))" for n
  proof -
    have "cs_name spec \<in> set (map (\<lambda>c. cs_name (fst c)) (sy_children y))"
      using assms(2,3) by (force simp: in_set_conv_nth)
    with n D(1) have "n \<noteq> cs_name spec" by (auto simp: names_def)
    with other D(4) [OF n] show ?thesis by (simp add: component_of_def)
  qed
  ultimately show ?thesis using D(1,3) assms(2,7) names by (simp add: coherent_def)
qed

lemma coherent_step:
  assumes "sys_step pf marshal decode y e = Some y'" and "coherent pf es y"
  shows "coherent pf (es @ [e]) y'"
  using assms(1)
proof (cases rule: sys_step_cases)
  case (supervise spec rest)
  with coherent_start_child [OF assms(2)] show ?thesis by simp
next
  case cancel
  with coherent_cancel [OF assms(2)] show ?thesis by simp
next
  case (child i ce spec v v')
  with coherent_child [OF assms(2)] show ?thesis by simp
qed (rule coherent_frame [OF assms(2)];
     simp add: names_def bridge_stopped_others update_def Let_def)+

lemma coherent_start:
  assumes "distinct (''doh_bridge'' # supervised_names plan)"
    and "\<forall>n \<in> set (supervised_names plan). \<not> cp_up (component_of n s)"
  shows "coherent pf [] (system_start plan s)"
  using assms by (auto simp: coherent_def system_start_def names_def)

lemma coherent_history:
  assumes "sys_history pf marshal decode (system_start plan s) es y"
    and "distinct (''doh_bridge'' # supervised_names plan)"
    and "\<forall>n \<in> set (supervised_names plan). \<not> cp_up (component_of n s)"
  shows "coherent pf es y"
  using assms(1)
proof (induction rule: system.invariant)
  case start
  show ?case using assms(2,3) by (rule coherent_start)
next
  case (event es y e y')
  from coherent_step [OF event(2,3)] show ?case .
qed

lemma names_history:
  assumes "sys_history pf marshal decode (system_start plan s) es y"
  shows "names y = supervised_names plan"
  using assms
proof (induction rule: system.invariant)
  case start
  show ?case by (simp add: names_def system_start_def)
next
  case (event es y e y')
  from event(2) have "names y' = names y"
  proof (cases rule: sys_step_cases)
    case (child i ce spec v v')
    have "map (\<lambda>c. cs_name (fst c)) (sy_children y') = map (\<lambda>c. cs_name (fst c)) (sy_children y)"
      using child by (simp add: map_update list_update_same_conv)
    with child show ?thesis by (simp add: names_def)
  qed (simp_all add: names_def case_prod_beta)
  with event(3) show ?case by simp
qed

lemma child_alive_iff:
  "child_alive n y \<longleftrightarrow>
   (\<exists>j < length (sy_children y). cs_name (fst (sy_children y ! j)) = n \<and> alive (snd (sy_children y ! j)))"
  by (simp add: child_alive_def list_ex_length case_prod_beta)

lemma up_is_alive:
  assumes "coherent pf es y" and "n \<in> set (names y)"
  shows "cp_up (component_of n (sy_state y)) = child_alive n y"
proof -
  note D = coherentD [OF assms(1)]
  have "distinct (names y)" using D(1) by simp
  show ?thesis
  proof (cases "n \<in> set (supervised_names (sy_plan y))")
    case True
    with \<open>distinct (names y)\<close> have "\<not> child_alive n y"
      by (force simp: child_alive_iff names_def)
    with D(4) [OF True] show ?thesis by simp
  next
    case False
    with assms(2) obtain i where i: "i < length (sy_children y)" "n = cs_name (fst (sy_children y ! i))"
      by (auto simp: names_def in_set_conv_nth)
    obtain spec v where c: "sy_children y ! i = (spec, v)" by fastforce
    have "cp_up (component_of n (sy_state y)) = alive v"
      using follows_up [of pf "sy_state y" _ spec v] D(2) [OF i(1)] c i(2) by simp
    moreover have "child_alive n y = alive v"
    proof
      assume "child_alive n y"
      then obtain j where j: "j < length (sy_children y)" "cs_name (fst (sy_children y ! j)) = n"
          "alive (snd (sy_children y ! j))"
        by (auto simp: child_alive_iff)
      have "distinct (map (\<lambda>c. cs_name (fst c)) (sy_children y))" using \<open>distinct (names y)\<close> by (simp add: names_def)
      with i j have "j = i" by (metis (no_types, lifting) length_map nth_eq_iff_index_eq nth_map)
      with j c show "alive v" by simp
    next
      assume "alive v"
      with i c show "child_alive n y" by (auto simp: child_alive_iff)
    qed
    ultimately show ?thesis by simp
  qed
qed

section \<open>The bridge and the known components\<close>

definition served :: "'d system \<Rightarrow> bool" where
  "served y \<longleftrightarrow> well_known (sy_state y) \<and>
     (cp_up (component_of ''doh_bridge'' (sy_state y)) \<longrightarrow> sy_listening y = {BridgeUDP, BridgeTCP} \<or> sy_ctxDone y)"

lemma sup_step_well_known:
  assumes "sup_step pf spec v e = Some v'" and "\<forall>s. e \<noteq> SOther s" and "well_known (sv_state v)"
  shows "well_known (sv_state v')"
  using assms(1)
proof (cases rule: sup_step_cases)
  case (exited env werr now t err w)
  with assms(3) sup_waited_frame(5) [OF exited(4)] show ?thesis
    by (simp add: publish_def log_call_def update_well_known set_up_def)
next
  case (gone env werr now err w)
  with assms(3) sup_waited_frame(5) [OF gone(4)] show ?thesis
    by (simp add: publish_def update_well_known set_up_def)
qed (use assms(2,3) in \<open>auto simp: publish_def log_call_def new_command_def set_up_def set_running_def
    set_restarting_def intro!: update_well_known\<close>)

lemma component_of_update [simp]:
  "component_of n (update n' fn s) = (if n = n' then fn (component_of n s) else component_of n s)"
  by (simp add: component_of_def update_def Let_def)

lemma served_step:
  assumes "sys_step pf marshal decode y e = Some y'" and "coherent pf es y" and "served y"
  shows "served y'"
  using assms(1)
proof (cases rule: sys_step_cases)
  case (child i ce spec v v')
  have "cs_name spec \<in> set (names y)" using child(2,3) by (force simp: names_def in_set_conv_nth)
  with coherentD(1) [OF assms(2)] have "''doh_bridge'' \<noteq> cs_name spec" by auto
  from sup_step_others [OF child(6,4) this] sup_step_well_known [OF child(6,4)] assms(3) child(7)
  show ?thesis by (simp add: served_def component_of_def)
next
  case (stopped l err)
  with assms(3) show ?thesis
    by (auto simp: served_def bridge_server_stopped_def set_up_def intro!: update_well_known)
next
  case shutdown
  with assms(3) show ?thesis by (auto simp: served_def set_up_def intro!: update_well_known)
next
  case (observe now tag result d retryAt)
  with assms(3) show ?thesis by (simp add: served_def component_of_def)
qed (use assms(3) in \<open>auto simp: served_def\<close>)

lemma exchange_components:
  "exchange W cd env query u s = (r, u', s') \<Longrightarrow> rs_components s' = rs_components s"
  by (auto simp: exchange_def doh_record_def Let_def split: prod.splits sum.splits if_splits)

lemma register_components [simp]: "rs_components (registerDoHUpstream tag s) = rs_components s"
  by (simp add: registerDoHUpstream_def split: option.split)

lemma probe_all_components:
  "probe_all W cd rcodes envs query us s = (us', s', log) \<Longrightarrow> rs_components s' = rs_components s"
proof (induction us arbitrary: s us' log)
  case (Cons u us)
  obtain r u' t where x: "exchange W cd (envs (u_tag u)) query (u\<lparr>u_observed := True\<rparr>)
      (registerDoHUpstream (u_tag u) s) = (r, u', t)"
    by (metis prod.exhaust)
  from exchange_components [OF x] Cons.prems Cons.IH [of t] x show ?case
    by (cases r) (auto simp: attachDoHObservation_def probeDoHUpstream_def split: prod.splits)
qed auto

lemma attach_all_components: "attach_all us s = (us', s') \<Longrightarrow> rs_components s' = rs_components s"
  by (induction us arbitrary: s us' s') (fastforce simp: attachDoHObservation_def split: prod.splits)+

lemma bridge_started:
  assumes "startDoHBridge W cd rcodes envs query lu lt auto dns s = (Inr b, s0)"
  shows "rs_components s0 = rs_components (update ''doh_bridge'' (set_up True) s)"
proof -
  obtain us s1 log where p: "probe_all W cd rcodes envs query (autoDoHUpstreams auto dns) s = (us, s1, log)"
    by (metis prod.exhaust)
  obtain vs s2 where a: "attach_all directDoHUpstreams s1 = (vs, s2)" by fastforce
  from probe_all_components [OF p] attach_all_components [OF a] p a assms show ?thesis
    by (auto simp: startDoHBridge_def selectDoHUpstreams_def update_def Let_def split: option.splits)
qed

section \<open>A ready answer\<close>

text \<open>The moments of a history: the state \<open>y1\<close> when it was sent at \<open>t\<close>, and the rest.\<close>

definition sent ::
  "platform \<Rightarrow> (snapshot \<Rightarrow> 'd option) \<Rightarrow> ('d \<Rightarrow> snapshot option) \<Rightarrow> 'd system \<Rightarrow> 'd sys_event list \<Rightarrow>
   'd sys_event list \<Rightarrow> 'd system \<Rightarrow> gotime \<Rightarrow> 'd sys_event list \<Rightarrow> bool" where
  "sent pf marshal decode y0 es es1 y1 t es2 \<longleftrightarrow>
     es = es1 @ YSend t True # es2 \<and> sys_history pf marshal decode y0 es1 y1"

lemma sent_snoc: "sent pf marshal decode y0 es es1 y1 t es2 \<Longrightarrow> sent pf marshal decode y0 (es @ [e]) es1 y1 t (es2 @ [e])"
  by (simp add: sent_def)

definition delivered ::
  "platform \<Rightarrow> (snapshot \<Rightarrow> 'd option) \<Rightarrow> ('d \<Rightarrow> snapshot option) \<Rightarrow> 'd system \<Rightarrow> 'd sys_event list \<Rightarrow>
   supervisor \<Rightarrow> bool" where
  "delivered pf marshal decode y0 es p \<longleftrightarrow>
     (\<exists>es1 y1 t es2 r es3. sent pf marshal decode y0 es es1 y1 t (es2 @ YReceive r # es3) \<and>
        su_snapshot p = state_snapshot t (sy_state y1) \<and> su_receivedAt p = r)"

lemma delivered_snoc:
  assumes "delivered pf marshal decode y0 es p"
  shows "delivered pf marshal decode y0 (es @ [e]) p"
proof -
  from assms obtain es1 y1 t es2 r es3 where "sent pf marshal decode y0 es es1 y1 t (es2 @ YReceive r # es3)"
      and p: "su_snapshot p = state_snapshot t (sy_state y1)" "su_receivedAt p = r"
    by (auto simp: delivered_def)
  from sent_snoc [OF this(1), of e] have "sent pf marshal decode y0 (es @ [e]) es1 y1 t (es2 @ YReceive r # (es3 @ [e]))"
    by simp
  with p show ?thesis unfolding delivered_def by blast
qed

definition queued ::
  "platform \<Rightarrow> (snapshot \<Rightarrow> 'd option) \<Rightarrow> ('d \<Rightarrow> snapshot option) \<Rightarrow> 'd system \<Rightarrow> 'd sys_event list \<Rightarrow>
   'd \<Rightarrow> bool" where
  "queued pf marshal decode y0 es d \<longleftrightarrow>
     (\<exists>es1 y1 t es2. sent pf marshal decode y0 es es1 y1 t es2 \<and> marshal (state_snapshot t (sy_state y1)) = Some d)"

lemma queued_snoc: "queued pf marshal decode y0 es d \<Longrightarrow> queued pf marshal decode y0 (es @ [e]) d"
  unfolding queued_def by (blast dest: sent_snoc)

definition provenance ::
  "platform \<Rightarrow> (snapshot \<Rightarrow> 'd option) \<Rightarrow> ('d \<Rightarrow> snapshot option) \<Rightarrow> 'd system \<Rightarrow> 'd sys_event list \<Rightarrow>
   'd system \<Rightarrow> bool" where
  "provenance pf marshal decode y0 es y \<longleftrightarrow>
     (\<forall>d \<in> set (sy_queue y). queued pf marshal decode y0 es d) \<and>
     (\<forall>p. sy_plugin y = Some p \<longrightarrow> su_snapshot p = zero_snapshot \<or> delivered pf marshal decode y0 es p)"

lemma provenance_frame:
  "provenance pf marshal decode y0 es y \<Longrightarrow> set (sy_queue y') \<subseteq> set (sy_queue y) \<Longrightarrow>
   sy_plugin y' = sy_plugin y \<Longrightarrow> provenance pf marshal decode y0 (es @ [e]) y'"
  unfolding provenance_def by (auto intro: queued_snoc delivered_snoc)

lemma provenance_send:
  assumes "sys_history pf marshal decode y0 es y" and "provenance pf marshal decode y0 es y"
    and "y' = y\<lparr>sy_queue := sy_queue y @ sendState marshal reach now (sy_state y)\<rparr>"
  shows "provenance pf marshal decode y0 (es @ [YSend now reach]) y'"
proof -
  have "queued pf marshal decode y0 (es @ [YSend now reach]) d" if "d \<in> set (sendState marshal reach now (sy_state y))" for d
  proof -
    from that have "reach" "marshal (state_snapshot now (sy_state y)) = Some d"
      by (auto simp: sendState_def split: option.splits if_splits)
    with assms(1) show ?thesis
      unfolding queued_def sent_def by (intro exI [of _ es] exI [of _ y] exI [of _ now] exI [of _ "[]"]) simp
  qed
  with assms(2,3) show ?thesis
    unfolding provenance_def by (auto intro: queued_snoc delivered_snoc)
qed

lemma provenance_receive:
  assumes "provenance pf marshal decode y0 es y" and "\<forall>sn d. marshal sn = Some d \<longrightarrow> decode d = Some sn"
    and "sy_plugin y = Some p" and "sy_queue y = d # ds"
    and "y' = y\<lparr>sy_plugin := Some (receive decode (d, now) p), sy_queue := ds\<rparr>"
  shows "provenance pf marshal decode y0 (es @ [YReceive now]) y'"
proof -
  from assms(1,4) obtain es1 y1 t es2 where "sent pf marshal decode y0 es es1 y1 t es2"
      and m: "marshal (state_snapshot t (sy_state y1)) = Some d"
    by (auto simp: provenance_def queued_def)
  from sent_snoc [OF this(1)] have "sent pf marshal decode y0 (es @ [YReceive now]) es1 y1 t (es2 @ YReceive now # [])"
    by simp
  moreover have "su_snapshot (receive decode (d, now) p) = state_snapshot t (sy_state y1)"
    "su_receivedAt (receive decode (d, now) p) = now"
    using assms(2) m by (auto simp: receive_def)
  ultimately have "delivered pf marshal decode y0 (es @ [YReceive now]) (receive decode (d, now) p)"
    unfolding delivered_def by blast
  with assms(1,4,5) show ?thesis unfolding provenance_def by (auto intro: queued_snoc)
qed

lemma provenance_history:
  assumes "sys_history pf marshal decode y0 es y" and "sy_queue y0 = [] \<and> sy_plugin y0 = None"
    and "\<forall>sn d. marshal sn = Some d \<longrightarrow> decode d = Some sn"
  shows "provenance pf marshal decode y0 es y"
  using assms(1)
proof (induction rule: system.invariant)
  case start
  show ?case using assms(2) by (simp add: provenance_def)
next
  case (event es y e y')
  from event(2) show ?case
  proof (cases rule: sys_step_cases)
    case (send now reach)
    with provenance_send [OF event(1) event(3)] show ?thesis by simp
  next
    case (receive now p d ds)
    with provenance_receive [OF event(3) assms(3)] show ?thesis by simp
  next
    case (plugin_up p)
    then have "su_snapshot p = zero_snapshot"
      by (auto simp: supervisor_initPlugin_def no_call_fails_def)
    with plugin_up show ?thesis by (simp add: provenance_def)
  next
    case plugin_gone
    then show ?thesis by (simp add: provenance_def)
  qed (rule provenance_frame [OF event(3)]; simp)+
qed

text \<open>The state in which main goes on once the bridge is up.\<close>

lemma started_state:
  assumes "startDoHBridge W cd rcodes envs query lu lt auto dns newRuntimeState = (Inr b, s0)"
  shows "well_known s0" and "cp_up (component_of n s0) \<longleftrightarrow> n = ''doh_bridge''"
proof -
  note c = bridge_started [OF assms]
  have "well_known (update ''doh_bridge'' (set_up True) newRuntimeState)"
    by (rule update_well_known) (simp_all add: set_up_def)
  with c show "well_known s0" by (simp add: well_known_def)
  have "\<not> cp_up (component_of n newRuntimeState)"
    by (simp add: component_of_def newRuntimeState_def component_names_def zero_component_def)
  then have "cp_up (component_of n (update ''doh_bridge'' (set_up True) newRuntimeState)) \<longleftrightarrow> n = ''doh_bridge''"
    by (simp add: set_up_def)
  with c show "cp_up (component_of n s0) \<longleftrightarrow> n = ''doh_bridge''" by (simp add: component_of_def)
qed

lemma startup_coherent:
  assumes "startDoHBridge W cd rcodes envs query lu lt auto dns newRuntimeState = (Inr b, s0)"
    and "sys_history pf marshal decode (system_start (startup cfg await) s0) es y"
  shows "coherent pf es y" and "served y" and "names y = [''unbound'', ''unbound_recursive'', ''mosdns'']"
proof -
  note start = started_state [OF assms(1)]
  have d: "distinct (''doh_bridge'' # supervised_names (startup cfg await))"
    "\<forall>n \<in> set (supervised_names (startup cfg await)). \<not> cp_up (component_of n s0)"
    by (simp_all add: startup_children start(2))
  show "names y = [''unbound'', ''unbound_recursive'', ''mosdns'']"
    using names_history [OF assms(2)] startup_children by simp
  have "coherent pf es y \<and> served y"
    using assms(2)
  proof (induction rule: system.invariant)
    case start
    have "served (system_start (startup cfg await) s0)"
      using started_state(1) [OF assms(1)] by (simp add: served_def system_start_def)
    with coherent_start [OF d] show ?case by blast
  next
    case (event es y e y')
    with coherent_step [OF event(2)] served_step [OF event(2)] show ?case by blast
  qed
  then show "coherent pf es y" "served y" by simp_all
qed

lemma component_up_of: "component_up s n = cp_up (component_of n s)"
  by (simp add: component_up_def component_of_def zero_component_def split: option.split)

lemma zero_not_ready:
  "su_snapshot p = zero_snapshot \<Longrightarrow> fst (ready now p) = StatusServiceUnavailable"
  by (simp add: ready_def currentSnapshot_def writeStatus_def readyStatus_def liveStatus_def zero_snapshot_def)

lemma ready_conditions:
  assumes "fst (ready now p) = StatusOK"
  shows "time_sub now (su_receivedAt p) \<le> 5 * second" and "\<not> down (su_snapshot p) ''mosdns''"
    and "\<not> down (su_snapshot p) ''doh_bridge''"
    and "hasPrefix (snd (ready now p)) ''ok'' \<Longrightarrow>
      \<not> down (su_snapshot p) ''unbound'' \<and> \<not> down (su_snapshot p) ''unbound_recursive''"
  using assms
  by (auto simp: ready_def currentSnapshot_def writeStatus_def readyStatus_def liveStatus_def split: if_splits)


definition sample_config :: config where
  "sample_config = \<lparr>cf_autoForwardRaw = ''none'', cf_autoEnabled = False, cf_autoDNS = [],
     cf_logLevel = ''info'', cf_unboundLog = ''1''\<rparr>"

definition sample_await :: "string \<Rightarrow> goerr option" where
  "sample_await address = None"

text \<open>All children are supervised, MosDNS runs, its plugin is up and has received a state.\<close>

definition boot_events :: "snapshot sys_event list" where
  "boot_events = [YPlan, YPlan, YPlan, YPlan, YPlan, YChild (Suc (Suc 0)) SCheck,
      YChild (Suc (Suc 0)) (SStart 9 (Inr 77)), YPluginUp,
      YSend (7 * second) True, YReceive (8 * second)]"

lemma sample_boot:
  "\<exists>y p. sys_history unix Some Some (system_start (startup sample_config sample_await) s0) boot_events y \<and>
     sy_plugin y = Some p \<and> su_snapshot p = state_snapshot (7 * second) (update ''mosdns'' set_running s0) \<and>
     su_receivedAt p = 8 * second \<and> \<not> sy_returned y"
  by (simp add: system.hist_run boot_events_def system_start_def startup_def sample_await_def
      sys_step_def plan_step_def child_step_def sup_step_def sup_init_def supervisor_initPlugin_def no_call_fails_def
      child_alive_def alive_def mosdns_spec_def sendState_def receive_def publish_def log_call_def new_command_def)

lemma sample_bridge_starts:
  "\<exists>b s0. startDoHBridge 64 sample_codec (\<lambda>_. []) (\<lambda>_. sample_env 0 True) sample_query None None False []
     newRuntimeState = (Inr b, s0)"
  by (simp add: startDoHBridge_def selectDoHUpstreams_def autoDoHUpstreams_def split: prod.split)


section \<open>A listener that fails\<close>

lemma bridge_down_step:
  assumes "sys_step pf marshal decode y e = Some y'" and "coherent pf es y"
    and "\<not> component_up (sy_state y) ''doh_bridge''"
  shows "\<not> component_up (sy_state y') ''doh_bridge''"
  using assms(1)
proof (cases rule: sys_step_cases)
  case (child i ce spec v v')
  have "cs_name spec \<in> set (names y)" using child(2,3) by (force simp: names_def in_set_conv_nth)
  with coherentD(1) [OF assms(2)] have "''doh_bridge'' \<noteq> cs_name spec" by auto
  from sup_step_others [OF child(6,4) this] assms(3) child(7) show ?thesis by (simp add: component_up_def)
qed (use assms(3) in \<open>auto simp: component_up_of component_of_def [of _ "observeDoHUpstream _ _ _ _ _ _"]
  bridge_server_stopped_def set_up_def component_of_def [symmetric]\<close>)

lemma ctxDone_history:
  "sys_history pf marshal decode (system_start plan s) es y \<Longrightarrow> sy_ctxDone y \<longleftrightarrow> YCancel \<in> set es"
proof (induction rule: system.invariant)
  case start
  show ?case by (simp add: system_start_def)
next
  case (event es y e y')
  from event(2,3) show ?case by (cases rule: sys_step_cases) auto
qed

lemma bridge_stays_down:
  assumes "startDoHBridge W cd rcodes envs query lu lt auto dns newRuntimeState = (Inr b, s0)"
    and "run_steps (sys_step pf marshal decode) m fs = Some y"
    and "sys_history pf marshal decode (system_start (startup cfg await) s0) es m"
    and "\<not> component_up (sy_state m) ''doh_bridge''"
  shows "\<not> component_up (sy_state y) ''doh_bridge''"
  using assms(2,3,4)
proof (induction fs arbitrary: es m)
  case (Cons e fs)
  then obtain m' where s: "sys_step pf marshal decode m e = Some m'"
      and r: "run_steps (sys_step pf marshal decode) m' fs = Some y" by (auto split: option.splits)
  have "sys_history pf marshal decode (system_start (startup cfg await) s0) (es @ [e]) m'"
    using Cons.prems(2) s by (auto simp: system.hist_snoc)
  with Cons.IH [OF r] bridge_down_step [OF s startup_coherent(1) [OF assms(1) Cons.prems(2)] Cons.prems(3)]
  show ?case by blast
qed simp


lemma sample_failure:
  "\<exists>y. sys_history unix Some Some (system_start (startup sample_config sample_await) s0)
     [YPlan, YServerStopped BridgeTCP (Some (ErrNew ''accept: too many open files''))] y"
  by (simp add: system.hist_run system_start_def startup_def sample_await_def sys_step_def plan_step_def)


section \<open>Each child in the whole\<close>


definition crashed_child :: "snapshot sys_event list" where
  "crashed_child = [YPlan, YChild 0 SCheck, YCancel]"

lemma sample_crash:
  "\<exists>y v. sys_history unix Some Some (system_start (startup sample_config sample_await) s0) crashed_child y \<and>
     sy_children y = [(unbound_spec sample_config, v)] \<and> sv_phase v = Starting"
  by (simp add: crashed_child_def system.hist_run system_start_def startup_def sample_await_def sys_step_def
      plan_step_def child_step_def sup_step_def sup_init_def)


end
