(* ===== verification/SystemShutdown.thy ===== *)
theory SystemShutdown
  imports SystemSafety
begin

text \<open>
  The shutdown of all the processes together: it ends, in a bounded number of steps, with no
  child left.
\<close>

section \<open>The shutdown of the whole\<close>

text \<open>Steps that main and the children still take once the context is done: at most four per
  child, two for a child to be started and one for the rest of the plan, and the return.\<close>

definition plan_weight :: "startup_step \<Rightarrow> nat" where
  "plan_weight x = (case x of Supervise spec \<Rightarrow> 2 | _ \<Rightarrow> 1)"

definition sys_rank :: "'d system \<Rightarrow> nat" where
  "sys_rank y = (if sy_returned y then 0
     else 1 + sum_list (map plan_weight (sy_plan y)) + sum_list (map (\<lambda>c. rank (snd c)) (sy_children y)))"

definition sys_own :: "'d sys_event \<Rightarrow> bool" where
  "sys_own e \<longleftrightarrow> (case e of YPlan \<Rightarrow> True | YChild i ce \<Rightarrow> own ce | YReturn \<Rightarrow> True | _ \<Rightarrow> False)"

definition cancelled :: "'d system \<Rightarrow> bool" where
  "cancelled y \<longleftrightarrow> sy_ctxDone y \<and> list_all (\<lambda>c. sv_ctxDone (snd c)) (sy_children y)"

lemma rank_frame [simp]: "rank (v\<lparr>sv_ctxDone := b\<rparr>) = rank v" "rank (v\<lparr>sv_state := s\<rparr>) = rank v"
  "rank (sup_init spec s) = 1"
  by (simp_all add: rank_def sup_init_def)

lemma sum_list_replace:
  "i < length xs \<Longrightarrow> sum_list (map f (xs[i := x])) + f (xs ! i) = sum_list (map f xs) + (f x :: nat)"
  by (induction xs arbitrary: i) (auto split: nat.split)

lemma list_all_replace: "list_all P xs \<Longrightarrow> P x \<Longrightarrow> list_all P (xs[i := x])"
  by (induction xs arbitrary: i) (auto split: nat.split)

lemma sys_step_rank:
  assumes "sys_step pf marshal decode y e = Some y'" and "cancelled y"
  shows "cancelled y' \<and> (if sys_own e then sys_rank y' < sys_rank y else sys_rank y' = sys_rank y)"
proof -
  from assms(1) have live: "\<not> sy_returned y" by (auto simp: sys_step_def)
  from assms(1) show ?thesis
  proof (cases rule: sys_step_cases)
    case (child i ce spec v v')
    have "sv_ctxDone v" using assms(2) child(2,3) by (auto simp: cancelled_def list_all_length)
    with sup_step_rank [OF child(6)] have v': "sv_ctxDone v'" "if own ce then rank v' < rank v else rank v' = rank v"
      by (cases "own ce"; simp)+
    have "sys_rank y' + rank v = sys_rank y + rank v'"
      using sum_list_replace [OF child(2), of "\<lambda>c. rank (snd c)" "(spec, v')"] child(3,7) live
      by (simp add: sys_rank_def)
    moreover have "cancelled y'" using assms(2) child(7) v'(1) by (auto simp: cancelled_def intro: list_all_replace)
    ultimately show ?thesis using v'(2) child(1) by (auto simp: sys_own_def split: if_splits)
  next
    case cancel
    with assms(2) live show ?thesis
      by (simp add: cancelled_def sys_rank_def sys_own_def list_all_iff case_prod_beta comp_def)
  next
    case (supervise spec rest)
    with assms(2) live show ?thesis by (simp add: cancelled_def sys_rank_def sys_own_def plan_weight_def)
  next
    case (skip x rest)
    with assms(2) live show ?thesis
      by (simp add: cancelled_def sys_rank_def sys_own_def plan_weight_def split: startup_step.split)
  qed (use assms(2) live in \<open>auto simp: cancelled_def sys_rank_def sys_own_def\<close>)
qed

lemma cancelled_history:
  assumes "sys_history pf marshal decode (system_start plan s) es y" and "YCancel \<in> set es"
  shows "cancelled y"
proof -
  have "list_all (\<lambda>c. sv_ctxDone (snd c) = sy_ctxDone y) (sy_children y)"
    using assms(1)
  proof (induction rule: system.invariant)
    case start
    show ?case by (simp add: system_start_def)
  next
    case (event es y e y')
    from event(2) show ?case
    proof (cases rule: sys_step_cases)
      case (child i ce spec v v')
      have "sv_ctxDone v = sy_ctxDone y" using event(3) child(2,3) by (auto simp: list_all_length)
      moreover have "sv_ctxDone v' = sv_ctxDone v"
        using child(6)
      proof (cases rule: sup_step_cases)
        case (exited env werr now t err w)
        with sup_waited_frame(3) [OF exited(4)] show ?thesis by simp
      next
        case (gone env werr now err w)
        with sup_waited_frame(3) [OF gone(4)] show ?thesis by simp
      qed (use child(4,5) in auto)
      ultimately show ?thesis using event(3) child(7) by (auto intro: list_all_replace)
    next
      case cancel
      then show ?thesis by (simp add: list_all_iff case_prod_beta)
    qed (use event(3) in auto)
  qed
  with ctxDone_history [OF assms(1)] assms(2) show ?thesis by (simp add: cancelled_def)
qed

lemma cancelled_run:
  "run_steps (sys_step pf marshal decode) y fs = Some y' \<Longrightarrow> cancelled y \<Longrightarrow>
   length (filter sys_own fs) + sys_rank y' \<le> sys_rank y"
proof (induction fs arbitrary: y)
  case (Cons e fs)
  then obtain m where s: "sys_step pf marshal decode y e = Some m"
      and r: "run_steps (sys_step pf marshal decode) m fs = Some y'" by (auto split: option.splits)
  from sys_step_rank [OF s Cons.prems(2)] Cons.IH [OF r] show ?case by (auto split: if_splits)
qed simp

lemma shutdown_progress:
  assumes "cancelled y" and "\<not> sy_returned y"
  shows "\<exists>e y'. sys_own e \<and> sys_step pf marshal decode y e = Some y'"
proof (cases "sy_plan y")
  case (Cons x rest)
  with assms(2) have "sys_own YPlan \<and> (\<exists>y'. sys_step pf marshal decode y YPlan = Some y')"
    by (cases x) (simp_all add: sys_own_def sys_step_def plan_step_def)
  then show ?thesis by blast
next
  case Nil
  show ?thesis
  proof (cases "list_all (\<lambda>(spec, v). sv_phase v = Returned) (sy_children y)")
    case True
    with Nil assms have "sys_own YReturn \<and> sys_step pf marshal decode y YReturn = Some (y\<lparr>sy_returned := True\<rparr>)"
      by (simp add: sys_own_def sys_step_def cancelled_def)
    then show ?thesis by blast
  next
    case False
    then obtain i where i: "i < length (sy_children y)" "sv_phase (snd (sy_children y ! i)) \<noteq> Returned"
      by (auto simp: list_all_length case_prod_beta)
    obtain spec v where c: "sy_children y ! i = (spec, v)" by fastforce
    let ?v = "v\<lparr>sv_state := sy_state y\<rparr>"
    have v: "sv_ctxDone ?v" "sv_phase ?v \<noteq> Returned"
      using assms(1) i c by (auto simp: cancelled_def list_all_length)
    then obtain v' where s: "own (next_event ?v)" "sup_step pf spec ?v (next_event ?v) = Some v'"
      using next_event_enabled [OF v, of pf spec] by blast
    moreover have "\<forall>s. next_event ?v \<noteq> SOther s" "next_event ?v \<noteq> SCancel" using s(1) by (auto simp: own_def)
    ultimately have "sys_own (YChild i (next_event ?v)) \<and>
        (\<exists>y'. sys_step pf marshal decode y (YChild i (next_event ?v)) = Some y')"
      using assms(2) i(1) c by (simp add: sys_own_def sys_step_def child_step_def)
    then show ?thesis by blast
  qed
qed

lemma returned_history:
  assumes "sys_history pf marshal decode (system_start plan s) es y" and "sy_returned y"
  shows "sy_plan y = [] \<and> (\<forall>n. \<not> child_alive n y)"
proof -
  have "sy_returned y \<longrightarrow> sy_plan y = [] \<and> list_all (\<lambda>(spec, v). sv_phase v = Returned) (sy_children y)"
    using assms(1)
  proof (induction rule: system.invariant)
    case start
    show ?case by (simp add: system_start_def)
  next
    case (event es y e y')
    from event(2) have "\<not> sy_returned y" by (auto simp: sys_step_def)
    from event(2) this show ?case by (cases rule: sys_step_cases) auto
  qed
  with assms(2) show ?thesis by (auto simp: child_alive_def alive_def list_ex_iff list_all_iff)
qed

text \<open>What is left at most, over the whole run.\<close>

definition plan_bound :: "startup_step \<Rightarrow> nat" where
  "plan_bound x = (case x of Supervise spec \<Rightarrow> 4 | _ \<Rightarrow> 1)"

definition sys_bound :: "'d system \<Rightarrow> nat" where
  "sys_bound y = 1 + sum_list (map plan_bound (sy_plan y)) + 4 * length (sy_children y)"

lemma plan_weight_le: "sum_list (map plan_weight xs) \<le> sum_list (map plan_bound xs)"
  by (rule sum_list_mono) (simp add: plan_weight_def plan_bound_def split: startup_step.split)

lemma rank_sum_le: "sum_list (map (\<lambda>c. rank (snd c)) cs) \<le> 4 * length cs"
  by (induction cs) (use rank_le in \<open>auto intro: add_mono\<close>)

lemma sys_rank_le: "sys_rank y \<le> sys_bound y"
  using rank_sum_le [of "sy_children y"] plan_weight_le [of "sy_plan y"]
  by (simp add: sys_rank_def sys_bound_def)

lemma sys_step_bound:
  assumes "sys_step pf marshal decode y e = Some y'"
  shows "sys_bound y' \<le> sys_bound y"
  using assms
proof (cases rule: sys_step_cases)
  case (skip x rest)
  then show ?thesis by (cases x) (simp_all add: sys_bound_def plan_bound_def)
qed (simp_all add: sys_bound_def plan_bound_def)

lemma startup_bound: "sys_bound (system_start (startup cfg await) s) \<le> 19"
  by (simp add: sys_bound_def plan_bound_def system_start_def startup_def)


lemma sample_stop:
  "\<exists>y. sys_history unix Some Some (system_start (startup sample_config sample_await) newRuntimeState)
     (boot_events @ [YCancel]) y \<and> \<not> sy_returned y"
proof -
  obtain y p where "sys_history unix Some Some (system_start (startup sample_config sample_await) newRuntimeState)
      boot_events y" "\<not> sy_returned y"
    using sample_boot [of newRuntimeState] by blast
  then show ?thesis by (auto simp: system.hist_snoc sys_step_def)
qed


end
